(* ===== verification/Go_Prelude.thy ===== *)
theory Go_Prelude
  imports Main "HOL-Library.Word" "HOL-Library.Log_Nat" "HOL-Library.Stream"
begin

text \<open>
  The prelude of the development: the parts of Go that every component of the program
  uses and that HOL does not have. It holds

    \<^item> durations and instants (\<^verbatim>\<open>time.Duration\<close> is a 64-bit count of nanoseconds,
      \<^verbatim>\<open>time.Time\<close> an instant counted in nanoseconds from Go's zero time), with the
      wrap-around and the saturation of Go's arithmetic written out;
    \<^item> error values with the sentinel errors \<^verbatim>\<open>errors.Is\<close> looks for, and results that are
      a value, an error or a panic;
    \<^item> the early return \<^verbatim>\<open>if err != nil { return err }\<close> as a combinator, with the rules
      the component proofs use;
    \<^item> a locale for invariants of step relations.
\<close>

named_theorems frame \<open>what an operation leaves unchanged\<close>
named_theorems opdefs \<open>defining equations of the operations of a component\<close>

section \<open>Durations and instants\<close>

type_synonym duration = int
type_synonym time = int

abbreviation second :: duration where "second \<equiv> 1000000000"
abbreviation minute :: duration where "minute \<equiv> 60000000000"
abbreviation hour :: duration where "hour \<equiv> 3600000000000"

text \<open>A 64-bit signed result: what Go keeps of an integer that does not fit.\<close>

definition wrap64 :: "int \<Rightarrow> int" where
  "wrap64 x = (x + 2 ^ 63) mod 2 ^ 64 - 2 ^ 63"

text \<open>\<^verbatim>\<open>Time.Sub\<close> does not wrap: it returns the nearest duration.\<close>

definition sat64 :: "int \<Rightarrow> int" where
  "sat64 x = max (- (2 ^ 63)) (min (2 ^ 63 - 1) x)"

definition in64 :: "int \<Rightarrow> bool" where
  "in64 x \<longleftrightarrow> - (2 ^ 63) \<le> x \<and> x < 2 ^ 63"

lemma wrap64_word: "wrap64 x = sint (word_of_int x :: 64 word)"
proof -
  have "sint (word_of_int x :: 64 word) = signed_take_bit 63 x"
    by (simp add: signed_of_int)
  then show ?thesis
    by (simp add: wrap64_def signed_take_bit_eq_take_bit_shift take_bit_eq_mod)
qed

lemma wrap64_id [simp]: "in64 x \<Longrightarrow> wrap64 x = x"
  by (simp add: wrap64_def in64_def)

lemma in64_wrap64 [simp]: "in64 (wrap64 x)"
  by (simp add: wrap64_def in64_def)

lemma in64_sat64 [simp]: "in64 (sat64 x)"
  by (simp add: sat64_def in64_def)

lemma sat64_id [simp]: "in64 x \<Longrightarrow> sat64 x = x"
  by (simp add: sat64_def in64_def)

lemma sat64_mono: "x \<le> y \<Longrightarrow> sat64 x \<le> sat64 y"
  by (simp add: sat64_def)

lemma sat64_pos_iff [simp]: "0 < sat64 x \<longleftrightarrow> 0 < x" "sat64 x \<le> 0 \<longleftrightarrow> x \<le> 0"
  by (simp_all add: sat64_def max_def min_def)

lemma sat64_le_iff: "in64 c \<Longrightarrow> c < 2 ^ 63 - 1 \<Longrightarrow> sat64 x \<le> c \<longleftrightarrow> x \<le> c"
  by (auto simp: sat64_def in64_def)

lemma sat64_less_iff: "in64 c \<Longrightarrow> - (2 ^ 63) < c \<Longrightarrow> sat64 x < c \<longleftrightarrow> x < c"
  by (auto simp: sat64_def in64_def)

text \<open>Integer division of Go truncates towards zero.\<close>

definition go_div :: "int \<Rightarrow> int \<Rightarrow> int" where
  "go_div a b = sgn a * sgn b * (\<bar>a\<bar> div \<bar>b\<bar>)"

lemma go_div_nonneg [simp]: "0 \<le> a \<Longrightarrow> 0 < b \<Longrightarrow> go_div a b = a div b"
  by (cases "a = 0") (simp_all add: go_div_def)

text \<open>
  \<^verbatim>\<open>float64(n)\<close> for a 64-bit integer: exact up to 53 bits, above that rounded to the
  nearest multiple of the unit in the last place, ties to even.
\<close>

definition f64_of_int :: "int \<Rightarrow> int" where
  "f64_of_int n =
     (let m = \<bar>n\<bar> in
      if m \<le> 2 ^ 53 then n
      else let u = 2 ^ (nat (bitlen m) - 53); q = m div u; r = m mod u;
               q' = (if 2 * r > u \<or> (2 * r = u \<and> odd q) then q + 1 else q)
           in sgn n * q' * u)"

lemma f64_of_int_exact [simp]: "\<bar>n\<bar> \<le> 2 ^ 53 \<Longrightarrow> f64_of_int n = n"
  by (simp add: f64_of_int_def)

text \<open>
  \<^verbatim>\<open>time.Duration(float64(d) * 0.5)\<close>: halving a float is exact, the conversion back
  truncates.
\<close>

definition half_duration :: "duration \<Rightarrow> duration" where
  "half_duration d = go_div (f64_of_int d) 2"

lemma half_duration_exact: "0 \<le> d \<Longrightarrow> d \<le> 2 ^ 53 \<Longrightarrow> half_duration d = d div 2"
  by (simp add: half_duration_def)

text \<open>
  \<^verbatim>\<open>int64(d.Seconds())\<close>: whole seconds, truncated. (Go goes through a float64; below
  \<open>2 ^ 24\<close> seconds, 194 days, the float keeps the whole part exactly.)
\<close>

definition whole_seconds :: "duration \<Rightarrow> int" where
  "whole_seconds d = go_div d second"

lemma whole_seconds_bounds:
  assumes "0 \<le> d"
  shows "whole_seconds d * second \<le> d" and "d < (whole_seconds d + 1) * second"
  using assms by (simp_all add: whole_seconds_def) linarith?

lemma whole_seconds_nonneg: "0 \<le> d \<Longrightarrow> 0 \<le> whole_seconds d"
  by (simp add: whole_seconds_def pos_imp_zdiv_nonneg_iff)

text \<open>Operations on instants; the zero instant is \<^verbatim>\<open>time.Time{}\<close>.\<close>

definition time_IsZero :: "time \<Rightarrow> bool" where "time_IsZero t \<longleftrightarrow> t = 0"
definition time_Add :: "time \<Rightarrow> duration \<Rightarrow> time" where "time_Add t d = t + d"
definition time_Sub :: "time \<Rightarrow> time \<Rightarrow> duration" where "time_Sub a b = sat64 (a - b)"
definition time_After :: "time \<Rightarrow> time \<Rightarrow> bool" where "time_After a b \<longleftrightarrow> b < a"
definition time_Before :: "time \<Rightarrow> time \<Rightarrow> bool" where "time_Before a b \<longleftrightarrow> a < b"

lemmas time_ops = time_IsZero_def time_Add_def time_Sub_def time_After_def time_Before_def

lemma time_IsZero_0 [simp]: "time_IsZero 0"
  by (simp add: time_IsZero_def)

section \<open>Errors and results\<close>

text \<open>The sentinel errors the code tests for with \<^verbatim>\<open>errors.Is\<close> or \<^verbatim>\<open>os.IsNotExist\<close>.\<close>

datatype sentinel =
    ErrNotExist
  | ErrTokenDenied
  | ErrCurlNotFound
  | ErrOpenSSLCurlMissing
  | ErrNoCachedToken
  | ErrTooManyAttempts

record goerr =
  emsg :: string
  chain :: "sentinel list"

definition errors_New :: "string \<Rightarrow> goerr" where
  "errors_New m = \<lparr>emsg = m, chain = []\<rparr>"

definition errors_Is :: "goerr \<Rightarrow> sentinel \<Rightarrow> bool" where
  "errors_Is e s \<longleftrightarrow> s \<in> set (chain e)"

text \<open>\<^verbatim>\<open>errors.Wrap(err, m)\<close> and \<^verbatim>\<open>fmt.Errorf("m: %w", err)\<close>.\<close>

definition errors_Wrap :: "string \<Rightarrow> goerr \<Rightarrow> goerr" where
  "errors_Wrap m e = e\<lparr>emsg := m @ '': '' @ emsg e\<rparr>"

lemma errors_Wrap_simps [simp]:
  "errors_Is (errors_Wrap m e) s = errors_Is e s"
  "emsg (errors_Wrap m e) = m @ '': '' @ emsg e"
  "\<not> errors_Is (errors_New m) s"
  "emsg (errors_New m) = m"
  by (simp_all add: errors_Is_def errors_Wrap_def errors_New_def)

datatype 'a res = Ok 'a | Err goerr | Panic string

fun is_Ok :: "'a res \<Rightarrow> bool" where
  "is_Ok (Ok _) = True"
| "is_Ok _ = False"

fun map_err :: "(goerr \<Rightarrow> goerr) \<Rightarrow> 'a res \<Rightarrow> 'a res" where
  "map_err f (Err e) = Err (f e)"
| "map_err f r = r"

lemma map_err_eq_iff [simp]:
  "map_err f r = Ok x \<longleftrightarrow> r = Ok x"
  "map_err f r = Panic s \<longleftrightarrow> r = Panic s"
  "is_Ok (map_err f r) = is_Ok r"
  by (cases r; simp)+

lemma is_Ok_iff: "is_Ok r \<longleftrightarrow> (\<exists>x. r = Ok x)"
  by (cases r) auto

section \<open>Early return\<close>

text \<open>
  An operation on a state \<open>'w\<close> returns a result and the state it leaves.
  \<open>io_try (m w) f\<close> is Go's \<^verbatim>\<open>x, err := m(); if err != nil { return err }; f(x)\<close>;
  \<open>io_wrap\<close> is the same with the error annotated on the way out.
\<close>

fun io_try :: "'a res \<times> 'w \<Rightarrow> ('a \<Rightarrow> 'w \<Rightarrow> 'b res \<times> 'w) \<Rightarrow> 'b res \<times> 'w" where
  "io_try (Ok x, w) f = f x w"
| "io_try (Err e, w) f = (Err e, w)"
| "io_try (Panic s, w) f = (Panic s, w)"

definition io_wrap :: "(goerr \<Rightarrow> goerr) \<Rightarrow> 'a res \<times> 'w \<Rightarrow> 'a res \<times> 'w" where
  "io_wrap h r = (map_err h (fst r), snd r)"

lemma io_wrap_simps [simp]:
  "io_wrap h (r, w) = (map_err h r, w)"
  "snd (io_wrap h p) = snd p"
  "fst (io_wrap h p) = map_err h (fst p)"
  by (simp_all add: io_wrap_def)

lemma io_try_OkD:
  assumes "fst (io_try r f) = Ok y"
  obtains x where "fst r = Ok x" and "fst (f x (snd r)) = Ok y"
proof -
  obtain a w where r: "r = (a, w)" by (cases r)
  with assms show thesis by (cases a) (auto intro: that)
qed

lemma io_try_snd_cases:
  "(\<exists>x. fst r = Ok x \<and> snd (io_try r f) = snd (f x (snd r))) \<or>
   (\<not> is_Ok (fst r) \<and> snd (io_try r f) = snd r)"
proof -
  obtain a w where r: "r = (a, w)" by (cases r)
  then show ?thesis by (cases a) auto
qed

text \<open>The rule for properties of the state an operation with early returns leaves.\<close>

lemma io_try_keeps:
  assumes "P (snd r)"
    and "\<And>x. fst r = Ok x \<Longrightarrow> P (snd r) \<Longrightarrow> P (snd (f x (snd r)))"
  shows "P (snd (io_try r f))"
  using assms io_try_snd_cases [of r f] by auto

lemma io_try_no_panic:
  assumes "\<And>m. fst r \<noteq> Panic m" and "\<And>x w m. fst r = Ok x \<Longrightarrow> fst (f x w) \<noteq> Panic m"
  shows "fst (io_try r f) \<noteq> Panic m"
proof -
  obtain a w where "r = (a, w)" by (cases r)
  with assms show ?thesis by (cases a) auto
qed

lemma if_no_panic:
  "(b \<Longrightarrow> fst x \<noteq> Panic m) \<Longrightarrow> (\<not> b \<Longrightarrow> fst y \<noteq> Panic m) \<Longrightarrow> fst (if b then x else y) \<noteq> Panic m"
  by simp

lemmas no_panic_rules = if_no_panic io_try_no_panic

lemma io_try_fst_Ok: "fst r = Ok x \<Longrightarrow> io_try r f = f x (snd r)"
  by (cases r) auto

lemma io_try_fst_Err: "fst r = Err e \<Longrightarrow> io_try r f = (Err e, snd r)"
  by (cases r) auto

section \<open>Invariants of step relations\<close>

text \<open>
  The long-running commands of the program are loops, modelled as step relations. What a
  single step keeps, every run keeps.
\<close>

locale step_invariant =
  fixes step :: "'s \<Rightarrow> 's \<Rightarrow> bool"
    and inv :: "'s \<Rightarrow> bool"
  assumes step_keeps: "step s t \<Longrightarrow> inv s \<Longrightarrow> inv t"
begin

lemma run_keeps:
  assumes "step\<^sup>*\<^sup>* s t" and "inv s"
  shows "inv t"
  using assms by (induction rule: rtranclp_induct) (auto intro: step_keeps)

end

end
