(* ===== verification/Go_Strings.thy ===== *)
theory Go_Strings
  imports Go_Prelude "HOL-Library.Sublist"
begin

text \<open>
  Go strings are byte strings, and so is HOL's \<^typ>\<open>string\<close> (a \<^typ>\<open>char\<close> has eight
  bits). This theory holds the functions of package \<^verbatim>\<open>strings\<close> (and \<^verbatim>\<open>strconv.Itoa\<close>) the
  program calls, on bytes:

    \<^item> \<^verbatim>\<open>TrimSpace\<close> removes every Unicode space, in its UTF-8 encoding;
    \<^item> \<^verbatim>\<open>ToLower\<close> maps the ASCII letters and the two other code points whose lower case is
      an ASCII letter (the Kelvin sign and the dotted capital I); the case of any other
      letter is left alone, which cannot change a comparison with an ASCII text;
    \<^item> \<^verbatim>\<open>EqualFold\<close> folds the ASCII letters.
\<close>

section \<open>Search\<close>

fun contains :: "string \<Rightarrow> string \<Rightarrow> bool" where
  "contains sub [] = (sub = [])"
| "contains sub (c # s) = (prefix sub (c # s) \<or> contains sub s)"

lemma contains_sublist: "contains sub s \<longleftrightarrow> sublist sub s"
  by (induction s) (auto simp: sublist_Cons_right)

lemma contains_iff: "contains sub s \<longleftrightarrow> (\<exists>a b. s = a @ sub @ b)"
  by (auto simp: contains_sublist sublist_def)

lemma contains_appendI1: "contains k s \<Longrightarrow> contains k (s @ t)"
  unfolding contains_iff by (metis append.assoc)

lemma contains_appendI2: "contains k t \<Longrightarrow> contains k (s @ t)"
  unfolding contains_iff by (metis append.assoc)

lemma contains_mono: "contains k s \<Longrightarrow> s = m \<Longrightarrow> contains k (a @ m @ b)"
  by (auto intro: contains_appendI1 contains_appendI2)

fun last_index :: "string \<Rightarrow> string \<Rightarrow> nat option" where
  "last_index sub [] = (if sub = [] then Some 0 else None)"
| "last_index sub (c # s) =
     (case last_index sub s of
        Some i \<Rightarrow> Some (Suc i)
      | None \<Rightarrow> if prefix sub (c # s) then Some 0 else None)"

lemma last_index_None: "last_index sub s = None \<longleftrightarrow> \<not> contains sub s"
  by (induction s) (auto split: option.splits)

lemma last_index_Some:
  "last_index sub s = Some i \<Longrightarrow> i \<le> length s \<and> prefix sub (drop i s)"
  by (induction s arbitrary: i) (auto split: option.splits if_splits)

lemma last_index_last:
  "last_index sub s = Some i \<Longrightarrow> i < j \<Longrightarrow> j \<le> length s \<Longrightarrow> \<not> prefix sub (drop j s)"
proof (induction s arbitrary: i j)
  case Nil
  then show ?case by (simp split: if_splits)
next
  case (Cons c s)
  obtain j' where j: "j = Suc j'" using Cons.prems(2) by (cases j) auto
  show ?case
  proof (cases "last_index sub s")
    case None
    then have "\<not> contains sub s" by (simp add: last_index_None)
    then have "\<not> prefix sub (drop j' s)"
      unfolding contains_iff prefix_def by (metis append_take_drop_id)
    then show ?thesis by (simp add: j)
  next
    case (Some i')
    with Cons.prems j have "i' < j'" and "j' \<le> length s" by auto
    with Cons.IH [OF Some] show ?thesis by (simp add: j)
  qed
qed

text \<open>The last occurrence is at the front of a suffix in which the text does not occur again.\<close>

lemma last_index_here:
  assumes "sub \<noteq> []" and "\<not> contains sub (tl (sub @ b))"
  shows "last_index sub (a @ sub @ b) = Some (length a)"
proof (induction a)
  case Nil
  obtain x xs where "sub @ b = x # xs" using assms(1) by (cases "sub @ b") auto
  with assms(2) have x: "sub @ b = x # xs" "last_index sub xs = None" by (simp_all add: last_index_None)
  have "prefix sub (x # xs)" using x(1) by (metis prefix_def)
  with x show ?case by simp
qed simp

lemma contains_after_line:
  "c \<notin> set x \<Longrightarrow> contains (c # k) (x @ y) = contains (c # k) y"
  by (induction x) auto

text \<open>\<^verbatim>\<open>ContainsAny(s, chars)\<close>.\<close>

definition contains_any :: "string \<Rightarrow> string \<Rightarrow> bool" where
  "contains_any s chars \<longleftrightarrow> (\<exists>c \<in> set s. c \<in> set chars)"

section \<open>Prefixes and trimming\<close>

definition trim_prefix :: "string \<Rightarrow> string \<Rightarrow> string" where
  "trim_prefix p s = (if prefix p s then drop (length p) s else s)"

text \<open>\<^verbatim>\<open>TrimRight\<close> with a set of ASCII characters.\<close>

definition trim_right :: "string \<Rightarrow> string \<Rightarrow> string" where
  "trim_right cutset s = rev (dropWhile (\<lambda>c. c \<in> set cutset) (rev s))"

text \<open>Remove the given words from the front of a text as long as one is there.\<close>

function trim_words :: "string list \<Rightarrow> string \<Rightarrow> string" where
  "trim_words ws s =
     (case find (\<lambda>v. v \<noteq> [] \<and> prefix v s) ws of
        None \<Rightarrow> s
      | Some v \<Rightarrow> trim_words ws (drop (length v) s))"
  by pat_completeness auto
termination
  by (relation "measure (\<lambda>(ws, s). length s)")
    (auto simp: find_Some_iff prefix_def)

declare trim_words.simps [simp del]

text \<open>The white space of \<^verbatim>\<open>unicode.IsSpace\<close>, each code point in UTF-8.\<close>

definition unicode_spaces :: "string list" where
  "unicode_spaces =
     [[CHR 0x20], [CHR 0x09], [CHR 0x0A], [CHR 0x0B], [CHR 0x0C], [CHR 0x0D],
      [CHR 0xC2, CHR 0x85], [CHR 0xC2, CHR 0xA0], [CHR 0xE1, CHR 0x9A, CHR 0x80],
      [CHR 0xE2, CHR 0x80, CHR 0x80], [CHR 0xE2, CHR 0x80, CHR 0x81],
      [CHR 0xE2, CHR 0x80, CHR 0x82], [CHR 0xE2, CHR 0x80, CHR 0x83],
      [CHR 0xE2, CHR 0x80, CHR 0x84], [CHR 0xE2, CHR 0x80, CHR 0x85],
      [CHR 0xE2, CHR 0x80, CHR 0x86], [CHR 0xE2, CHR 0x80, CHR 0x87],
      [CHR 0xE2, CHR 0x80, CHR 0x88], [CHR 0xE2, CHR 0x80, CHR 0x89],
      [CHR 0xE2, CHR 0x80, CHR 0x8A], [CHR 0xE2, CHR 0x80, CHR 0xA8],
      [CHR 0xE2, CHR 0x80, CHR 0xA9], [CHR 0xE2, CHR 0x80, CHR 0xAF],
      [CHR 0xE2, CHR 0x81, CHR 0x9F], [CHR 0xE3, CHR 0x80, CHR 0x80]]"

definition TrimSpace :: "string \<Rightarrow> string" where
  "TrimSpace s =
     rev (trim_words (map rev unicode_spaces) (rev (trim_words unicode_spaces s)))"

text \<open>What the trimming leaves: a suffix, with none of the words in front.\<close>

lemma trim_words_suffix: "suffix (trim_words ws s) s"
proof (induction ws s rule: trim_words.induct)
  case (1 ws s)
  show ?case
  proof (cases "find (\<lambda>v. v \<noteq> [] \<and> prefix v s) ws")
    case None
    then show ?thesis by (simp add: trim_words.simps [of ws s])
  next
    case (Some v)
    with 1 have "suffix (trim_words ws (drop (length v) s)) (drop (length v) s)" by simp
    then have "suffix (trim_words ws (drop (length v) s)) s"
      using suffix_drop suffix_order.trans by blast
    with Some show ?thesis by (simp add: trim_words.simps [of ws s])
  qed
qed

lemma trim_words_done:
  "find (\<lambda>v. v \<noteq> [] \<and> prefix v (trim_words ws s)) ws = None"
proof (induction ws s rule: trim_words.induct)
  case (1 ws s)
  then show ?case
    by (cases "find (\<lambda>v. v \<noteq> [] \<and> prefix v s) ws")
      (simp_all add: trim_words.simps [of ws s])
qed

lemma trim_words_id:
  "find (\<lambda>v. v \<noteq> [] \<and> prefix v s) ws = None \<Longrightarrow> trim_words ws s = s"
  by (simp add: trim_words.simps [of ws s])

lemma trim_words_Nil [simp]: "trim_words ws [] = []"
  by (rule trim_words_id) (auto simp: find_None_iff)

lemma trim_words_fixed_iff:
  "trim_words ws s = s \<longleftrightarrow> find (\<lambda>v. v \<noteq> [] \<and> prefix v s) ws = None"
  using trim_words_done [of ws s] trim_words_id [of s ws] by metis

definition no_outer_space :: "string \<Rightarrow> bool" where
  "no_outer_space s \<longleftrightarrow>
     (\<forall>v \<in> set unicode_spaces. \<not> prefix v s) \<and>
     (\<forall>v \<in> set unicode_spaces. \<not> suffix v s)"

lemma unicode_spaces_nonempty: "v \<in> set unicode_spaces \<Longrightarrow> v \<noteq> []"
  by (auto simp: unicode_spaces_def)

lemma TrimSpace_id: "no_outer_space s \<Longrightarrow> TrimSpace s = s"
  unfolding no_outer_space_def TrimSpace_def
  by (subst (1 2) trim_words_id) (auto simp: find_None_iff suffix_to_prefix)

lemma TrimSpace_no_outer_space: "no_outer_space (TrimSpace s)"
proof -
  let ?l = "trim_words unicode_spaces s"
  let ?r = "trim_words (map rev unicode_spaces) (rev ?l)"
  have l: "\<not> prefix v ?l" if "v \<in> set unicode_spaces" for v
    using trim_words_done [of unicode_spaces s] that unicode_spaces_nonempty [OF that]
    by (auto simp: find_None_iff)
  have r: "\<not> prefix (rev v) ?r" if "v \<in> set unicode_spaces" for v
    using trim_words_done [of "map rev unicode_spaces" "rev ?l"] that
      unicode_spaces_nonempty [OF that] by (auto simp: find_None_iff)
  have "prefix (rev ?r) ?l"
    using trim_words_suffix [of "map rev unicode_spaces" "rev ?l"]
    by (simp add: suffix_to_prefix)
  then show ?thesis
    unfolding no_outer_space_def TrimSpace_def
    using l r by (auto simp: suffix_to_prefix dest: prefix_order.trans)
qed

lemma TrimSpace_idem [simp]: "TrimSpace (TrimSpace s) = TrimSpace s"
  by (rule TrimSpace_id [OF TrimSpace_no_outer_space])

lemma TrimSpace_Nil [simp]: "TrimSpace [] = []"
  by (simp add: TrimSpace_def)

lemma TrimSpace_infix: "\<exists>a b. s = a @ TrimSpace s @ b"
proof -
  let ?l = "trim_words unicode_spaces s"
  have "suffix ?l s" by (rule trim_words_suffix)
  moreover have "prefix (TrimSpace s) ?l"
    using trim_words_suffix [of "map rev unicode_spaces" "rev ?l"]
    by (simp add: suffix_to_prefix TrimSpace_def)
  ultimately show ?thesis unfolding suffix_def prefix_def by (metis append.assoc)
qed

text \<open>A text whose first and last byte are no part of a space is its own trim.\<close>

definition plain_byte :: "char \<Rightarrow> bool" where
  "plain_byte c \<longleftrightarrow> (of_char c :: nat) > 32 \<and> (of_char c :: nat) < 127"

lemma spaces_not_plain:
  "v \<in> set unicode_spaces \<Longrightarrow> \<not> plain_byte (hd v) \<and> \<not> plain_byte (last v)"
  by (auto simp: unicode_spaces_def plain_byte_def)

lemma TrimSpace_plain:
  assumes "s \<noteq> []" and "plain_byte (hd s)" and "plain_byte (last s)"
  shows "TrimSpace s = s"
proof (rule TrimSpace_id)
  show "no_outer_space s"
    unfolding no_outer_space_def
  proof (intro conjI ballI notI)
    fix v assume v: "v \<in> set unicode_spaces" and "prefix v s"
    then have "hd v = hd s" using unicode_spaces_nonempty [OF v] by (auto simp: prefix_def)
    with assms(2) spaces_not_plain [OF v] show False by simp
  next
    fix v assume v: "v \<in> set unicode_spaces" and "suffix v s"
    then have "last v = last s" using unicode_spaces_nonempty [OF v] by (auto simp: suffix_def)
    with assms(3) spaces_not_plain [OF v] show False by simp
  qed
qed

text \<open>A plain byte survives the trimming of the other end.\<close>

lemma trim_words_keeps_last:
  assumes "\<And>v c. v \<in> set ws \<Longrightarrow> c \<in> set v \<Longrightarrow> \<not> P c" and "s \<noteq> []" and "P (last s)"
  shows "trim_words ws s \<noteq> [] \<and> last (trim_words ws s) = last s"
  using assms
proof (induction ws s rule: trim_words.induct)
  case (1 ws s)
  show ?case
  proof (cases "find (\<lambda>v. v \<noteq> [] \<and> prefix v s) ws")
    case None
    with 1 show ?thesis by (simp add: trim_words.simps [of ws s])
  next
    case (Some v)
    then have v: "v \<in> set ws" "prefix v s" by (auto simp: find_Some_iff)
    then obtain t where t: "s = v @ t" by (auto simp: prefix_def)
    have "t \<noteq> []"
    proof
      assume "t = []"
      with t 1(3) have "last s \<in> set v" by (simp add: last_in_set)
      with 1(2,4) v(1) show False by blast
    qed
    with 1 Some t have "trim_words ws t \<noteq> [] \<and> last (trim_words ws t) = last s" by simp
    moreover have "trim_words ws s = trim_words ws t"
      using Some t by (simp add: trim_words.simps [of ws "v @ t"])
    ultimately show ?thesis by simp
  qed
qed

lemma spaces_no_plain: "v \<in> set unicode_spaces \<Longrightarrow> c \<in> set v \<Longrightarrow> \<not> plain_byte c"
  by (auto simp: unicode_spaces_def plain_byte_def)

lemma TrimSpace_hd:
  assumes "s \<noteq> []" and "plain_byte (hd s)"
  shows "TrimSpace s \<noteq> [] \<and> hd (TrimSpace s) = hd s"
proof -
  have "trim_words unicode_spaces s = s"
  proof (rule trim_words_id)
    have "\<not> prefix v s" if v: "v \<in> set unicode_spaces" for v
    proof
      assume "prefix v s"
      then have "hd v = hd s" using unicode_spaces_nonempty [OF v] by (auto simp: prefix_def)
      with assms(2) spaces_not_plain [OF v] show False by simp
    qed
    then show "find (\<lambda>v. v \<noteq> [] \<and> prefix v s) unicode_spaces = None" by (auto simp: find_None_iff)
  qed
  moreover have "trim_words (map rev unicode_spaces) (rev s) \<noteq> [] \<and>
      last (trim_words (map rev unicode_spaces) (rev s)) = last (rev s)"
    using assms by (intro trim_words_keeps_last [where P = plain_byte])
      (auto simp: last_rev dest: spaces_no_plain)
  ultimately show ?thesis using assms(1) by (simp add: TrimSpace_def hd_rev last_rev)
qed

lemma TrimSpace_leading [simp]: "TrimSpace (CHR '' '' # s) = TrimSpace s"
proof -
  have "find (\<lambda>v. v \<noteq> [] \<and> prefix v (CHR '' '' # s)) unicode_spaces = Some '' ''"
    by (simp add: unicode_spaces_def)
  then show ?thesis by (simp add: TrimSpace_def trim_words.simps [of unicode_spaces "CHR '' '' # s"])
qed

section \<open>Letter case\<close>

definition ascii_lower :: "char \<Rightarrow> char" where
  "ascii_lower c =
     (if 65 \<le> (of_char c :: nat) \<and> (of_char c :: nat) \<le> 90 then char_of (of_char c + 32 :: nat) else c)"

fun ToLower :: "string \<Rightarrow> string" where
  "ToLower [] = []"
| "ToLower (c # s) =
     (if c = CHR 0xE2 \<and> take 2 s = [CHR 0x84, CHR 0xAA] then CHR ''k'' # ToLower (drop 2 s)
      else if c = CHR 0xC4 \<and> take 1 s = [CHR 0xB0] then CHR ''i'' # ToLower (drop 1 s)
      else ascii_lower c # ToLower s)"

definition EqualFold :: "string \<Rightarrow> string \<Rightarrow> bool" where
  "EqualFold a b \<longleftrightarrow> map ascii_lower a = map ascii_lower b"

text \<open>A text with no upper case letter folds only with itself.\<close>

definition lower_text :: "string \<Rightarrow> bool" where
  "lower_text s \<longleftrightarrow> map ascii_lower s = s"

lemma EqualFold_lower: "lower_text a \<Longrightarrow> lower_text b \<Longrightarrow> EqualFold a b \<longleftrightarrow> a = b"
  by (simp add: EqualFold_def lower_text_def)

lemma EqualFold_refl [simp]: "EqualFold a a"
  by (simp add: EqualFold_def)

section \<open>Replacing and splitting\<close>

text \<open>
  \<^verbatim>\<open>ReplaceAll\<close> for a non-empty \<open>old\<close> (the program never replaces the empty text): from
  left to right, without overlaps.
\<close>

fun ReplaceAll :: "string \<Rightarrow> string \<Rightarrow> string \<Rightarrow> string" where
  "ReplaceAll [] old new = []"
| "ReplaceAll (c # s) old new =
     (if old \<noteq> [] \<and> prefix old (c # s) then new @ ReplaceAll (drop (length old - 1) s) old new
      else c # ReplaceAll s old new)"

lemma ReplaceAll_absent: "\<not> contains old s \<Longrightarrow> ReplaceAll s old new = s"
  by (induction s) auto

fun split_on :: "char \<Rightarrow> string \<Rightarrow> string list" where
  "split_on c [] = [[]]"
| "split_on c (x # s) =
     (if x = c then [] # split_on c s
      else case split_on c s of [] \<Rightarrow> [[x]] | p # ps \<Rightarrow> (x # p) # ps)"

lemma split_on_nonempty [simp]: "split_on c s \<noteq> []"
  by (induction s) (auto split: list.splits)

lemma split_on_absent: "c \<notin> set s \<Longrightarrow> split_on c s = [s]"
  by (induction s) auto

lemma split_on_append: "c \<notin> set a \<Longrightarrow> split_on c (a @ c # b) = a # split_on c b"
  by (induction a) auto

text \<open>Joining lines and splitting them again.\<close>

fun join_with :: "char \<Rightarrow> string list \<Rightarrow> string" where
  "join_with c [] = []"
| "join_with c [p] = p"
| "join_with c (p # q # ps) = p @ c # join_with c (q # ps)"

lemma split_on_join_with:
  "ls \<noteq> [] \<Longrightarrow> list_all (\<lambda>l. c \<notin> set l) ls \<Longrightarrow> split_on c (join_with c ls) = ls"
  by (induction c ls rule: join_with.induct) (simp_all add: split_on_absent split_on_append)

text \<open>\<^verbatim>\<open>SplitN(s, "=", 2)\<close>: the part before the first separator and, if there is one, the rest.\<close>

definition split_first :: "char \<Rightarrow> string \<Rightarrow> string \<times> string option" where
  "split_first c s =
     (takeWhile (\<lambda>x. x \<noteq> c) s,
      case dropWhile (\<lambda>x. x \<noteq> c) s of [] \<Rightarrow> None | _ # r \<Rightarrow> Some r)"

lemma split_first_append: "c \<notin> set a \<Longrightarrow> split_first c (a @ c # b) = (a, Some b)"
  by (auto simp: split_first_def takeWhile_append dropWhile_append)

section \<open>Numbers\<close>

fun digits :: "nat \<Rightarrow> string" where
  "digits n = (if n < 10 then [char_of (48 + n)] else digits (n div 10) @ [char_of (48 + n mod 10)])"

declare digits.simps [simp del]

definition Itoa :: "int \<Rightarrow> string" where
  "Itoa i = (if i < 0 then CHR ''-'' # digits (nat (- i)) else digits (nat i))"

definition is_digit :: "char \<Rightarrow> bool" where
  "is_digit c \<longleftrightarrow> 48 \<le> (of_char c :: nat) \<and> (of_char c :: nat) \<le> 57"

lemma digits_nonempty [simp]: "digits n \<noteq> []"
  by (subst digits.simps) simp

lemma digits_are_digits: "c \<in> set (digits n) \<Longrightarrow> is_digit c"
proof (induction n rule: digits.induct)
  case (1 n)
  then show ?case
    by (subst (asm) (2) digits.simps) (auto simp: is_digit_def of_char_of split: if_splits)
qed

text \<open>Reading the digits back.\<close>

definition read_digits :: "string \<Rightarrow> nat" where
  "read_digits s = foldl (\<lambda>n c. 10 * n + (of_char c - 48)) 0 s"

lemma read_digits_digits: "read_digits (digits n) = n"
proof (induction n rule: digits.induct)
  case (1 n)
  show ?case
  proof (cases "n < 10")
    case True
    then show ?thesis by (subst digits.simps) (simp add: read_digits_def of_char_of)
  next
    case False
    then have "read_digits (digits n) = 10 * read_digits (digits (n div 10)) + n mod 10"
      by (subst digits.simps) (simp add: read_digits_def of_char_of)
    with 1 False show ?thesis by simp
  qed
qed

lemma digits_inject: "digits m = digits n \<Longrightarrow> m = n"
  by (metis read_digits_digits)

text \<open>\<^verbatim>\<open>fmt.Sprintf("%q", s)\<close>: quotes, with the escapes Go writes for ASCII.\<close>

definition hex_digit :: "nat \<Rightarrow> char" where
  "hex_digit n = (if n < 10 then char_of (48 + n) else char_of (87 + n))"

definition quote_char :: "char \<Rightarrow> string" where
  "quote_char c =
     (let n = (of_char c :: nat) in
      if c = CHR 0x22 then [CHR 0x5C, CHR 0x22]
      else if c = CHR 0x5C then [CHR 0x5C, CHR 0x5C]
      else if n = 7 then CHR 0x5C # ''a'' else if n = 8 then CHR 0x5C # ''b''
      else if n = 9 then CHR 0x5C # ''t'' else if n = 10 then CHR 0x5C # ''n''
      else if n = 11 then CHR 0x5C # ''v'' else if n = 12 then CHR 0x5C # ''f''
      else if n = 13 then CHR 0x5C # ''r''
      else if n < 32 \<or> n = 127 then CHR 0x5C # CHR ''x'' # [hex_digit (n div 16), hex_digit (n mod 16)]
      else [c])"

definition quote :: "string \<Rightarrow> string" where
  "quote s = [CHR 0x22] @ concat (map quote_char s) @ [CHR 0x22]"

text \<open>The dash in some messages, in UTF-8.\<close>

abbreviation em_dash :: string where "em_dash \<equiv> [CHR 0xE2, CHR 0x80, CHR 0x94]"

section \<open>Escaping in URLs\<close>

definition upper_hex :: "nat \<Rightarrow> char" where
  "upper_hex n = (if n < 10 then char_of (48 + n) else char_of (55 + n))"

definition url_unreserved :: "char \<Rightarrow> bool" where
  "url_unreserved c \<longleftrightarrow> (let n = (of_char c :: nat) in
     48 \<le> n \<and> n \<le> 57 \<or> 65 \<le> n \<and> n \<le> 90 \<or> 97 \<le> n \<and> n \<le> 122) \<or> c \<in> set ''-_.~''"

definition percent :: "char \<Rightarrow> string" where
  "percent c = [CHR ''%'', upper_hex (of_char c div 16), upper_hex (of_char c mod 16)]"

text \<open>\<^verbatim>\<open>url.QueryEscape\<close> and \<^verbatim>\<open>url.PathEscape\<close>.\<close>

definition QueryEscape :: "string \<Rightarrow> string" where
  "QueryEscape s = concat (map (\<lambda>c. if url_unreserved c then [c] else if c = CHR '' '' then ''+'' else percent c) s)"

definition PathEscape :: "string \<Rightarrow> string" where
  "PathEscape s = concat (map (\<lambda>c. if url_unreserved c \<or> c \<in> set ''$&+=:@'' then [c] else percent c) s)"

lemma upper_hex_unreserved: "n < 16 \<Longrightarrow> url_unreserved (upper_hex n)"
  by (auto simp: url_unreserved_def upper_hex_def of_char_of)

lemma percent_chars: "x \<in> set (percent c) \<Longrightarrow> x = CHR ''%'' \<or> url_unreserved x"
proof -
  have "of_char c div (16::nat) < 16" using nat_of_char_less_256 [of c] by (simp add: less_mult_imp_div_less)
  then show "x \<in> set (percent c) \<Longrightarrow> x = CHR ''%'' \<or> url_unreserved x"
    by (auto simp: percent_def intro: upper_hex_unreserved)
qed

lemma QueryEscape_chars: "x \<in> set (QueryEscape s) \<Longrightarrow> url_unreserved x \<or> x \<in> set ''+%''"
  by (auto simp: QueryEscape_def split: if_splits dest: percent_chars)

lemma PathEscape_chars: "x \<in> set (PathEscape s) \<Longrightarrow> url_unreserved x \<or> x \<in> set ''$&+=:@%''"
  by (auto simp: PathEscape_def split: if_splits dest: percent_chars)

end
