(* ===== verification/Go_Json.thy ===== *)
theory Go_Json
  imports Go_Strings
begin

text \<open>
  JSON documents as package \<^verbatim>\<open>encoding/json\<close> sees them once the text is read: a tree. A
  struct of the program is written with one encoder and read with one decoder per type,
  built from the functions below; they follow the package's rules for absent keys (the
  field keeps its value), \<^verbatim>\<open>null\<close> (no effect), keys in another letter case (accepted),
  repeated keys (the last one wins), unknown keys (ignored) and values of the wrong type
  (the decoding fails).

  A \<^verbatim>\<open>time.Time\<close> is written as a string in RFC 3339 form. \<open>JTime t\<close> stands for that
  string; its text is \<open>rfc3339 t\<close>. Writing fails outside the years 0 to 9999. Strings are
  valid UTF-8, as every string is that was itself read from JSON or the command line.
\<close>

datatype json =
    JNull
  | JBool bool
  | JNum int
  | JFrac \<comment> \<open>a number that is no integer\<close>
  | JTime time
  | JStr string
  | JList "json list"
  | JObj "(string \<times> json) list"

section \<open>Timestamps\<close>

definition year_lengths :: "bool \<Rightarrow> int list" where
  "year_lengths leap = [31, if leap then 29 else 28, 31, 30, 31, 30, 31, 31, 30, 31, 30, 31]"

fun month_day :: "int list \<Rightarrow> int \<Rightarrow> int \<Rightarrow> int \<times> int" where
  "month_day [] m d = (m, d)"
| "month_day (l # ls) m d = (if d < l then (m, d + 1) else month_day ls (m + 1) (d - l))"

text \<open>Year, month and day of the day \<open>d\<close>, counted from 1 January of the year 1.\<close>

definition civil :: "int \<Rightarrow> int \<times> int \<times> int" where
  "civil d =
     (let n400 = d div 146097; r400 = d mod 146097;
          n100 = min 3 (r400 div 36524); r100 = r400 - n100 * 36524;
          n4 = r100 div 1461; r4 = r100 mod 1461;
          n1 = min 3 (r4 div 365); r1 = r4 - n1 * 365;
          y = 400 * n400 + 100 * n100 + 4 * n4 + n1 + 1;
          (m, k) = month_day (year_lengths (y mod 4 = 0 \<and> (y mod 100 \<noteq> 0 \<or> y mod 400 = 0))) 1 r1
      in (y, m, k))"

definition pad :: "nat \<Rightarrow> int \<Rightarrow> string" where
  "pad k n = (let s = Itoa n in replicate (k - length s) CHR ''0'' @ s)"

definition rfc3339_fraction :: "int \<Rightarrow> string" where
  "rfc3339_fraction ns = (if ns = 0 then [] else CHR ''.'' # trim_right ''0'' (pad 9 ns))"

definition rfc3339 :: "time \<Rightarrow> string" where
  "rfc3339 t =
     (let secs = t div second; (y, m, d) = civil (secs div 86400); r = secs mod 86400 in
      pad 4 y @ ''-'' @ pad 2 m @ ''-'' @ pad 2 d @ ''T'' @
      pad 2 (r div 3600) @ '':'' @ pad 2 (r mod 3600 div 60) @ '':'' @ pad 2 (r mod 60) @
      rfc3339_fraction (t mod second) @ ''Z'')"

text \<open>\<^verbatim>\<open>Duration.Round(time.Second)\<close>: to the nearest second, half away from zero, saturating.\<close>

definition round_second :: "duration \<Rightarrow> duration" where
  "round_second d =
     (let r = \<bar>d\<bar> mod second; m = (if 2 * r < second then \<bar>d\<bar> - r else \<bar>d\<bar> + second - r)
      in sat64 (sgn d * m))"

text \<open>\<^verbatim>\<open>Duration.String\<close>, as in 1h2m3.5s.\<close>

definition duration_fraction :: "nat \<Rightarrow> int \<Rightarrow> string" where
  "duration_fraction prec u =
     (let f = u mod 10 ^ prec in if f = 0 then [] else CHR ''.'' # trim_right ''0'' (pad prec f))"

definition duration_String :: "duration \<Rightarrow> string" where
  "duration_String d =
     (let u = \<bar>d\<bar>; secs = u div second;
          body =
            (if u = 0 then ''0s''
             else if u < 1000 then Itoa u @ ''ns''
             else if u < 1000000 then Itoa (u div 1000) @ duration_fraction 3 u @ [CHR 0xC2, CHR 0xB5, CHR ''s'']
             else if u < second then Itoa (u div 1000000) @ duration_fraction 6 u @ ''ms''
             else (if secs div 3600 > 0 then Itoa (secs div 3600) @ ''h'' else []) @
                  (if secs div 60 > 0 then Itoa (secs div 60 mod 60) @ ''m'' else []) @
                  Itoa (secs mod 60) @ duration_fraction 9 u @ ''s'')
      in (if d < 0 then CHR ''-'' # body else body))"

lemma rfc3339_zero: "rfc3339 0 = ''0001-01-01T00:00:00Z''"
  by code_simp

text \<open>The instants \<^verbatim>\<open>Time.MarshalJSON\<close> accepts: years 0 to 9999.\<close>

definition json_time_ok :: "time \<Rightarrow> bool" where
  "json_time_ok t \<longleftrightarrow> - 366 * 86400 * second \<le> t \<and> t < 3652059 * 86400 * second"

lemma json_time_ok_0 [simp]: "json_time_ok 0"
  by (simp add: json_time_ok_def)

section \<open>Reading\<close>

fun dec_string :: "json \<Rightarrow> string option" where
  "dec_string (JStr s) = Some s"
| "dec_string (JTime t) = Some (rfc3339 t)"
| "dec_string _ = None"

fun dec_bool :: "json \<Rightarrow> bool option" where
  "dec_bool (JBool b) = Some b"
| "dec_bool _ = None"

text \<open>Integers of 64 bits: a number that does not fit is an error.\<close>

fun dec_int :: "json \<Rightarrow> int option" where
  "dec_int (JNum n) = (if in64 n then Some n else None)"
| "dec_int _ = None"

fun dec_time :: "json \<Rightarrow> time option" where
  "dec_time (JTime t) = Some t"
| "dec_time _ = None"

text \<open>A slice; \<^verbatim>\<open>null\<close> elements keep the element's zero value.\<close>

fun dec_elems :: "(json \<Rightarrow> 'a option) \<Rightarrow> 'a \<Rightarrow> json list \<Rightarrow> 'a list option" where
  "dec_elems dec z [] = Some []"
| "dec_elems dec z (j # js) =
     (case (if j = JNull then Some z else dec j) of
        None \<Rightarrow> None
      | Some x \<Rightarrow> (case dec_elems dec z js of None \<Rightarrow> None | Some xs \<Rightarrow> Some (x # xs)))"

fun dec_list :: "(json \<Rightarrow> 'a option) \<Rightarrow> 'a \<Rightarrow> json \<Rightarrow> 'a list option" where
  "dec_list dec z (JList js) = dec_elems dec z js"
| "dec_list dec z _ = None"

text \<open>
  One field of a struct: every member with the field's name is read in turn into the
  value the field has so far.
\<close>

fun obj_get :: "(json \<Rightarrow> 'a option) \<Rightarrow> string \<Rightarrow> 'a \<Rightarrow> (string \<times> json) list \<Rightarrow> 'a option" where
  "obj_get dec key cur [] = Some cur"
| "obj_get dec key cur ((k, v) # kvs) =
     (if EqualFold k key \<and> v \<noteq> JNull
      then (case dec v of None \<Rightarrow> None | Some x \<Rightarrow> obj_get dec key x kvs)
      else obj_get dec key cur kvs)"

lemma obj_get_absent [simp]:
  "(\<forall>(k, v) \<in> set kvs. \<not> EqualFold k key) \<Longrightarrow> obj_get dec key cur kvs = Some cur"
  by (induction kvs) auto

text \<open>An object whose keys are lower case and distinct is a map.\<close>

definition lower_keys :: "(string \<times> json) list \<Rightarrow> bool" where
  "lower_keys kvs \<longleftrightarrow> distinct (map fst kvs) \<and> list_all lower_text (map fst kvs)"

lemma obj_get_map_of:
  assumes "lower_keys kvs" and "lower_text key"
  shows "obj_get dec key cur kvs =
    (case map_of kvs key of None \<Rightarrow> Some cur | Some v \<Rightarrow> if v = JNull then Some cur else dec v)"
  using assms(1)
proof (induction kvs)
  case (Cons kv kvs)
  obtain k v where kv: "kv = (k, v)" by (cases kv)
  have eq: "EqualFold k key \<longleftrightarrow> k = key"
    using Cons.prems assms(2) kv by (simp add: lower_keys_def EqualFold_lower)
  have IH: "obj_get dec key cur kvs = (case map_of kvs key of None \<Rightarrow> Some cur | Some v \<Rightarrow> if v = JNull then Some cur else dec v)"
    using Cons by (simp add: lower_keys_def)
  have absent: "obj_get dec key x kvs = Some x" if "k = key" for x
  proof -
    have "\<not> EqualFold k' key" if "(k', v') \<in> set kvs" for k' v'
    proof -
      have "k' \<in> fst ` set kvs" using that by force
      then have "lower_text k'" and "k' \<noteq> key"
        using Cons.prems kv \<open>k = key\<close> by (auto simp: lower_keys_def list_all_iff)
      with assms(2) show ?thesis by (simp add: EqualFold_lower)
    qed
    then show ?thesis by (intro obj_get_absent) auto
  qed
  show ?case
  proof (cases "k = key")
    case True
    then have "map_of kvs key = None" using Cons.prems kv by (auto simp: lower_keys_def map_of_eq_None_iff)
    with True kv IH absent show ?thesis by (auto simp: eq split: option.splits)
  next
    case False
    with kv IH show ?thesis by (simp add: eq)
  qed
qed simp

text \<open>The members of an object; \<^verbatim>\<open>null\<close> is accepted as an object with no members.\<close>

fun json_members :: "json \<Rightarrow> (string \<times> json) list option" where
  "json_members (JObj kvs) = Some kvs"
| "json_members JNull = Some []"
| "json_members _ = None"

lemma dec_elems_map:
  assumes "\<And>x. x \<in> set xs \<Longrightarrow> dec (enc x) = Some x" and "\<And>x. x \<in> set xs \<Longrightarrow> enc x \<noteq> JNull"
  shows "dec_elems dec z (map enc xs) = Some xs"
  using assms by (induction xs) auto

section \<open>Writing\<close>

definition enc_time :: "time \<Rightarrow> json option" where
  "enc_time t = (if json_time_ok t then Some (JTime t) else None)"

definition marshal_time_error :: goerr where
  "marshal_time_error = errors_New ''json: error calling MarshalJSON for type time.Time: Time.MarshalJSON: year outside of range [0,9999]''"

text \<open>A member that \<^verbatim>\<open>omitempty\<close> leaves out.\<close>

definition omit_if :: "bool \<Rightarrow> (string \<times> json) \<Rightarrow> (string \<times> json) list" where
  "omit_if b kv = (if b then [] else [kv])"

lemma omit_if_simps [simp]: "omit_if True kv = []" "omit_if False kv = [kv]"
  by (simp_all add: omit_if_def)

text \<open>
  A typed document: an encoder and a decoder that reads back what was written, for the
  values \<open>ok\<close> describes. The stores of the program (registration lifetimes, pending
  port forward, token cache) rest on this contract.
\<close>

locale json_type =
  fixes enc :: "'a \<Rightarrow> json option"
    and dec :: "json \<Rightarrow> 'a option"
    and ok :: "'a \<Rightarrow> bool"
  assumes enc_total: "ok x \<Longrightarrow> \<exists>j. enc x = Some j"
    and dec_enc: "ok x \<Longrightarrow> enc x = Some j \<Longrightarrow> dec j = Some x"
begin

lemma enc_inject: "ok x \<Longrightarrow> ok y \<Longrightarrow> enc x = enc y \<Longrightarrow> x = y"
  using enc_total [of x] dec_enc [of x] dec_enc [of y] by force

end

end
