(* ===== verification/World.thy ===== *)
theory World
  imports Go_Json
begin

text \<open>
  The world a process runs in, as explicit state: a clock, a file system, environment
  variables, and for everything that is decided outside the program a stream of answers.
  Each system call, HTTP request, command, dial, random number and clock reading takes
  the next answer of its stream, so a theorem about all worlds is a theorem about every
  behaviour of the environment. Every effect is also appended to a trace; the file system
  is what the trace makes of the initial one.

  The text of a file is kept as bytes (\<open>Text\<close>) or, for a JSON document, as its tree
  (\<open>Doc\<close>); directories are implicit. Reading JSON from bytes is \<open>w_json\<close>.

  On top of the system calls: \<^verbatim>\<open>filepath.Join\<close> and \<^verbatim>\<open>filepath.Dir\<close> for Unix paths, and
  \<open>atomicWriteFile\<close> of main.go with its twin \<open>atomicWriteState\<close> of pia/lifetime.go,
  which the locale \<open>atomic_writer\<close> specifies: all or nothing, at every crash point.
\<close>

section \<open>State\<close>

datatype content = Text string | Doc json

record os_file =
  f_content :: content
  f_perm :: nat
  f_mtime :: time

type_synonym fs = "string \<Rightarrow> os_file option"

text \<open>
  How an HTTP client reaches its server: the default transport, a Unix socket, a transport
  that resolves one name to one address and trusts one root certificate, and one that does
  not verify certificates.
\<close>

datatype transport =
    DefaultTransport
  | UnixSocket string
  | PinnedServer string string string \<comment> \<open>name, address, root certificate\<close>
  | NoVerify

record http_client =
  hc_transport :: transport
  hc_timeout :: duration

record http_request =
  hq_method :: string
  hq_url :: string
  hq_auth :: "(string \<times> string) option" \<comment> \<open>HTTP basic authentication\<close>

datatype effect =
    EvCreate string time
  | EvFill string content time
  | EvChmod string nat
  | EvRename string string
  | EvRemove string
  | EvHttp http_client http_request
  | EvExec "string list" "string list option" \<comment> \<open>arguments, and the environment if not inherited\<close>
  | EvDial string
  | EvSleep duration
  | EvPrint content \<comment> \<open>to the standard output\<close>

record http_response =
  hr_code :: int
  hr_status :: string
  hr_body :: string
  hr_body_err :: "goerr option"

record exec_result =
  ex_stdout :: string
  ex_stderr :: string
  ex_chunks :: "string list" \<comment> \<open>the writes to a shared output and error stream, in order\<close>
  ex_err :: "goerr option"
  ex_timeout :: "goerr option"

record world =
  w_clock :: time
  w_ticks :: "int stream"
  w_files :: fs
  w_calls :: "string option stream" \<comment> \<open>system calls: \<open>None\<close> succeeds, \<open>Some m\<close> fails\<close>
  w_temps :: "nat stream" \<comment> \<open>random suffixes of temporary files\<close>
  w_http :: "(goerr + http_response) stream"
  w_exec :: "exec_result stream"
  w_dials :: "goerr option stream"
  w_random :: "nat option stream"
  w_keys :: "(goerr + string \<times> string) stream" \<comment> \<open>fresh WireGuard key pairs\<close>
  w_orders :: "string list stream" \<comment> \<open>the order in which a range over a map visits its keys\<close>
  w_environ :: "(string \<times> string) list"
  w_lookpath :: "string \<Rightarrow> goerr + string"
  w_executable :: "goerr + string"
  w_getwd :: "goerr + string"
  w_json :: "string \<Rightarrow> json option" \<comment> \<open>the tree of a JSON text\<close>
  w_json_first :: "string \<Rightarrow> json option" \<comment> \<open>the tree of the first value of a text\<close>
  w_url_error :: "string \<Rightarrow> goerr option" \<comment> \<open>what parsing a URL reports\<close>
  w_trace :: "effect list"

fun apply_effect :: "effect \<Rightarrow> fs \<Rightarrow> fs" where
  "apply_effect (EvCreate p t) fs = fs(p \<mapsto> \<lparr>f_content = Text [], f_perm = 384, f_mtime = t\<rparr>)"
| "apply_effect (EvFill p c t) fs =
     (case fs p of None \<Rightarrow> fs | Some f \<Rightarrow> fs(p \<mapsto> f\<lparr>f_content := c, f_mtime := t\<rparr>))"
| "apply_effect (EvChmod p m) fs =
     (case fs p of None \<Rightarrow> fs | Some f \<Rightarrow> fs(p \<mapsto> f\<lparr>f_perm := m\<rparr>))"
| "apply_effect (EvRename p q) fs =
     (case fs p of None \<Rightarrow> fs | Some f \<Rightarrow> (fs(p := None))(q \<mapsto> f))"
| "apply_effect (EvRemove p) fs = fs(p := None)"
| "apply_effect _ fs = fs"

definition replay :: "effect list \<Rightarrow> fs \<Rightarrow> fs" where
  "replay es fs = fold apply_effect es fs"

lemma replay_simps [simp]:
  "replay [] fs = fs"
  "replay (e # es) fs = replay es (apply_effect e fs)"
  "replay (es @ es') fs = replay es' (replay es fs)"
  by (simp_all add: replay_def)

definition emit :: "effect \<Rightarrow> world \<Rightarrow> world" where
  "emit e w = w\<lparr>w_files := apply_effect e (w_files w), w_trace := w_trace w @ [e]\<rparr>"

section \<open>The calls\<close>

text \<open>\<^verbatim>\<open>time.Now()\<close>: the clock has moved by the next tick.\<close>

definition time_Now :: "world \<Rightarrow> time \<times> world" where
  "time_Now w = (w_clock w + shd (w_ticks w),
                 w\<lparr>w_clock := w_clock w + shd (w_ticks w), w_ticks := stl (w_ticks w)\<rparr>)"

definition time_Sleep :: "duration \<Rightarrow> world \<Rightarrow> world" where
  "time_Sleep d w = (emit (EvSleep d) w)\<lparr>w_clock := w_clock w + max 0 d\<rparr>"

definition syscall :: "world \<Rightarrow> unit res \<times> world" where
  "syscall w =
     ((case shd (w_calls w) of None \<Rightarrow> Ok () | Some m \<Rightarrow> Err (errors_New m)),
      w\<lparr>w_calls := stl (w_calls w)\<rparr>)"

definition not_exist :: "string \<Rightarrow> goerr" where
  "not_exist p = \<lparr>emsg = ''open '' @ p @ '': no such file or directory'', chain = [ErrNotExist]\<rparr>"

definition ReadFile :: "string \<Rightarrow> world \<Rightarrow> content res \<times> world" where
  "ReadFile p w =
     io_try (syscall w) (\<lambda>_ w.
       case w_files w p of None \<Rightarrow> (Err (not_exist p), w) | Some f \<Rightarrow> (Ok (f_content f), w))"

definition Stat :: "string \<Rightarrow> world \<Rightarrow> os_file res \<times> world" where
  "Stat p w =
     io_try (syscall w) (\<lambda>_ w.
       case w_files w p of None \<Rightarrow> (Err (not_exist p), w) | Some f \<Rightarrow> (Ok f, w))"

definition Remove :: "string \<Rightarrow> world \<Rightarrow> unit res \<times> world" where
  "Remove p w =
     io_try (syscall w) (\<lambda>_ w.
       if w_files w p = None then (Err (not_exist p), w) else (Ok (), emit (EvRemove p) w))"

definition MkdirAll :: "string \<Rightarrow> world \<Rightarrow> unit res \<times> world" where
  "MkdirAll d w = syscall w"

definition temp_name :: "string \<Rightarrow> string \<Rightarrow> string \<Rightarrow> nat \<Rightarrow> string" where
  "temp_name dir pre suf n = (if dir = ''/'' then dir else dir @ ''/'') @ pre @ digits n @ suf"

text \<open>
  \<^verbatim>\<open>os.CreateTemp\<close> opens a name that does not exist yet, trying random ones up to ten
  thousand times.
\<close>

fun create_temp :: "nat \<Rightarrow> string \<Rightarrow> string \<Rightarrow> string \<Rightarrow> world \<Rightarrow> string res \<times> world" where
  "create_temp n dir pre suf w =
     (if n = 0 then (Err (errors_New ''createtemp: file exists''), w)
      else let p = temp_name dir pre suf (shd (w_temps w)); w = w\<lparr>w_temps := stl (w_temps w)\<rparr> in
           case syscall w of
             (Ok _, w) \<Rightarrow> if w_files w p \<noteq> None then create_temp (n - 1) dir pre suf w
                          else (Ok p, emit (EvCreate p (w_clock w)) w)
           | (Err e, w) \<Rightarrow> (Err e, w)
           | (Panic s, w) \<Rightarrow> (Panic s, w))"

declare create_temp.simps [simp del]

definition CreateTemp :: "string \<Rightarrow> string \<Rightarrow> string \<Rightarrow> world \<Rightarrow> string res \<times> world" where
  "CreateTemp dir pre suf w = create_temp 10000 dir pre suf w"

definition tmp_Write :: "string \<Rightarrow> content \<Rightarrow> world \<Rightarrow> unit res \<times> world" where
  "tmp_Write p c w = io_try (syscall w) (\<lambda>_ w. (Ok (), emit (EvFill p c (w_clock w)) w))"

definition tmp_Chmod :: "string \<Rightarrow> nat \<Rightarrow> world \<Rightarrow> unit res \<times> world" where
  "tmp_Chmod p m w = io_try (syscall w) (\<lambda>_ w. (Ok (), emit (EvChmod p m) w))"

definition tmp_Close :: "world \<Rightarrow> unit res \<times> world" where
  "tmp_Close w = syscall w"

definition Rename :: "string \<Rightarrow> string \<Rightarrow> world \<Rightarrow> unit res \<times> world" where
  "Rename p q w = io_try (syscall w) (\<lambda>_ w. (Ok (), emit (EvRename p q) w))"

definition http_Do :: "http_client \<Rightarrow> http_request \<Rightarrow> world \<Rightarrow> http_response res \<times> world" where
  "http_Do client req w =
     ((case shd (w_http w) of Inl e \<Rightarrow> Err e | Inr r \<Rightarrow> Ok r),
      emit (EvHttp client req) (w\<lparr>w_http := stl (w_http w)\<rparr>))"

definition http_NewRequest :: "string \<Rightarrow> string \<Rightarrow> world \<Rightarrow> http_request res" where
  "http_NewRequest meth url w =
     (case w_url_error w url of
        Some e \<Rightarrow> Err e
      | None \<Rightarrow> Ok \<lparr>hq_method = meth, hq_url = url, hq_auth = None\<rparr>)"

text \<open>\<^verbatim>\<open>client.Get(url)\<close>.\<close>

definition http_Get :: "http_client \<Rightarrow> string \<Rightarrow> world \<Rightarrow> http_response res \<times> world" where
  "http_Get client url w = io_try (http_NewRequest ''GET'' url w, w) (http_Do client)"

text \<open>\<^verbatim>\<open>io.ReadAll(resp.Body)\<close>: the bytes read, and the error that ended the reading.\<close>

definition body_ReadAll :: "http_response \<Rightarrow> string res" where
  "body_ReadAll r = (case hr_body_err r of None \<Rightarrow> Ok (hr_body r) | Some e \<Rightarrow> Err e)"

text \<open>
  \<^verbatim>\<open>json.NewDecoder(resp.Body).Decode(out)\<close> reads the first value of the body and ignores
  what follows; \<open>dec\<close> is the decoder of the type of \<^verbatim>\<open>out\<close>.
\<close>

definition body_Decode :: "(json \<Rightarrow> 'a option) \<Rightarrow> http_response \<Rightarrow> world \<Rightarrow> 'a res" where
  "body_Decode dec r w =
     (case w_json_first w (hr_body r) of
        None \<Rightarrow> Err (case hr_body_err r of Some e \<Rightarrow> e | None \<Rightarrow> errors_New ''invalid JSON'')
      | Some j \<Rightarrow> (case dec j of
          None \<Rightarrow> Err (errors_New ''json: cannot unmarshal'')
        | Some x \<Rightarrow> Ok x))"

text \<open>\<^verbatim>\<open>json.Unmarshal\<close> of what a file holds.\<close>

definition json_of :: "content \<Rightarrow> world \<Rightarrow> json option" where
  "json_of c w = (case c of Doc j \<Rightarrow> Some j | Text s \<Rightarrow> w_json w s)"

definition exec_Run :: "string list \<Rightarrow> string list option \<Rightarrow> world \<Rightarrow> exec_result \<times> world" where
  "exec_Run argv env w = (shd (w_exec w), emit (EvExec argv env) (w\<lparr>w_exec := stl (w_exec w)\<rparr>))"

definition net_Dial :: "string \<Rightarrow> world \<Rightarrow> goerr option \<times> world" where
  "net_Dial addr w = (shd (w_dials w), emit (EvDial addr) (w\<lparr>w_dials := stl (w_dials w)\<rparr>))"

text \<open>\<^verbatim>\<open>rand.Int(rand.Reader, max)\<close>: a number below \<open>max\<close>, or an error.\<close>

definition rand_Int :: "int \<Rightarrow> world \<Rightarrow> int option \<times> world" where
  "rand_Int m w =
     (map_option (\<lambda>n. int n mod m) (shd (w_random w)), w\<lparr>w_random := stl (w_random w)\<rparr>)"

text \<open>\<^verbatim>\<open>wgtypes.GeneratePrivateKey\<close> with \<^verbatim>\<open>PublicKey\<close>: a fresh key pair, in base64.\<close>

definition wg_GenerateKey :: "world \<Rightarrow> (string \<times> string) res \<times> world" where
  "wg_GenerateKey w =
     ((case shd (w_keys w) of Inl e \<Rightarrow> Err e | Inr ks \<Rightarrow> Ok ks), w\<lparr>w_keys := stl (w_keys w)\<rparr>)"

definition stdout_Write :: "content \<Rightarrow> world \<Rightarrow> unit res \<times> world" where
  "stdout_Write c w = io_try (syscall w) (\<lambda>_ w. (Ok (), emit (EvPrint c) w))"

definition Getenv :: "string \<Rightarrow> world \<Rightarrow> string" where
  "Getenv k w = (case map_of (w_environ w) k of None \<Rightarrow> [] | Some v \<Rightarrow> v)"

section \<open>Paths\<close>

fun clean_parts :: "bool \<Rightarrow> string list \<Rightarrow> string list \<Rightarrow> string list" where
  "clean_parts rooted stk [] = rev stk"
| "clean_parts rooted stk (p # ps) =
     (if p = [] \<or> p = ''.'' then clean_parts rooted stk ps
      else if p = ''..'' then
        (case stk of
           [] \<Rightarrow> clean_parts rooted (if rooted then [] else [p]) ps
         | q # qs \<Rightarrow> clean_parts rooted (if q = ''..'' then p # stk else qs) ps)
      else clean_parts rooted (p # stk) ps)"

fun join_parts :: "string list \<Rightarrow> string" where
  "join_parts [] = []"
| "join_parts [p] = p"
| "join_parts (p # q # ps) = p @ ''/'' @ join_parts (q # ps)"

definition path_Clean :: "string \<Rightarrow> string" where
  "path_Clean s =
     (if s = [] then ''.''
      else let rooted = (hd s = CHR ''/''); b = join_parts (clean_parts rooted [] (split_on CHR ''/'' s))
           in if rooted then CHR ''/'' # b else if b = [] then ''.'' else b)"

definition path_Join :: "string \<Rightarrow> string \<Rightarrow> string" where
  "path_Join d name =
     (if d = [] \<and> name = [] then [] else if d = [] then path_Clean name
      else if name = [] then path_Clean d else path_Clean (d @ ''/'' @ name))"

definition path_base :: "string \<Rightarrow> string" where
  "path_base p = rev (takeWhile (\<lambda>c. c \<noteq> CHR ''/'') (rev p))"

definition path_Dir :: "string \<Rightarrow> string" where
  "path_Dir p = path_Clean (take (length p - length (path_base p)) p)"

text \<open>A plain file name: one component that is neither \<^verbatim>\<open>.\<close> nor \<^verbatim>\<open>..\<close>.\<close>

definition plain_name :: "string \<Rightarrow> bool" where
  "plain_name n \<longleftrightarrow> n \<noteq> [] \<and> n \<noteq> ''.'' \<and> n \<noteq> ''..'' \<and> CHR ''/'' \<notin> set n"

lemma clean_parts_snoc:
  "plain_name n \<Longrightarrow> clean_parts r stk (ps @ [n]) = clean_parts r stk ps @ [n]"
  by (induction r stk ps rule: clean_parts.induct) (auto simp: plain_name_def split: list.splits)

lemma join_parts_snoc:
  "join_parts (ps @ [n]) = (if ps = [] then n else join_parts ps @ ''/'' @ n)"
  by (induction ps rule: join_parts.induct) auto

lemma split_on_snoc: "c \<notin> set b \<Longrightarrow> split_on c (a @ c # b) = split_on c a @ [b]"
  by (induction a) (auto simp: split_on_absent split: list.splits)

lemma path_base_plain: "CHR ''/'' \<notin> set n \<Longrightarrow> path_base n = n"
proof -
  assume "CHR ''/'' \<notin> set n"
  then have "takeWhile (\<lambda>c. c \<noteq> CHR ''/'') (rev n) = rev n"
    by (intro takeWhile_eq_all_conv [THEN iffD2]) auto
  then show ?thesis by (simp only: path_base_def rev_rev_ident)
qed

lemma path_base_append: "CHR ''/'' \<notin> set n \<Longrightarrow> path_base (d @ CHR ''/'' # n) = n"
  by (simp add: path_base_def takeWhile_append)

text \<open>Cleaning keeps a plain last component.\<close>

lemma path_Clean_snoc:
  assumes "plain_name n" and "d \<noteq> []"
  shows "\<exists>x. path_Clean (d @ CHR ''/'' # n) = n \<or> path_Clean (d @ CHR ''/'' # n) = x @ CHR ''/'' # n"
proof -
  define ps where "ps = clean_parts (hd d = CHR ''/'') [] (split_on CHR ''/'' d)"
  have n: "CHR ''/'' \<notin> set n" "n \<noteq> []" using assms(1) by (auto simp: plain_name_def)
  have body: "join_parts (clean_parts (hd d = CHR ''/'') [] (split_on CHR ''/'' (d @ CHR ''/'' # n)))
      = (if ps = [] then n else join_parts ps @ CHR ''/'' # n)" (is "?b = _")
    by (simp add: split_on_snoc [OF n(1)] clean_parts_snoc [OF assms(1)] join_parts_snoc ps_def)
  have "path_Clean (d @ CHR ''/'' # n) = (if hd d = CHR ''/'' then CHR ''/'' # ?b else ?b)"
    using assms(2) n(2) body
    by (cases "hd d = CHR ''/''") (simp_all add: path_Clean_def Let_def split: if_splits)
  then have "path_Clean (d @ CHR ''/'' # n) \<in>
      {n, [] @ CHR ''/'' # n, join_parts ps @ CHR ''/'' # n, (CHR ''/'' # join_parts ps) @ CHR ''/'' # n}"
    unfolding body by auto
  then show ?thesis by blast
qed

lemma path_base_Join [simp]:
  assumes "plain_name n"
  shows "path_base (path_Join d n) = n"
proof -
  have n: "CHR ''/'' \<notin> set n" "n \<noteq> []" using assms by (auto simp: plain_name_def)
  show ?thesis
  proof (cases "d = []")
    case True
    moreover have "hd n \<noteq> CHR ''/''" using n by (cases n) auto
    moreover have "clean_parts False [] [n] = [n]"
      using clean_parts_snoc [OF assms, of False "[]" "[]"] by simp
    ultimately show ?thesis
      using n by (simp add: path_Join_def path_Clean_def split_on_absent path_base_plain)
  next
    case False
    then have j: "path_Join d n = path_Clean (d @ CHR ''/'' # n)"
      using n(2) by (simp add: path_Join_def)
    show ?thesis
      unfolding j using path_Clean_snoc [OF assms False] n(1)
      by (auto simp: path_base_append path_base_plain)
  qed
qed

lemma path_Join_inject:
  "plain_name m \<Longrightarrow> plain_name n \<Longrightarrow> path_Join d m = path_Join d n \<longleftrightarrow> m = n"
  using path_base_Join by metis

section \<open>Evolution of the world\<close>

definition static :: "world \<Rightarrow> _" where
  "static w = (w_environ w, w_lookpath w, w_executable w, w_getwd w, w_json w,
     w_json_first w, w_url_error w)"

text \<open>The clock a process sees does not run backwards, if its ticks are no steps back.\<close>

definition forward_clock :: "world \<Rightarrow> bool" where
  "forward_clock w \<longleftrightarrow> (\<forall>n. 0 \<le> w_ticks w !! n)"

definition clock_ahead :: "world \<Rightarrow> world \<Rightarrow> bool" where
  "clock_ahead w w' \<longleftrightarrow> (forward_clock w \<longrightarrow> forward_clock w' \<and> w_clock w \<le> w_clock w')"

lemma forward_clock_shd: "forward_clock w \<Longrightarrow> 0 \<le> shd (w_ticks w)"
  unfolding forward_clock_def by (metis snth.simps(1))

lemma forward_clock_stl: "forward_clock w \<Longrightarrow> forward_clock (w\<lparr>w_clock := t, w_ticks := stl (w_ticks w)\<rparr>)"
  unfolding forward_clock_def by (simp add: snth.simps(2) [symmetric] del: snth.simps)

lemma clock_ahead_same [simp]:
  "w_clock w \<le> w_clock w' \<Longrightarrow> w_ticks w' = w_ticks w \<Longrightarrow> clock_ahead w w'"
  by (simp add: clock_ahead_def forward_clock_def)

lemma clock_ahead_trans: "clock_ahead u v \<Longrightarrow> clock_ahead v w \<Longrightarrow> clock_ahead u w"
  by (auto simp: clock_ahead_def)

lemma clock_ahead_Now: "clock_ahead w (snd (time_Now w))"
  using forward_clock_stl forward_clock_shd by (auto simp: clock_ahead_def time_Now_def)

text \<open>The effects \<open>es\<close> lead from one world to another; answers may be used up on the way.\<close>

definition emits :: "effect list \<Rightarrow> world \<Rightarrow> world \<Rightarrow> bool" where
  "emits es w w' \<longleftrightarrow>
     static w' = static w \<and> clock_ahead w w' \<and>
     w_trace w' = w_trace w @ es \<and> w_files w' = replay es (w_files w)"

definition evolves :: "world \<Rightarrow> world \<Rightarrow> bool" where
  "evolves w w' \<longleftrightarrow> (\<exists>es. emits es w w')"

abbreviation quiet :: "world \<Rightarrow> world \<Rightarrow> bool" where
  "quiet \<equiv> emits []"

lemma emits_append [trans]: "emits es u v \<Longrightarrow> emits es' v w \<Longrightarrow> emits (es @ es') u w"
  by (auto simp: emits_def intro: clock_ahead_trans)

lemma quiet_refl [simp, intro]: "quiet w w"
  by (simp add: emits_def)

lemma quiet_trans [trans]: "quiet u v \<Longrightarrow> quiet v w \<Longrightarrow> quiet u w"
  by (auto simp: emits_def intro: clock_ahead_trans)

lemma quiet_then [trans]: "quiet u v \<Longrightarrow> emits es v w \<Longrightarrow> emits es u w"
  by (auto simp: emits_def intro: clock_ahead_trans)

lemma then_quiet [trans]: "emits es u v \<Longrightarrow> quiet v w \<Longrightarrow> emits es u w"
  by (auto simp: emits_def intro: clock_ahead_trans)

lemma emits_emit [simp, intro]: "emits [e] w (emit e w)"
  by (simp add: emits_def emit_def static_def)

lemma evolves_refl [simp, intro]: "evolves w w"
  by (auto simp: evolves_def)

lemma evolves_trans [trans]: "evolves u v \<Longrightarrow> evolves v w \<Longrightarrow> evolves u w"
  unfolding evolves_def using emits_append by blast

lemma emits_evolves: "emits es w w' \<Longrightarrow> evolves w w'"
  by (auto simp: evolves_def)

lemma time_Now_quiet [frame]: "quiet w (snd (time_Now w))"
  using clock_ahead_Now [of w] by (simp add: time_Now_def emits_def static_def)

lemma syscall_quiet [frame]: "quiet w (snd (syscall w))"
  by (simp add: syscall_def emits_def static_def)

lemma syscall_no_panic [simp]: "fst (syscall w) \<noteq> Panic s"
  by (simp add: syscall_def split: option.splits)

lemma wg_GenerateKey_quiet [frame]: "quiet w (snd (wg_GenerateKey w))"
  by (simp add: wg_GenerateKey_def emits_def static_def)

lemma wg_GenerateKey_no_panic [simp]: "fst (wg_GenerateKey w) \<noteq> Panic s"
  by (simp add: wg_GenerateKey_def split: sum.splits)

lemma rand_Int_quiet [frame]: "quiet w (snd (rand_Int m w))"
  by (simp add: rand_Int_def emits_def static_def)

lemma http_NewRequest_no_panic [simp]: "http_NewRequest meth url w \<noteq> Panic s"
  by (simp add: http_NewRequest_def split: option.splits)

lemma http_Do_no_panic [simp]: "fst (http_Do client req w) \<noteq> Panic s"
  by (simp add: http_Do_def split: sum.splits)

lemma http_Get_no_panic [simp]: "fst (http_Get client url w) \<noteq> Panic s"
  by (cases "http_NewRequest ''GET'' url w") (simp_all add: http_Get_def)

lemma body_no_panic [simp]: "body_ReadAll r \<noteq> Panic s" "body_Decode dec r w \<noteq> Panic s"
  by (auto simp: body_ReadAll_def body_Decode_def split: option.splits)

text \<open>Requests leave the file system alone.\<close>

fun net_effect :: "effect \<Rightarrow> bool" where
  "net_effect (EvHttp _ _) = True"
| "net_effect (EvExec _ _) = True"
| "net_effect (EvDial _) = True"
| "net_effect (EvSleep _) = True"
| "net_effect _ = False"

fun exec_effect :: "effect \<Rightarrow> bool" where
  "exec_effect (EvExec _ _) = True"
| "exec_effect _ = False"

lemma exec_effect_net: "exec_effect e \<Longrightarrow> net_effect e"
  by (cases e) simp_all

lemma replay_net: "list_all net_effect es \<Longrightarrow> replay es fs = fs"
proof (induction es)
  case (Cons e es)
  then show ?case by (cases e) simp_all
qed simp

text \<open>
  A run all of whose effects satisfy \<open>P\<close>; in particular one that only talks to the network,
  runs commands or sleeps.
\<close>

definition runs :: "(effect \<Rightarrow> bool) \<Rightarrow> world \<Rightarrow> world \<Rightarrow> bool" where
  "runs P w w' \<longleftrightarrow> (\<exists>es. list_all P es \<and> emits es w w')"

abbreviation net_run :: "world \<Rightarrow> world \<Rightarrow> bool" where
  "net_run \<equiv> runs net_effect"

lemma runs_refl [simp, intro]: "runs P w w"
  unfolding runs_def by (rule exI [of _ "[]"]) simp

lemma runs_trans [trans]: "runs P u v \<Longrightarrow> runs P v w \<Longrightarrow> runs P u w"
  unfolding runs_def using emits_append by (metis list_all_append)

lemma runs_mono: "runs P w w' \<Longrightarrow> (\<And>e. P e \<Longrightarrow> Q e) \<Longrightarrow> runs Q w w'"
  unfolding runs_def by (metis list_all_iff)

lemma evolves_clock: "evolves w w' \<Longrightarrow> clock_ahead w w'"
  by (auto simp: evolves_def emits_def)

lemma runs_evolves: "runs P w w' \<Longrightarrow> evolves w w'"
  by (auto simp: runs_def intro: emits_evolves)

lemma runsD: "runs P w w' \<Longrightarrow> static w' = static w"
  by (auto simp: runs_def emits_def)

lemma quiet_runs: "quiet w w' \<Longrightarrow> runs P w w'"
  unfolding runs_def by (rule exI [of _ "[]"]) simp

lemma emits_runs: "emits es w w' \<Longrightarrow> list_all P es \<Longrightarrow> runs P w w'"
  by (auto simp: runs_def)

lemma runs_io_try:
  assumes "runs P w (snd r)" and "\<And>x v. fst r = Ok x \<Longrightarrow> runs P v (snd (f x v))"
  shows "runs P w (snd (io_try r f))"
  using assms io_try_snd_cases [of r f] runs_trans by metis

text \<open>What a run appended to the trace.\<close>

lemma runs_trace: "runs P w w' \<Longrightarrow> w_trace w' = w_trace w @ es \<Longrightarrow> list_all P es"
  by (auto simp: runs_def emits_def)

lemma net_runD:
  assumes "net_run w w'"
  shows "w_files w' = w_files w" and "static w' = static w"
  using assms replay_net unfolding runs_def emits_def by auto

lemmas net_run_trans = runs_trans [of net_effect]
lemmas net_run_evolves = runs_evolves [of net_effect]
lemmas net_run_io_try = runs_io_try [of net_effect]
lemmas emits_net_run = emits_runs [of _ _ _ net_effect]

lemma http_Do_emits [frame]: "emits [EvHttp client req] w (snd (http_Do client req w))"
  by (simp add: http_Do_def emits_def emit_def static_def)

lemma exec_Run_emits [frame]: "emits [EvExec argv env] w (snd (exec_Run argv env w))"
  by (simp add: exec_Run_def emits_def emit_def static_def)

lemma net_Dial_emits [frame]: "emits [EvDial addr] w (snd (net_Dial addr w))"
  by (simp add: net_Dial_def emits_def emit_def static_def)

lemma time_Sleep_emits [frame]: "emits [EvSleep d] w (time_Sleep d w)"
  by (simp add: time_Sleep_def emits_def emit_def static_def)

lemma http_Do_net_run [frame]: "net_run w (snd (http_Do client req w))"
  by (rule emits_net_run [OF http_Do_emits]) simp

lemma exec_Run_net_run [frame]: "net_run w (snd (exec_Run argv env w))"
  by (rule emits_net_run [OF exec_Run_emits]) simp

lemma http_Get_net_run [frame]: "net_run w (snd (http_Get client url w))"
  unfolding http_Get_def by (rule net_run_io_try) (simp_all add: frame)

lemma ReadFile_quiet [frame]: "quiet w (snd (ReadFile p w))"
  unfolding ReadFile_def
  by (rule io_try_keeps) (auto simp: syscall_quiet split: option.splits)

lemma Stat_quiet [frame]: "quiet w (snd (Stat p w))"
  unfolding Stat_def
  by (rule io_try_keeps) (auto simp: syscall_quiet split: option.splits)

lemma ReadFile_eq:
  "ReadFile p w =
     ((case shd (w_calls w) of
         Some m \<Rightarrow> Err (errors_New m)
       | None \<Rightarrow> (case w_files w p of None \<Rightarrow> Err (not_exist p) | Some f \<Rightarrow> Ok (f_content f))),
      w\<lparr>w_calls := stl (w_calls w)\<rparr>)"
  by (simp add: ReadFile_def syscall_def split: option.splits)

lemma Stat_eq:
  "Stat p w =
     ((case shd (w_calls w) of
         Some m \<Rightarrow> Err (errors_New m)
       | None \<Rightarrow> (case w_files w p of None \<Rightarrow> Err (not_exist p) | Some f \<Rightarrow> Ok f)),
      w\<lparr>w_calls := stl (w_calls w)\<rparr>)"
  by (simp add: Stat_def syscall_def split: option.splits)

lemma not_exist_Is [simp]: "errors_Is (not_exist p) ErrNotExist"
  by (simp add: not_exist_def errors_Is_def)

text \<open>
  A calm world for examples: nothing fails, no time passes between clock readings, there
  are no files, and every HTTP request is answered by the same response.
\<close>

definition calm_response :: http_response where
  "calm_response = \<lparr>hr_code = 200, hr_status = ''200 OK'', hr_body = [], hr_body_err = None\<rparr>"

definition calm_exec :: exec_result where
  "calm_exec = \<lparr>ex_stdout = [], ex_stderr = [], ex_chunks = [], ex_err = None, ex_timeout = None\<rparr>"

definition calm_world :: "time \<Rightarrow> world" where
  "calm_world t = \<lparr>w_clock = t, w_ticks = sconst 0, w_files = Map.empty, w_calls = sconst None,
     w_temps = sconst 7, w_http = sconst (Inr calm_response), w_exec = sconst calm_exec,
     w_dials = sconst None, w_random = sconst (Some 0), w_keys = sconst (Inr (''priv'', ''pub'')),
     w_orders = sconst [''state_dir'', ''config'', ''forwarded_port'', ''port''], w_environ = [], w_lookpath = (\<lambda>p. Inr p), w_executable = Inr ''/app/pia-wg-config'',
     w_getwd = Inr ''/app'', w_json = (\<lambda>_. None), w_json_first = (\<lambda>_. None),
     w_url_error = (\<lambda>_. None), w_trace = []\<rparr>"

end
