(* ===== verification/Pia_Api.thy ===== *)
theory Pia_Api
  imports World
begin

text \<open>
  The data of pia/pia.go as the API sends it (server list, key registration), the decoders
  of its JSON, and the interface \<^verbatim>\<open>PIAWgClient\<close> the configuration generator calls. A value
  of the interface is a table of methods; the receiver is the state \<open>'c\<close> they thread.
\<close>

record Server =
  srv_Cn :: string
  srv_IP :: string

record region_entry =
  rg_ID :: string
  rg_Name :: string
  rg_Country :: string
  rg_AutoRegion :: bool
  rg_DNS :: string
  rg_PortForward :: bool
  rg_Geo :: bool
  rg_Meta :: "Server list"
  rg_Wg :: "Server list"

type_synonym PIAServerList = "region_entry list"

record RegionInfo =
  ri_ID :: string
  ri_Name :: string
  ri_Country :: string
  ri_AutoRegion :: bool
  ri_PortForward :: bool

record AddKeyResult =
  ak_Status :: string
  ak_ServerKey :: string
  ak_ServerPort :: int
  ak_ServerIP :: string
  ak_ServerVip :: string
  ak_Gateway :: string
  ak_PeerIP :: string
  ak_PeerPubkey :: string
  ak_DNSServers :: "string list"

definition zero_AddKeyResult :: AddKeyResult where
  "zero_AddKeyResult = \<lparr>ak_Status = [], ak_ServerKey = [], ak_ServerPort = 0, ak_ServerIP = [],
     ak_ServerVip = [], ak_Gateway = [], ak_PeerIP = [], ak_PeerPubkey = [], ak_DNSServers = []\<rparr>"

text \<open>The field of a struct type: a member of an object, read into the zero value.\<close>

definition field :: "(json \<Rightarrow> 'a option) \<Rightarrow> 'a \<Rightarrow> string \<Rightarrow> json \<Rightarrow> 'a option" where
  "field dec zero key j = Option.bind (json_members j) (obj_get dec key zero)"

definition dec_Server :: "json \<Rightarrow> Server option" where
  "dec_Server j =
     (case (field dec_string [] ''Cn'' j, field dec_string [] ''IP'' j) of
        (Some cn, Some ip) \<Rightarrow> Some \<lparr>srv_Cn = cn, srv_IP = ip\<rparr>
      | _ \<Rightarrow> None)"

definition zero_Server :: Server where "zero_Server = \<lparr>srv_Cn = [], srv_IP = []\<rparr>"

definition dec_servers :: "json \<Rightarrow> (Server list \<times> Server list) option" where
  "dec_servers j =
     (case (field (dec_list dec_Server zero_Server) [] ''meta'' j, field (dec_list dec_Server zero_Server) [] ''wg'' j) of
        (Some ms, Some ws) \<Rightarrow> Some (ms, ws)
      | _ \<Rightarrow> None)"

definition zero_region :: region_entry where
  "zero_region = \<lparr>rg_ID = [], rg_Name = [], rg_Country = [], rg_AutoRegion = False, rg_DNS = [],
     rg_PortForward = False, rg_Geo = False, rg_Meta = [], rg_Wg = []\<rparr>"

definition dec_region :: "json \<Rightarrow> region_entry option" where
  "dec_region j =
     (case (field dec_string [] ''id'' j, field dec_string [] ''name'' j, field dec_string [] ''country'' j,
            field dec_bool False ''auto_region'' j, field dec_string [] ''dns'' j,
            field dec_bool False ''port_forward'' j, field dec_bool False ''geo'' j,
            field dec_servers ([], []) ''servers'' j) of
        (Some i, Some n, Some c, Some a, Some d, Some pf, Some g, Some (ms, ws)) \<Rightarrow>
          Some \<lparr>rg_ID = i, rg_Name = n, rg_Country = c, rg_AutoRegion = a, rg_DNS = d,
            rg_PortForward = pf, rg_Geo = g, rg_Meta = ms, rg_Wg = ws\<rparr>
      | _ \<Rightarrow> None)"

definition dec_PIAServerList :: "json \<Rightarrow> PIAServerList option" where
  "dec_PIAServerList j = field (dec_list dec_region zero_region) [] ''regions'' j"

definition dec_AddKeyResult :: "json \<Rightarrow> AddKeyResult option" where
  "dec_AddKeyResult j =
     (case (field dec_string [] ''status'' j, field dec_string [] ''server_key'' j,
            field dec_int 0 ''server_port'' j, field dec_string [] ''server_ip'' j,
            field dec_string [] ''server_vip'' j, field dec_string [] ''gateway'' j,
            field dec_string [] ''peer_ip'' j, field dec_string [] ''peer_pubkey'' j,
            field (dec_list dec_string []) [] ''dns_servers'' j) of
        (Some st, Some sk, Some p, Some ip, Some vip, Some gw, Some pip, Some ppk, Some dns) \<Rightarrow>
          Some \<lparr>ak_Status = st, ak_ServerKey = sk, ak_ServerPort = p, ak_ServerIP = ip, ak_ServerVip = vip,
            ak_Gateway = gw, ak_PeerIP = pip, ak_PeerPubkey = ppk, ak_DNSServers = dns\<rparr>
      | _ \<Rightarrow> None)"

text \<open>A Go map from region IDs to servers, and appending to the value of a key.\<close>

type_synonym ServerList = "(string \<times> Server list) list"

fun servers_append :: "string \<Rightarrow> Server \<Rightarrow> ServerList \<Rightarrow> ServerList" where
  "servers_append k x [] = [(k, [x])]"
| "servers_append k x ((k', xs) # m) = (if k' = k then (k, xs @ [x]) # m else (k', xs) # servers_append k x m)"

definition servers_get :: "ServerList \<Rightarrow> string \<Rightarrow> Server list" where
  "servers_get m k = (case map_of m k of None \<Rightarrow> [] | Some xs \<Rightarrow> xs)"

lemma servers_get_append: "servers_get (servers_append k x m) k' = (if k' = k then servers_get m k @ [x] else servers_get m k')"
  by (induction k x m rule: servers_append.induct) (auto simp: servers_get_def)

record PIAClient =
  pc_region :: string
  pc_wireguardServers :: ServerList
  pc_metadataServers :: ServerList
  pc_rawServerList :: PIAServerList
  pc_username :: string
  pc_password :: string
  pc_verbose :: bool
  pc_portForwarding :: bool
  pc_caCert :: string
  pc_curlPath :: string

record 'c PIAWgClient =
  GetToken_method :: "'c \<times> world \<Rightarrow> string res \<times> 'c \<times> world"
  AddKey_method :: "string \<Rightarrow> string \<Rightarrow> 'c \<times> world \<Rightarrow> AddKeyResult res \<times> 'c \<times> world"
  getMetadataServerForRegion_method :: "'c \<Rightarrow> Server res"

end
