(* ===== verification/Atomic_Write.thy ===== *)
theory Atomic_Write
  imports World
begin

text \<open>
  \<open>atomicWriteFile\<close> (main.go) and \<open>atomicWriteState\<close> (pia/lifetime.go): write to a
  temporary file in the target's directory, set its mode, rename it over the target, and
  remove the temporary name on the way out. The interface \<open>atomic_writer\<close> states what
  its callers rely on; both functions satisfy it.
\<close>

section \<open>The functions\<close>

text \<open>\<^verbatim>\<open>defer func() { _ = os.Remove(tmpName) }()\<close>: runs on every return.\<close>

definition defer_Remove :: "string \<Rightarrow> 'a res \<times> world \<Rightarrow> 'a res \<times> world" where
  "defer_Remove p r = (fst r, snd (Remove p (snd r)))"

text \<open>\<^verbatim>\<open>_ = tmp.Close(); return err\<close>: close on the error path only.\<close>

definition close_on_error :: "'a res \<times> world \<Rightarrow> 'a res \<times> world" where
  "close_on_error r = (case fst r of Ok _ \<Rightarrow> r | _ \<Rightarrow> (fst r, snd (tmp_Close (snd r))))"

definition atomicWriteFile :: "string \<Rightarrow> content \<Rightarrow> nat \<Rightarrow> world \<Rightarrow> unit res \<times> world" where
  "atomicWriteFile path data perm w =
     (let dir = path_Dir path in
      io_try (MkdirAll dir w) (\<lambda>_ w.
      io_try (CreateTemp dir ''.tmp-'' [] w) (\<lambda>tmpName w.
      defer_Remove tmpName
        (io_try (close_on_error (tmp_Write tmpName data w)) (\<lambda>_ w.
         io_try (close_on_error (tmp_Chmod tmpName perm w)) (\<lambda>_ w.
         io_try (tmp_Close w) (\<lambda>_ w.
         Rename tmpName path w)))))))"

definition atomicWriteState :: "string \<Rightarrow> content \<Rightarrow> nat \<Rightarrow> world \<Rightarrow> unit res \<times> world" where
  "atomicWriteState path data perm w =
     (let dir = path_Dir path in
      io_try (MkdirAll dir w) (\<lambda>_ w.
      io_try (CreateTemp dir ''.tmp-'' [] w) (\<lambda>tmpName w.
      defer_Remove tmpName
        (io_try (close_on_error (tmp_Write tmpName data w)) (\<lambda>_ w.
         io_try (close_on_error (tmp_Chmod tmpName perm w)) (\<lambda>_ w.
         io_try (tmp_Close w) (\<lambda>_ w.
         Rename tmpName path w)))))))"

section \<open>What the effects touch\<close>

fun on_temp :: "string \<Rightarrow> effect \<Rightarrow> bool" where
  "on_temp t (EvCreate p _) = (p = t)"
| "on_temp t (EvFill p _ _) = (p = t)"
| "on_temp t (EvChmod p _) = (p = t)"
| "on_temp t (EvRemove p) = (p = t)"
| "on_temp t _ = False"

lemma apply_on_temp: "on_temp t e \<Longrightarrow> q \<noteq> t \<Longrightarrow> apply_effect e fs q = fs q"
  by (cases e) (auto split: option.splits)

lemma replay_on_temp: "list_all (on_temp t) es \<Longrightarrow> q \<noteq> t \<Longrightarrow> replay es fs q = fs q"
  by (induction es arbitrary: fs) (auto simp: apply_on_temp)

text \<open>The name of a temporary file: its last component starts with \<^verbatim>\<open>.tmp-\<close>.\<close>

definition temp_path :: "string \<Rightarrow> bool" where
  "temp_path p \<longleftrightarrow> prefix ''.tmp-'' (path_base p)"

lemma temp_name_is_temp: "temp_path (temp_name dir ''.tmp-'' [] n)"
proof -
  have s: "CHR ''/'' \<notin> set (''.tmp-'' @ digits n)"
    using digits_are_digits [of "CHR ''/''" n] by (auto simp: is_digit_def)
  have "path_base (temp_name dir ''.tmp-'' [] n) = ''.tmp-'' @ digits n"
    using path_base_append [OF s, of dir] path_base_append [OF s, of "[]"]
    by (simp add: temp_name_def)
  then show ?thesis by (simp add: temp_path_def prefix_def)
qed

lemma replay_temp:
  "list_all (on_temp t) es \<Longrightarrow> temp_path t \<Longrightarrow>
     \<forall>q fs. \<not> temp_path q \<longrightarrow> replay es fs q = fs q"
  by (auto intro: replay_on_temp)

lemma temp_path_Join: "plain_name n \<Longrightarrow> temp_path (path_Join d n) \<longleftrightarrow> prefix ''.tmp-'' n"
  by (simp add: temp_path_def)

section \<open>The shape of a run\<close>

text \<open>A system call fails with nothing done, or succeeds with its one effect.\<close>

lemma syscall_then:
  assumes "\<And>v. quiet w v \<Longrightarrow> \<exists>u. f () v = (Ok u, emit e v)"
  shows "(\<exists>x. fst (io_try (syscall w) f) = Err x) \<and> quiet w (snd (io_try (syscall w) f)) \<or>
     is_Ok (fst (io_try (syscall w) f)) \<and> emits [e] w (snd (io_try (syscall w) f))"
proof -
  obtain r v where sc: "syscall w = (r, v)" by (cases "syscall w")
  have q: "quiet w v" using syscall_quiet [of w] by (simp add: sc)
  show ?thesis
  proof (cases r)
    case (Ok u)
    from assms [OF q] obtain u where "f () v = (Ok u, emit e v)" ..
    moreover have "emits [e] w (emit e v)" using q emits_emit by (rule quiet_then)
    ultimately show ?thesis using sc Ok by simp
  next
    case (Err x)
    with sc q show ?thesis by simp
  next
    case (Panic s)
    with sc syscall_no_panic [of w s] show ?thesis by simp
  qed
qed

lemma tmp_Write_run:
  "(\<exists>x. fst (tmp_Write t c w) = Err x) \<and> quiet w (snd (tmp_Write t c w)) \<or>
   is_Ok (fst (tmp_Write t c w)) \<and> (\<exists>tm. emits [EvFill t c tm] w (snd (tmp_Write t c w)))"
  unfolding tmp_Write_def by (cases "syscall w" rule: prod.exhaust; cases "fst (syscall w)")
    (use syscall_quiet [of w] syscall_no_panic [of w] in \<open>fastforce intro: quiet_then\<close>)+

lemma tmp_Chmod_run:
  "(\<exists>x. fst (tmp_Chmod t m w) = Err x) \<and> quiet w (snd (tmp_Chmod t m w)) \<or>
   is_Ok (fst (tmp_Chmod t m w)) \<and> emits [EvChmod t m] w (snd (tmp_Chmod t m w))"
  unfolding tmp_Chmod_def by (rule syscall_then) simp

lemma Rename_run:
  "(\<exists>x. fst (Rename p q w) = Err x) \<and> quiet w (snd (Rename p q w)) \<or>
   is_Ok (fst (Rename p q w)) \<and> emits [EvRename p q] w (snd (Rename p q w))"
  unfolding Rename_def by (rule syscall_then) simp

lemma Remove_run: "\<exists>es. list_all (on_temp t) es \<and> emits es w (snd (Remove t w))"
  unfolding Remove_def
proof (rule io_try_keeps)
  show "\<exists>es. list_all (on_temp t) es \<and> emits es w (snd (syscall w))"
    using syscall_quiet [of w] by (intro exI [of _ "[]"]) simp
  fix x
  show "\<exists>es. list_all (on_temp t) es \<and> emits es w
      (snd (if w_files (snd (syscall w)) t = None then (Err (not_exist t), snd (syscall w))
            else (Ok (), emit (EvRemove t) (snd (syscall w)))))"
    using syscall_quiet [of w] quiet_then [OF syscall_quiet [of w] emits_emit [of "EvRemove t"]]
    by (cases "w_files (snd (syscall w)) t = None")
      (auto intro: exI [of _ "[]"] exI [of _ "[EvRemove t]"])
qed

lemma create_temp_run:
  "case create_temp k dir pre suf w of (r, w') \<Rightarrow>
     (\<exists>x. r = Err x) \<and> quiet w w' \<or>
     (\<exists>n tm. r = Ok (temp_name dir pre suf n) \<and> w_files w (temp_name dir pre suf n) = None \<and>
        emits [EvCreate (temp_name dir pre suf n) tm] w w')"
proof (induction k dir pre suf w rule: create_temp.induct)
  case (1 k dir pre suf w)
  define w1 where "w1 = w\<lparr>w_temps := stl (w_temps w)\<rparr>"
  define p where "p = temp_name dir pre suf (shd (w_temps w))"
  obtain r w2 where sc: "syscall w1 = (r, w2)" by (cases "syscall w1")
  have "quiet w w1" by (simp add: w1_def emits_def static_def)
  also have "quiet w1 w2" using syscall_quiet [of w1] by (simp add: sc)
  finally have q: "quiet w w2" .
  have unf: "create_temp k dir pre suf w = (if k = 0 then (Err (errors_New ''createtemp: file exists''), w)
      else case (r, w2) of
             (Ok _, w) \<Rightarrow> if w_files w p \<noteq> None then create_temp (k - 1) dir pre suf w
                          else (Ok p, emit (EvCreate p (w_clock w)) w)
           | (Err e, w) \<Rightarrow> (Err e, w)
           | (Panic s, w) \<Rightarrow> (Panic s, w))"
    by (simp add: create_temp.simps [of k] Let_def w1_def [symmetric] p_def [symmetric] sc)
  show ?case
  proof (cases "k = 0 \<or> \<not> is_Ok r \<or> w_files w2 p = None")
    case True
    have "r \<noteq> Panic s" for s using syscall_no_panic [of w1 s] by (simp add: sc)
    moreover have "w_files w2 = w_files w" using q by (simp add: emits_def)
    ultimately show ?thesis
      unfolding unf using True q quiet_then [OF q emits_emit]
      by (cases r; cases "k = 0") (auto simp: p_def)
  next
    case False
    then obtain u where r: "r = Ok u" and k: "k \<noteq> 0" and f: "w_files w2 p \<noteq> None"
      by (cases r) auto
    then have eq: "create_temp k dir pre suf w = create_temp (k - 1) dir pre suf w2"
      by (simp add: unf)
    have fw: "w_files w2 = w_files w" using q by (simp add: emits_def)
    show ?thesis
      using "1.IH" [OF k p_def w1_def sc [symmetric] r f] q
      unfolding eq by (auto split: prod.splits simp: fw intro: quiet_then)
  qed
qed

text \<open>
  Runs with early returns: an error comes after effects that all satisfy \<open>E\<close>, a success
  after one of the effect sequences \<open>S\<close>.
\<close>

definition tries :: "(effect \<Rightarrow> bool) \<Rightarrow> effect list set \<Rightarrow> world \<Rightarrow> 'a res \<times> world \<Rightarrow> bool" where
  "tries E S w run \<longleftrightarrow>
     (\<exists>x. fst run = Err x) \<and> (\<exists>es. list_all E es \<and> emits es w (snd run)) \<or>
     is_Ok (fst run) \<and> (\<exists>es \<in> S. emits es w (snd run))"

lemma tries_seq:
  assumes a: "tries E S w a" and S: "\<forall>es \<in> S. list_all E es"
    and f: "\<And>x. fst a = Ok x \<Longrightarrow> tries E S' (snd a) (f x (snd a))"
  shows "tries E {es @ es' | es es'. es \<in> S \<and> es' \<in> S'} w (io_try a f)"
proof (cases "fst a")
  case (Ok x)
  with a obtain es where es: "es \<in> S" "emits es w (snd a)" by (auto simp: tries_def)
  have "io_try a f = f x (snd a)" by (rule io_try_fst_Ok [OF Ok])
  then show ?thesis
    using f [OF Ok] es S emits_append [OF es(2)] unfolding tries_def
    by (auto 4 4 intro: exI [of _ "es @ _"])
next
  case (Err e)
  with a show ?thesis by (simp add: tries_def io_try_fst_Err)
next
  case (Panic s)
  with a show ?thesis by (simp add: tries_def)
qed

lemma tries_mono: "tries E S w run \<Longrightarrow> S \<subseteq> S' \<Longrightarrow> tries E S' w run"
  by (auto simp: tries_def)

lemma tries_close_on_error: "tries E S w run \<Longrightarrow> tries E S w (close_on_error run)"
  using syscall_quiet [of "snd run"]
  by (cases "fst run") (auto simp: tries_def close_on_error_def tmp_Close_def intro: then_quiet)

lemma tries_syscall: "tries E {[]} w (syscall w)"
  using syscall_quiet [of w] syscall_no_panic [of w]
  by (cases "fst (syscall w)") (auto simp: tries_def intro!: exI [of _ "[]"])

lemma tries_tmp_Write: "tries E {[EvFill t c tm] | tm. True} w (tmp_Write t c w)"
  using tmp_Write_run [of t c w] unfolding tries_def by (auto intro: exI [of _ "[]"])

lemma tries_tmp_Chmod: "tries E {[EvChmod t m]} w (tmp_Chmod t m w)"
  using tmp_Chmod_run [of t m w] by (auto simp: tries_def intro!: exI [of _ "[]"])

lemma tries_Rename: "tries E {[EvRename t p]} w (Rename t p w)"
  using Rename_run [of t p w] by (auto simp: tries_def intro!: exI [of _ "[]"])

text \<open>A call whose error is ignored, and which has no effect when it fails.\<close>

lemma tries_ignore:
  assumes "tries (\<lambda>_. False) S w a" and "\<forall>es \<in> S. list_all E es" and "tries E S' (snd a) (f (snd a))"
  shows "tries E {es @ es' | es es'. es \<in> insert [] S \<and> es' \<in> S'} w (f (snd a))"
proof -
  obtain es where es: "es \<in> insert [] S" "list_all E es" "emits es w (snd a)"
  proof -
    have "list_all (\<lambda>_. False) es \<Longrightarrow> es = []" for es :: "effect list" by (cases es) auto
    with assms(1,2) that show thesis unfolding tries_def by (metis insertCI list.pred_inject(1))
  qed
  from assms(3) consider (err) x es' where "fst (f (snd a)) = Err x" "list_all E es'" "emits es' (snd a) (snd (f (snd a)))"
    | (ok) es' where "is_Ok (fst (f (snd a)))" "es' \<in> S'" "emits es' (snd a) (snd (f (snd a)))"
    by (auto simp: tries_def)
  then show ?thesis
  proof cases
    case err
    with es emits_append [OF es(3) err(3)] show ?thesis
      unfolding tries_def by (intro disjI1 conjI exI [of _ "es @ es'"]) auto
  next
    case ok
    with es emits_append [OF es(3) ok(3)] show ?thesis
      unfolding tries_def by (intro disjI2 conjI bexI [of _ "es @ es'"]) auto
  qed
qed

lemmas tries_rules = tries_close_on_error tries_syscall tries_tmp_Write tries_tmp_Chmod tries_Rename

lemma tries_fill_and_rename:
  "tries (on_temp t) {[EvFill t c tm, EvChmod t m, EvRename t path] | tm. True} w
     (io_try (close_on_error (tmp_Write t c w)) (\<lambda>_ w.
      io_try (close_on_error (tmp_Chmod t m w)) (\<lambda>_ w.
      io_try (tmp_Close w) (\<lambda>_ w. Rename t path w))))"
  unfolding tmp_Close_def
  by (rule tries_mono, (rule tries_seq tries_rules | force)+)

text \<open>
  A run either stops with an error after effects on one temporary name, or renames the
  filled temporary file to the target.
\<close>

definition write_run :: "string \<Rightarrow> content \<Rightarrow> nat \<Rightarrow> world \<Rightarrow> unit res \<times> world \<Rightarrow> bool" where
  "write_run path c m w run \<longleftrightarrow>
     (\<exists>es t. temp_path t \<and> emits es w (snd run) \<and>
        (list_all (on_temp t) es \<and> (\<exists>e. fst run = Err e) \<or>
         fst run = Ok () \<and>
         (\<exists>tm tm' es'. es = [EvCreate t tm, EvFill t c tm', EvChmod t m, EvRename t path] @ es' \<and>
            list_all (on_temp t) es')))"

text \<open>
  What every writer of the program does: make the directory, create a temporary file, work
  on it, and remove it on the way out.
\<close>

lemma temp_file_run:
  fixes body :: "string \<Rightarrow> world \<Rightarrow> 'a res \<times> world" and dir pre suf :: string and w :: world
  assumes body: "\<And>t w. tries (on_temp t) (S t) w (body t w)"
  defines "run \<equiv> io_try (MkdirAll dir w) (\<lambda>_ w.
     io_try (CreateTemp dir pre suf w) (\<lambda>t w. defer_Remove t (body t w)))"
  shows "\<exists>n es. emits es w (snd run) \<and>
    (let t = temp_name dir pre suf n in
     (\<exists>x. fst run = Err x) \<and> list_all (on_temp t) es \<or>
     is_Ok (fst run) \<and>
       (\<exists>tm es1 es2. es = EvCreate t tm # es1 @ es2 \<and> es1 \<in> S t \<and> list_all (on_temp t) es2))"
proof -
  obtain r1 w1 where s1: "MkdirAll dir w = (r1, w1)" by (cases "MkdirAll dir w")
  have q1: "quiet w w1" using syscall_quiet [of w] s1 by (simp add: MkdirAll_def)
  have np: "r1 \<noteq> Panic s" for s using syscall_no_panic [of w s] s1 unfolding MkdirAll_def by (metis fst_conv)
  obtain r2 w2 where s2: "CreateTemp dir pre suf w1 = (r2, w2)" by (cases "CreateTemp dir pre suf w1")
  have cases2: "(\<exists>x. r2 = Err x) \<and> quiet w1 w2 \<or>
     (\<exists>n tm. r2 = Ok (temp_name dir pre suf n) \<and> emits [EvCreate (temp_name dir pre suf n) tm] w1 w2)"
    using create_temp_run [where k = 10000 and dir = dir and pre = pre and suf = suf and w = w1] s2
    by (auto simp: CreateTemp_def)
  show ?thesis
  proof (cases "is_Ok r1 \<and> is_Ok r2")
    case False
    then have "(\<exists>x. fst run = Err x) \<and> quiet w (snd run)"
      using s1 s2 q1 np cases2 quiet_trans [OF q1] by (cases r1) (auto simp: run_def)
    then show ?thesis by (intro exI [of _ 0] exI [of _ "[]"]) simp
  next
    case True
    with cases2 obtain n tm where r2: "r2 = Ok (temp_name dir pre suf n)"
      and e2: "emits [EvCreate (temp_name dir pre suf n) tm] w1 w2" by auto
    define t where "t = temp_name dir pre suf n"
    have eq: "run = defer_Remove t (body t w2)"
      using True s1 s2 r2 by (cases r1) (auto simp: run_def t_def)
    have e2': "emits [EvCreate t tm] w w2" using quiet_then [OF q1 e2] by (simp add: t_def)
    obtain es' where es': "list_all (on_temp t) es'" "emits es' (snd (body t w2)) (snd run)"
      using Remove_run unfolding eq defer_Remove_def snd_conv by blast
    obtain es where es: "emits es w2 (snd (body t w2))"
      "(\<exists>x. fst run = Err x) \<and> list_all (on_temp t) es \<or> is_Ok (fst run) \<and> es \<in> S t"
      using body [of t w2] unfolding tries_def eq by (auto simp: defer_Remove_def)
    have "emits ([EvCreate t tm] @ es @ es') w (snd run)"
      using emits_append [OF e2' emits_append [OF es(1) es'(2)]] .
    then show ?thesis
      using es(2) es'(1)
      by (intro exI [of _ n] exI [of _ "[EvCreate t tm] @ es @ es'"]) (auto simp: t_def Let_def)
  qed
qed

lemma atomicWriteFile_run: "write_run path c m w (atomicWriteFile path c m w)"
proof -
  define body where "body t w = io_try (close_on_error (tmp_Write t c w)) (\<lambda>_ w.
      io_try (close_on_error (tmp_Chmod t m w)) (\<lambda>_ w.
      io_try (tmp_Close w) (\<lambda>_ w. Rename t path w)))" for t w
  have eq: "atomicWriteFile path c m w = io_try (MkdirAll (path_Dir path) w) (\<lambda>_ w.
     io_try (CreateTemp (path_Dir path) ''.tmp-'' [] w) (\<lambda>t w. defer_Remove t (body t w)))"
    by (simp add: atomicWriteFile_def body_def Let_def)
  have "tries (on_temp t) {[EvFill t c tm, EvChmod t m, EvRename t path] | tm. True} w (body t w)" for t w
    unfolding body_def by (rule tries_fill_and_rename)
  from temp_file_run [of "\<lambda>t. {[EvFill t c tm, EvChmod t m, EvRename t path] | tm. True}", OF this,
      of w "path_Dir path" "''.tmp-''" "[]", folded eq]
  show ?thesis
    unfolding write_run_def Let_def
    by (elim exE conjE disjE) (force intro: temp_name_is_temp simp: is_Ok_iff)+
qed

section \<open>The interface\<close>

text \<open>Effects that change no other files than temporary ones and those in \<open>P\<close>.\<close>

fun writes_only :: "string set \<Rightarrow> effect \<Rightarrow> bool" where
  "writes_only P (EvCreate p _) = temp_path p"
| "writes_only P (EvFill p _ _) = temp_path p"
| "writes_only P (EvChmod p _) = temp_path p"
| "writes_only P (EvRemove p) = temp_path p"
| "writes_only P (EvRename p q) = (temp_path p \<and> q \<in> P)"
| "writes_only P _ = False"

lemma writes_only_mono: "writes_only P e \<Longrightarrow> P \<subseteq> Q \<Longrightarrow> writes_only Q e"
  by (cases e) auto

lemma on_temp_writes: "temp_path t \<Longrightarrow> on_temp t e \<Longrightarrow> writes_only P e"
  by (cases e) auto

lemma write_run_writes:
  assumes "write_run path c m w run"
  shows "runs (writes_only {path}) w (snd run)"
proof -
  obtain es t where t: "temp_path t" "emits es w (snd run)" and
    es: "list_all (on_temp t) es \<or>
      (\<exists>tm tm' es'. es = [EvCreate t tm, EvFill t c tm', EvChmod t m, EvRename t path] @ es' \<and> list_all (on_temp t) es')"
    using assms unfolding write_run_def by blast
  have "list_all (writes_only {path}) es'" if "list_all (on_temp t) es'" for es'
    using that on_temp_writes [OF t(1)] unfolding list_all_iff by blast
  with es t have "list_all (writes_only {path}) es" by auto
  with t(2) show ?thesis by (rule emits_runs)
qed

lemma apply_writes_only:
  "writes_only P e \<Longrightarrow> \<not> temp_path q \<Longrightarrow> q \<notin> P \<Longrightarrow> apply_effect e fs q = fs q"
  by (cases e) (auto split: option.splits)

lemma replay_writes_only:
  "list_all (writes_only P) es \<Longrightarrow> \<not> temp_path q \<Longrightarrow> q \<notin> P \<Longrightarrow> replay es fs q = fs q"
  by (induction es arbitrary: fs) (auto simp: apply_writes_only)

lemma runs_writes_only:
  "runs (writes_only P) w w' \<Longrightarrow> \<not> temp_path q \<Longrightarrow> q \<notin> P \<Longrightarrow> w_files w' q = w_files w q"
  by (auto simp: runs_def emits_def replay_writes_only)

locale atomic_writer =
  fixes put :: "string \<Rightarrow> content \<Rightarrow> nat \<Rightarrow> world \<Rightarrow> unit res \<times> world"
  assumes run: "write_run path c m w (put path c m w)"
begin

text \<open>The target holds the whole new content after success and its old one after an error.\<close>

lemma target:
  assumes "\<not> temp_path path"
  shows "if is_Ok (fst (put path c m w))
    then \<exists>f. w_files (snd (put path c m w)) path = Some f \<and> f_content f = c \<and> f_perm f = m
    else w_files (snd (put path c m w)) path = w_files w path"
  using run [of path c m w] assms unfolding write_run_def
  by (auto simp: emits_def dest!: replay_temp)

lemma target_Ok:
  assumes "\<not> temp_path path" and "fst (put path c m w) = Ok ()"
  obtains f where "w_files (snd (put path c m w)) path = Some f" "f_content f = c" "f_perm f = m"
  using target [OF assms(1), of c m w] assms(2) by auto

lemma target_Err:
  "\<not> temp_path path \<Longrightarrow> fst (put path c m w) \<noteq> Ok () \<Longrightarrow>
     w_files (snd (put path c m w)) path = w_files w path"
  using target [of path c m w] by (cases "fst (put path c m w)") auto

lemma others:
  "\<not> temp_path q \<Longrightarrow> q \<noteq> path \<Longrightarrow> w_files (snd (put path c m w)) q = w_files w q"
  using run [of path c m w] unfolding write_run_def
  by (auto simp: emits_def dest!: replay_temp)

lemma writes: "runs (writes_only {path}) w (snd (put path c m w))"
  by (rule write_run_writes [OF run])

lemma no_panic: "fst (put path c m w) \<noteq> Panic s"
  using run [of path c m w] by (auto simp: write_run_def)

lemma evolution: "evolves w (snd (put path c m w))"
  using run [of path c m w] by (auto simp: write_run_def intro: emits_evolves)

text \<open>
  A crash: only the first part \<open>es1\<close> of the effects took place. The target is untouched
  or complete.
\<close>

lemma crash:
  assumes p: "\<not> temp_path path"
    and tr: "w_trace (snd (put path c m w)) = w_trace w @ es1 @ es2"
  shows "replay es1 (w_files w) path = w_files w path \<or>
    (\<exists>f. replay es1 (w_files w) path = Some f \<and> f_content f = c \<and> f_perm f = m)"
proof -
  obtain es t where t: "temp_path t" and es: "w_trace (snd (put path c m w)) = w_trace w @ es"
    and shape: "list_all (on_temp t) es \<or>
      (\<exists>tm tm' es'. es = [EvCreate t tm, EvFill t c tm', EvChmod t m, EvRename t path] @ es' \<and>
            list_all (on_temp t) es')"
    using run [of path c m w] unfolding write_run_def emits_def by auto
  have tmp: "list_all (on_temp t) xs \<Longrightarrow> replay xs fs path = fs path" for xs fs
    using replay_temp [OF _ t] p by blast
  have "path \<noteq> t" using p t by auto
  have split: "es = es1 @ es2" using tr es by simp
  from shape show ?thesis
  proof
    assume "list_all (on_temp t) es"
    with split show ?thesis by (simp add: tmp)
  next
    assume "\<exists>tm tm' es'. es = [EvCreate t tm, EvFill t c tm', EvChmod t m, EvRename t path] @ es' \<and>
            list_all (on_temp t) es'"
    then obtain tm tm' es' where e: "es1 @ es2 = [EvCreate t tm, EvFill t c tm', EvChmod t m, EvRename t path] @ es'"
      and es': "list_all (on_temp t) es'" using split by auto
    from e consider "\<exists>zs. [EvCreate t tm, EvFill t c tm', EvChmod t m] = es1 @ zs"
      | zs where "es1 = [EvCreate t tm, EvFill t c tm', EvChmod t m, EvRename t path] @ zs" "prefix zs es'"
      by (auto simp: append_eq_Cons_conv prefix_def)
    then show ?thesis
    proof cases
      case 1
      have "list_all (on_temp t) [EvCreate t tm, EvFill t c tm', EvChmod t m]" by simp
      with 1 have "list_all (on_temp t) es1" by (metis list_all_append)
      then show ?thesis by (simp add: tmp)
    next
      case 2
      then have "list_all (on_temp t) zs" using es' by (auto simp: prefix_def)
      with 2(1) \<open>path \<noteq> t\<close> show ?thesis by (auto simp: tmp)
    qed
  qed
qed

text \<open>Reading the target back.\<close>

lemma read_back:
  assumes "\<not> temp_path path" and "fst (put path c m w) = Ok ()"
    and "fst (ReadFile path (snd (put path c m w))) = Ok c'"
  shows "c' = c"
  using target [OF assms(1), of c m w] assms(2,3)
  by (auto simp: ReadFile_eq split: option.splits)

end

interpretation aw: atomic_writer atomicWriteFile
  by unfold_locales (rule atomicWriteFile_run)

lemma atomicWriteState_eq: "atomicWriteState = atomicWriteFile"
  by (intro ext) (simp add: atomicWriteState_def atomicWriteFile_def)

interpretation asw: atomic_writer atomicWriteState
  by unfold_locales (simp add: atomicWriteState_eq atomicWriteFile_run)

text \<open>When no call fails and the random name is free, the write succeeds.\<close>

definition calm_calls :: "world \<Rightarrow> bool" where
  "calm_calls w \<longleftrightarrow> w_calls w = sconst None"

lemma calm_syscall: "calm_calls w \<Longrightarrow> syscall w = (Ok (), w)"
  by (simp add: calm_calls_def syscall_def)

lemma calm_emit [simp]: "calm_calls (emit e w) = calm_calls w"
  by (simp add: calm_calls_def emit_def)

lemma calm_temps [simp]: "calm_calls (w\<lparr>w_temps := ts\<rparr>) = calm_calls w"
  by (simp add: calm_calls_def)

lemma calm_calls_shd: "calm_calls w \<Longrightarrow> shd (w_calls w) = None"
  by (simp add: calm_calls_def)

definition no_temps :: "world \<Rightarrow> bool" where
  "no_temps w \<longleftrightarrow> (\<forall>p. temp_path p \<longrightarrow> w_files w p = None)"

lemma no_temps_calm_world [simp]: "no_temps (calm_world t)"
  by (simp add: no_temps_def calm_world_def)

lemma atomicWriteFile_calm:
  assumes "calm_calls w" and "no_temps w" and "\<not> temp_path path"
  defines "t \<equiv> temp_name (path_Dir path) ''.tmp-'' [] (shd (w_temps w))"
  shows "atomicWriteFile path c m w =
    (Ok (), w\<lparr>w_temps := stl (w_temps w),
       w_files := (w_files w)(path \<mapsto> \<lparr>f_content = c, f_perm = m, f_mtime = w_clock w\<rparr>),
       w_trace := w_trace w @ [EvCreate t (w_clock w), EvFill t c (w_clock w), EvChmod t m, EvRename t path]\<rparr>)"
proof -
  have t: "temp_path t" unfolding t_def by (rule temp_name_is_temp)
  with assms(2,3) have n: "w_files w t = None" "t \<noteq> path" by (auto simp: no_temps_def)
  have u: "(w_files w)(t := None) = w_files w" using n(1) by auto
  have "atomicWriteFile path c m w =
    (Ok (), emit (EvRename t path) (emit (EvChmod t m) (emit (EvFill t c (w_clock w))
       (emit (EvCreate t (w_clock w)) (w\<lparr>w_temps := stl (w_temps w)\<rparr>)))))"
    using assms(1) n
    by (simp add: atomicWriteFile_def Let_def MkdirAll_def calm_syscall CreateTemp_def
        create_temp.simps [of 10000] tmp_Write_def tmp_Chmod_def tmp_Close_def Rename_def
        close_on_error_def defer_Remove_def Remove_def t_def [symmetric])
      (simp add: emit_def)
  then show ?thesis by (simp add: emit_def u)
qed

lemma no_temps_update:
  "no_temps w \<Longrightarrow> \<not> temp_path p \<Longrightarrow> no_temps (w\<lparr>w_files := (w_files w)(p \<mapsto> f)\<rparr>)"
  by (auto simp: no_temps_def)

lemma calm_no_temps_fields [simp]:
  "calm_calls (w\<lparr>w_files := fs\<rparr>) = calm_calls w"
  "calm_calls (w\<lparr>w_trace := tr\<rparr>) = calm_calls w"
  "no_temps (w\<lparr>w_temps := ts\<rparr>) = no_temps w"
  "no_temps (w\<lparr>w_trace := tr\<rparr>) = no_temps w"
  "no_temps w \<Longrightarrow> \<not> temp_path p \<Longrightarrow> no_temps (w\<lparr>w_temps := ts, w_files := (w_files w)(p \<mapsto> f)\<rparr>)"
  by (auto simp: no_temps_def calm_calls_def)

lemmas atomicWriteState_calm = atomicWriteFile_calm [folded atomicWriteState_eq]

lemma calm_calm_world [simp]: "calm_calls (calm_world t)"
  by (simp add: calm_calls_def calm_world_def)


lemma calm_Now [simp]: "calm_calls (snd (time_Now w)) = calm_calls w"
  by (simp add: calm_calls_def time_Now_def)

lemma calm_files [simp]: "w_files (snd (time_Now w)) = w_files w" "w_files (calm_world t) = Map.empty"
  by (simp_all add: time_Now_def calm_world_def)

section \<open>The contract of the code\<close>

text \<open>
  C7: Crash safety of \<^verbatim>\<open>atomicWriteFile\<close>. Whatever the system calls answer, and
  wherever the process dies (\<open>es1\<close> is any prefix of the effects the call has on the file
  system), the target file is either exactly what it was before the call or has the complete
  new content and mode: a reader never sees a partly written file. A target is any path whose
  last component does not start with \<^verbatim>\<open>.tmp-\<close>.
\<close>

theorem atomicWriteFile_crash_safe:
  assumes "\<not> temp_path path"
    and "w_trace (snd (atomicWriteFile path c m w)) = w_trace w @ es1 @ es2"
  shows "replay es1 (w_files w) path = w_files w path \<or>
    (\<exists>f. replay es1 (w_files w) path = Some f \<and> f_content f = c \<and> f_perm f = m)"
  using assms by (rule aw.crash)

theorem atomicWriteFile_crash_safe_witness:
  "let w = calm_world 1; t = temp_name (path_Dir ''/out/wg0.conf'') ''.tmp-'' [] 7
   in replay [EvCreate t 1, EvFill t (Text ''new'') 1] (w_files w) ''/out/wg0.conf'' = w_files w ''/out/wg0.conf'' \<or>
     (\<exists>f. replay [EvCreate t 1, EvFill t (Text ''new'') 1] (w_files w) ''/out/wg0.conf'' = Some f \<and>
       f_content f = Text ''new'' \<and> f_perm f = 384)"
proof -
  let ?p = "''/out/wg0.conf''" and ?w = "calm_world 1"
  let ?t = "temp_name (path_Dir ?p) ''.tmp-'' [] 7"
  have p: "\<not> temp_path ?p" by (simp add: temp_path_def path_base_def)
  have "w_trace (snd (atomicWriteFile ?p (Text ''new'') 384 ?w)) =
      w_trace ?w @ [EvCreate ?t 1, EvFill ?t (Text ''new'') 1] @ [EvChmod ?t 384, EvRename ?t ?p]"
    using p by (simp add: atomicWriteFile_calm) (simp add: calm_world_def)
  from atomicWriteFile_crash_safe [OF p this] show ?thesis by (simp only: Let_def)
qed

text \<open>
  C27: The outcome of both writers, \<^verbatim>\<open>atomicWriteFile\<close> of main.go and \<^verbatim>\<open>atomicWriteState\<close>
  of pia/lifetime.go. When the call reports success the target has the new content and the
  requested mode, when it reports an error the target is unchanged; no other file changes
  except temporary ones, and the call never panics.
\<close>

theorem atomic_writers_outcome:
  assumes "put \<in> {atomicWriteFile, atomicWriteState}" and "\<not> temp_path path"
  shows "(if is_Ok (fst (put path c m w))
     then \<exists>f. w_files (snd (put path c m w)) path = Some f \<and> f_content f = c \<and> f_perm f = m
     else w_files (snd (put path c m w)) path = w_files w path) \<and>
    (\<forall>q. \<not> temp_path q \<longrightarrow> q \<noteq> path \<longrightarrow> w_files (snd (put path c m w)) q = w_files w q) \<and>
    (\<forall>s. fst (put path c m w) \<noteq> Panic s)"
proof -
  have "put = atomicWriteFile" using assms(1) atomicWriteState_eq by auto
  then show ?thesis
    using aw.target [OF assms(2)] aw.others aw.no_panic by blast
qed

theorem atomic_writers_outcome_witness:
  "let r = atomicWriteState ''/state/lifetime.json'' (Text ''{}'') 420 (calm_world 1)
   in \<exists>f. w_files (snd r) ''/state/lifetime.json'' = Some f \<and> f_content f = Text ''{}'' \<and> f_perm f = 420"
proof -
  let ?p = "''/state/lifetime.json''"
  have p: "\<not> temp_path ?p" by (simp add: temp_path_def path_base_def)
  then have "fst (atomicWriteState ?p (Text ''{}'') 420 (calm_world 1)) = Ok ()"
    by (simp add: atomicWriteState_calm)
  moreover note atomic_writers_outcome [of atomicWriteState ?p "Text ''{}''" 420 "calm_world 1"] p
  ultimately show ?thesis unfolding Let_def by simp
qed

end
