(* ===== verification/TokenCache.thy ===== *)
theory TokenCache
  imports Atomic_Write "HOL-Library.Monad_Syntax"
begin

text \<open>
  pia/token_cacher.go: the token cache, a JSON file beside the executable, written through a
  temporary file and read with an expiry check. The file mode is set on every platform but
  Windows; the model is the other platforms.
\<close>

record cachedTokenFile =
  ct_Token :: string
  ct_ExpiresUTC :: time
  ct_IssuedUTC :: time
  ct_Version :: int

definition no_cached_token :: goerr where
  "no_cached_token = \<lparr>emsg = ''no cached token'', chain = [ErrNoCachedToken]\<rparr>"

definition enc_cachedTokenFile :: "cachedTokenFile \<Rightarrow> json option" where
  "enc_cachedTokenFile f = do {
     e \<leftarrow> enc_time (ct_ExpiresUTC f);
     i \<leftarrow> enc_time (ct_IssuedUTC f);
     Some (JObj [(''token'', JStr (ct_Token f)), (''expires_utc'', e), (''issued_utc'', i),
                 (''version'', JNum (ct_Version f))])
   }"

definition dec_cachedTokenFile :: "json \<Rightarrow> cachedTokenFile option" where
  "dec_cachedTokenFile j = do {
     kvs \<leftarrow> json_members j;
     t \<leftarrow> obj_get dec_string ''token'' [] kvs;
     e \<leftarrow> obj_get dec_time ''expires_utc'' 0 kvs;
     i \<leftarrow> obj_get dec_time ''issued_utc'' 0 kvs;
     v \<leftarrow> obj_get dec_int ''version'' 0 kvs;
     Some \<lparr>ct_Token = t, ct_ExpiresUTC = e, ct_IssuedUTC = i, ct_Version = v\<rparr>
   }"

definition ok_cachedTokenFile :: "cachedTokenFile \<Rightarrow> bool" where
  "ok_cachedTokenFile f \<longleftrightarrow> json_time_ok (ct_ExpiresUTC f) \<and> json_time_ok (ct_IssuedUTC f) \<and> in64 (ct_Version f)"

lemma token_keys_lower [simp]:
  "lower_text ''token''" "lower_text ''expires_utc''" "lower_text ''issued_utc''" "lower_text ''version''"
  by code_simp+

interpretation token_json: json_type enc_cachedTokenFile dec_cachedTokenFile ok_cachedTokenFile
proof unfold_locales
  fix f assume "ok_cachedTokenFile f"
  then show "\<exists>j. enc_cachedTokenFile f = Some j"
    by (simp add: ok_cachedTokenFile_def enc_cachedTokenFile_def enc_time_def)
next
  fix f j assume "ok_cachedTokenFile f" and "enc_cachedTokenFile f = Some j"
  then show "dec_cachedTokenFile j = Some f"
    by (cases f) (auto simp: ok_cachedTokenFile_def enc_cachedTokenFile_def dec_cachedTokenFile_def
        enc_time_def EqualFold_lower)
qed

section \<open>Operations\<close>

definition getTokenCachePath :: "world \<Rightarrow> string res" where
  "getTokenCachePath w =
     (let fallback = (case w_getwd w of Inl e \<Rightarrow> Err e | Inr cwd \<Rightarrow> Ok (path_Join cwd ''.pia_token.json'')) in
      case w_executable w of
        Inr exePath \<Rightarrow> if TrimSpace exePath \<noteq> [] then Ok (path_Join (path_Dir exePath) ''.pia_token.json'') else fallback
      | Inl _ \<Rightarrow> fallback)"

definition token_skew :: duration where "token_skew = 30 * second"

definition readCachedToken :: "time \<Rightarrow> world \<Rightarrow> (string \<times> time) res \<times> world" where
  "readCachedToken now w =
     io_try (getTokenCachePath w, w) (\<lambda>path w.
     case ReadFile path w of
       (Err e, w) \<Rightarrow> if errors_Is e ErrNotExist then (Err no_cached_token, w) else (Err e, w)
     | (Panic m, w) \<Rightarrow> (Panic m, w)
     | (Ok b, w) \<Rightarrow>
         (case Option.bind (json_of b w) dec_cachedTokenFile of
            None \<Rightarrow> (Err no_cached_token, w)
          | Some f \<Rightarrow>
              (let token = TrimSpace (ct_Token f) in
               if token = [] then (Err no_cached_token, w)
               else if time_IsZero (ct_ExpiresUTC f) then (Err no_cached_token, w)
               else if time_After now (time_Add (ct_ExpiresUTC f) (- token_skew)) then (Err no_cached_token, w)
               else (Ok (token, ct_ExpiresUTC f), w))))"

definition writeCachedToken :: "string \<Rightarrow> duration \<Rightarrow> world \<Rightarrow> unit res \<times> world" where
  "writeCachedToken token ttl w =
     io_try (getTokenCachePath w, w) (\<lambda>path w.
     let t = TrimSpace token in
     if t = [] then (Err (errors_New ''token cannot be empty''), w)
     else
     let (now, w) = time_Now w;
         payload = \<lparr>ct_Token = t, ct_ExpiresUTC = time_Add now ttl, ct_IssuedUTC = now, ct_Version = 1\<rparr> in
     case enc_cachedTokenFile payload of
       None \<Rightarrow> (Err marshal_time_error, w)
     | Some b \<Rightarrow>
         let dir = path_Dir path in
         io_try (MkdirAll dir w) (\<lambda>_ w.
         io_try (CreateTemp dir ''.pia_token.'' ''.tmp'' w) (\<lambda>tmpName w.
         defer_Remove tmpName
           (io_try (close_on_error (tmp_Write tmpName (Doc b) w)) (\<lambda>_ w.
            io_try (tmp_Close w) (\<lambda>_ w.
            let w = snd (tmp_Chmod tmpName 384 w) in
            Rename tmpName path w))))))"

definition isTooManyAttempts :: "string \<Rightarrow> bool" where
  "isTooManyAttempts body \<longleftrightarrow> contains ''too_many_attempts'' body \<or> contains ''try again later'' (ToLower body)"

section \<open>Writing and reading back\<close>

lemma getTokenCachePath_static: "static w' = static w \<Longrightarrow> getTokenCachePath w' = getTokenCachePath w"
  by (simp add: static_def getTokenCachePath_def)

lemma getTokenCachePath_no_panic [simp]: "getTokenCachePath w \<noteq> Panic m"
  by (auto simp: getTokenCachePath_def Let_def split: sum.splits)

lemma token_path_base: "getTokenCachePath w = Ok p \<Longrightarrow> path_base p = ''.pia_token.json''"
  by (auto simp: getTokenCachePath_def Let_def plain_name_def split: sum.splits if_splits)

text \<open>The name of the temporary file is never the name of the cache.\<close>

lemma token_temp_base: "path_base (temp_name dir ''.pia_token.'' ''.tmp'' n) = ''.pia_token.'' @ digits n @ ''.tmp''"
proof -
  have s: "CHR ''/'' \<notin> set (''.pia_token.'' @ digits n @ ''.tmp'')"
    using digits_are_digits [of "CHR ''/''" n] by (auto simp: is_digit_def)
  show ?thesis
    using path_base_append [OF s, of dir] path_base_append [OF s, of "[]"]
    by (simp add: temp_name_def)
qed

lemma token_temp_not_cache:
  assumes "getTokenCachePath w = Ok p"
  shows "temp_name dir ''.pia_token.'' ''.tmp'' n \<noteq> p"
proof
  assume "temp_name dir ''.pia_token.'' ''.tmp'' n = p"
  with token_path_base [OF assms] token_temp_base [of dir n]
  have "last (''.pia_token.'' @ digits n @ ''.tmp'') = last ''.pia_token.json''" by metis
  then show False by simp
qed

lemma tries_fill_and_publish:
  "tries (on_temp t) {EvFill t c tm # es @ [EvRename t path] | tm es. es \<in> {[], [EvChmod t m]}} w
     (io_try (close_on_error (tmp_Write t c w)) (\<lambda>_ w.
      io_try (tmp_Close w) (\<lambda>_ w. let w = snd (tmp_Chmod t m w) in Rename t path w)))"
proof (rule tries_mono)
  show "tries (on_temp t)
     {es @ es' | es es'. es \<in> {[EvFill t c tm] | tm. True} \<and>
        es' \<in> {es @ es' | es es'. es \<in> {[]} \<and>
           es' \<in> {es @ es' | es es'. es \<in> insert [] {[EvChmod t m]} \<and> es' \<in> {[EvRename t path]}}}} w
     (io_try (close_on_error (tmp_Write t c w)) (\<lambda>_ w.
      io_try (tmp_Close w) (\<lambda>_ w. let w = snd (tmp_Chmod t m w) in Rename t path w)))"
    unfolding tmp_Close_def Let_def
    by (rule tries_seq tries_rules tries_ignore | force)+
qed auto

text \<open>A successful write: the payload is in place, and nothing but time and effects passed.\<close>

lemma writeCachedToken_Ok:
  assumes ok: "fst (writeCachedToken token ttl w) = Ok ()"
  obtains p f b where "getTokenCachePath w = Ok p" and "TrimSpace token \<noteq> []"
    and "enc_cachedTokenFile \<lparr>ct_Token = TrimSpace token, ct_ExpiresUTC = fst (time_Now w) + ttl,
           ct_IssuedUTC = fst (time_Now w), ct_Version = 1\<rparr> = Some b"
    and "w_files (snd (writeCachedToken token ttl w)) p = Some f" and "f_content f = Doc b"
    and "evolves w (snd (writeCachedToken token ttl w))"
proof -
  obtain p where p: "getTokenCachePath w = Ok p" using ok by (cases "getTokenCachePath w") (auto simp: writeCachedToken_def)
  have t: "TrimSpace token \<noteq> []" using ok p by (auto simp: writeCachedToken_def Let_def)
  obtain now w1 where n: "time_Now w = (now, w1)" by (cases "time_Now w")
  let ?pl = "\<lparr>ct_Token = TrimSpace token, ct_ExpiresUTC = now + ttl, ct_IssuedUTC = now, ct_Version = 1\<rparr>"
  obtain b where b: "enc_cachedTokenFile ?pl = Some b"
    using ok p t n by (cases "enc_cachedTokenFile ?pl") (auto simp: writeCachedToken_def Let_def time_Add_def)
  let ?body = "\<lambda>t w. io_try (close_on_error (tmp_Write t (Doc b) w)) (\<lambda>_ w.
      io_try (tmp_Close w) (\<lambda>_ w. let w = snd (tmp_Chmod t 384 w) in Rename t p w))"
  let ?run = "io_try (MkdirAll (path_Dir p) w1) (\<lambda>_ w.
     io_try (CreateTemp (path_Dir p) ''.pia_token.'' ''.tmp'' w) (\<lambda>t w. defer_Remove t (?body t w)))"
  have eq: "writeCachedToken token ttl w = ?run"
    using p t n b by (simp add: writeCachedToken_def Let_def time_Add_def)
  define tmp where "tmp k = temp_name (path_Dir p) ''.pia_token.'' ''.tmp'' k" for k
  obtain k es tm tm' es1 es2 where es: "emits es w1 (snd ?run)"
    "es = EvCreate (tmp k) tm # (EvFill (tmp k) (Doc b) tm' # es1 @ [EvRename (tmp k) p]) @ es2"
    "es1 \<in> {[], [EvChmod (tmp k) 384]}" "list_all (on_temp (tmp k)) es2"
    using temp_file_run [of "\<lambda>t. {EvFill t (Doc b) tm # es @ [EvRename t p] | tm es. es \<in> {[], [EvChmod t 384]}}"
        ?body w1 "path_Dir p" "''.pia_token.''" "''.tmp''", OF tries_fill_and_publish] ok
    unfolding eq tmp_def Let_def by fastforce
  have "tmp k \<noteq> p" unfolding tmp_def by (rule token_temp_not_cache [OF p])
  then have "\<exists>f. w_files (snd ?run) p = Some f \<and> f_content f = Doc b"
    using es replay_on_temp [OF es(4), of p] by (auto simp: emits_def)
  then obtain f where "w_files (snd ?run) p = Some f" "f_content f = Doc b" by blast
  moreover have "evolves w (snd ?run)"
    using emits_evolves [OF quiet_then [OF time_Now_quiet [of w, unfolded n snd_conv] es(1)]] .
  ultimately show thesis using that p t b unfolding eq n fst_conv by blast
qed

lemma not_net_on_temp: "list_all (on_temp t) es \<Longrightarrow> list_all (\<lambda>e. \<not> net_effect e) es"
proof (induction es)
  case (Cons e es)
  then show ?case by (cases e) simp_all
qed simp

lemma writeCachedToken_runs: "runs (\<lambda>e. \<not> net_effect e) w (snd (writeCachedToken token ttl w))"
proof -
  have publish: "runs (\<lambda>e. \<not> net_effect e) v (snd (io_try (MkdirAll (path_Dir p) v) (\<lambda>_ w.
     io_try (CreateTemp (path_Dir p) ''.pia_token.'' ''.tmp'' w) (\<lambda>t w. defer_Remove t
       (io_try (close_on_error (tmp_Write t c w)) (\<lambda>_ w.
        io_try (tmp_Close w) (\<lambda>_ w. let w = snd (tmp_Chmod t m w) in Rename t p w)))))))" for v p c m
    using temp_file_run [of "\<lambda>t. {EvFill t c tm # es @ [EvRename t p] | tm es. es \<in> {[], [EvChmod t m]}}",
        OF tries_fill_and_publish, of v "path_Dir p" "''.pia_token.''" "''.tmp''"]
    by (auto simp: Let_def dest!: not_net_on_temp intro!: emits_runs)
  obtain now v where n: "time_Now w = (now, v)" by (cases "time_Now w")
  have v: "runs (\<lambda>e. \<not> net_effect e) w v" using quiet_runs [OF time_Now_quiet [of w]] by (simp add: n)
  show ?thesis
    unfolding writeCachedToken_def
    by (rule io_try_keeps)
      (auto simp: n v Let_def split: option.splits intro: runs_trans [OF v publish [unfolded Let_def]])
qed

lemma readCachedToken_quiet [frame]: "quiet w (snd (readCachedToken now w))"
proof (cases "getTokenCachePath w")
  case (Ok path)
  with ReadFile_quiet [of w path] show ?thesis
    by (auto simp: readCachedToken_def Let_def split: prod.splits res.splits option.splits)
qed (simp_all add: readCachedToken_def)

text \<open>
  C30: The token cache. A token that was written with success is read back, trimmed and with
  its expiry time, up to 30 seconds before it expires; after that, the cache is a miss. (The
  read itself has to succeed, and the expiry must not be the zero time.)
\<close>

theorem token_cache_roundtrip:
  assumes ok: "fst (writeCachedToken token ttl w) = Ok ()"
    and readable: "shd (w_calls (snd (writeCachedToken token ttl w))) = None"
    and nonzero: "fst (time_Now w) + ttl \<noteq> 0"
  shows "fst (readCachedToken now (snd (writeCachedToken token ttl w))) =
    (if now \<le> fst (time_Now w) + ttl - 30 * second
     then Ok (TrimSpace token, fst (time_Now w) + ttl) else Err no_cached_token)"
proof -
  let ?w = "snd (writeCachedToken token ttl w)"
  let ?pl = "\<lparr>ct_Token = TrimSpace token, ct_ExpiresUTC = fst (time_Now w) + ttl,
           ct_IssuedUTC = fst (time_Now w), ct_Version = 1\<rparr>"
  obtain p f b where p: "getTokenCachePath w = Ok p" "TrimSpace token \<noteq> []"
    "enc_cachedTokenFile ?pl = Some b" "w_files ?w p = Some f" "f_content f = Doc b" "evolves w ?w"
    using writeCachedToken_Ok [OF ok] by metis
  have "ok_cachedTokenFile ?pl"
    using p(3) by (auto simp: enc_cachedTokenFile_def ok_cachedTokenFile_def enc_time_def in64_def split: if_splits)
  with p(3) have dec: "dec_cachedTokenFile b = Some ?pl" by (rule token_json.dec_enc [rotated])
  have "getTokenCachePath ?w = Ok p"
    using p(1,6) getTokenCachePath_static unfolding evolves_def emits_def by metis
  with p dec readable nonzero show ?thesis
    by (auto simp: readCachedToken_def ReadFile_eq json_of_def Let_def time_ops token_skew_def)
qed

theorem token_cache_roundtrip_witness:
  "let w = snd (writeCachedToken '' tok '' (23 * hour) (calm_world hour))
   in fst (readCachedToken (20 * hour) w) = Ok (''tok'', 24 * hour) \<and>
      fst (readCachedToken (24 * hour) w) = Err no_cached_token"
proof -
  let ?r = "writeCachedToken '' tok '' (23 * hour) (calm_world hour)"
  have t: "TrimSpace ''tok '' = ''tok''" by code_simp
  have n: "fst (time_Now (calm_world hour)) = hour" by (simp add: time_Now_def calm_world_def)
  have "TrimSpace ''/app/pia-wg-config'' = ''/app/pia-wg-config''" by code_simp
  then obtain p where p: "getTokenCachePath (calm_world hour) = Ok p"
    by (simp add: getTokenCachePath_def calm_world_def)
  have "fst ?r = Ok () \<and> calm_calls (snd ?r)"
    by (simp add: writeCachedToken_def p t n enc_cachedTokenFile_def enc_time_def json_time_ok_def time_Add_def
        split_beta CreateTemp_def create_temp.simps [of 10000] tmp_Write_def tmp_Chmod_def
        tmp_Close_def Rename_def MkdirAll_def Remove_def close_on_error_def defer_Remove_def
        calm_syscall Let_def)
  then have "fst ?r = Ok ()" "shd (w_calls (snd ?r)) = None" by (simp_all add: calm_calls_shd)
  with token_cache_roundtrip [of "'' tok ''" "23 * hour" "calm_world hour"] show ?thesis
    by (simp add: t n Let_def)
qed

end
