(* ===== verification/TokenFetcher.thy ===== *)
theory TokenFetcher
  imports Pia_Api TokenCache
begin

text \<open>
  pia/token_fetcher.go with the helpers of pia/helpers.go: fetching a token with an external
  curl. The status line, content type and final URL come back in a footer that curl appends
  to the body. Log lines are not modelled.
\<close>

section \<open>Helpers\<close>

text \<open>\<open>None\<close> when no curl was configured (\<^verbatim>\<open>ok = false\<close>).\<close>

definition findOpenSSLCurl :: "string \<Rightarrow> world \<Rightarrow> string option res" where
  "findOpenSSLCurl curlPath w =
     (let path = TrimSpace curlPath in
      if path = [] then Ok None
      else case w_lookpath w path of
             Inl _ \<Rightarrow> Err \<lparr>emsg = ''OpenSSL curl path not set or not found: '' @ quote path @ '' not found in PATH or filesystem'',
                           chain = [ErrOpenSSLCurlMissing]\<rparr>
           | Inr resolved \<Rightarrow> Ok (Some resolved))"

definition sanitizeBody :: "string \<Rightarrow> string" where
  "sanitizeBody body =
     (let s = TrimSpace body;
          s = ReplaceAll s [CHR 0x0D, CHR 0x0A] [CHR 0x0A];
          s = ReplaceAll s [CHR 0x0A] '' | ''
      in if length s > 512 then take 512 s @ '' ...[truncated]''
         else if s = [] then ''<empty>'' else s)"

section \<open>Curl\<close>

definition piaTokenURL :: string where
  "piaTokenURL = ''https://www.privateinternetaccess.com/api/client/v2/token''"

record curlDebug =
  cd_HTTPCode :: string
  cd_ContentType :: string
  cd_FinalURL :: string

definition zero_curlDebug :: curlDebug where
  "zero_curlDebug = \<lparr>cd_HTTPCode = [], cd_ContentType = [], cd_FinalURL = []\<rparr>"

record curlResult =
  cr_RawBody :: string
  cr_Debug :: curlDebug
  cr_ExitError :: "goerr option"

fun first_line_value :: "string \<Rightarrow> string list \<Rightarrow> string" where
  "first_line_value key [] = []"
| "first_line_value key (line # lines) =
     (if prefix key line then TrimSpace (trim_prefix key line) else first_line_value key lines)"

definition extractFooterValue :: "string \<Rightarrow> string \<Rightarrow> string" where
  "extractFooterValue footer key = first_line_value key (split_on (CHR 0x0A) footer)"

definition splitCurlBodyAndDebug :: "string \<Rightarrow> string \<times> curlDebug" where
  "splitCurlBodyAndDebug out =
     (case last_index (CHR 0x0A # ''http_code='') out of
        None \<Rightarrow> (out, zero_curlDebug)
      | Some httpIdx \<Rightarrow>
          (let body = trim_right [CHR 0x0A] (take httpIdx out); footer = drop httpIdx out
           in (body, \<lparr>cd_HTTPCode = extractFooterValue footer ''http_code='',
                      cd_ContentType = extractFooterValue footer ''content_type='',
                      cd_FinalURL = extractFooterValue footer ''final_url=''\<rparr>)))"

definition curl_args :: "string \<Rightarrow> string \<Rightarrow> string list" where
  "curl_args username password =
     [''-sS'', ''-L'', ''--request'', ''POST'', ''-H'', ''Accept: application/json'',
      ''--form'', ''username='' @ username, ''--form'', ''password='' @ password,
      ''-w'', [CHR 0x0A] @ ''http_code=%{http_code}'' @ [CHR 0x0A] @ ''content_type=%{content_type}'' @
              [CHR 0x0A] @ ''final_url=%{url_effective}'' @ [CHR 0x0A],
      piaTokenURL]"

definition runCurlTokenRequest :: "string \<Rightarrow> string \<Rightarrow> string \<Rightarrow> world \<Rightarrow> curlResult \<times> world" where
  "runCurlTokenRequest curlPath username password w =
     (let (r, w) = exec_Run (curlPath # curl_args username password) None w in
      case ex_err r of
        Some e \<Rightarrow>
          (\<lparr>cr_RawBody = ex_stdout r @ (if ex_stderr r \<noteq> [] then [CHR 0x0A] @ ''---stderr---'' @ [CHR 0x0A] @ ex_stderr r else []),
            cr_Debug = zero_curlDebug, cr_ExitError = Some e\<rparr>, w)
      | None \<Rightarrow>
          (let (body, dbg) = splitCurlBodyAndDebug (ex_stdout r)
           in (\<lparr>cr_RawBody = body, cr_Debug = dbg, cr_ExitError = None\<rparr>, w)))"

definition token_denied :: "string \<Rightarrow> goerr" where
  "token_denied detail = \<lparr>emsg = ''PIA token denied'' @ detail, chain = [ErrTokenDenied]\<rparr>"

definition parseTokenFromCurlOutput :: "string \<Rightarrow> world \<Rightarrow> string res" where
  "parseTokenFromCurlOutput body w =
     (let trim = TrimSpace body in
      if trim = [] then Err (token_denied '': empty response'')
      else if prefix ''HTTP '' trim \<or> contains ''access denied'' (ToLower trim) then Err (token_denied [])
      else case Option.bind (w_json w trim) (field dec_string [] ''token'') of
             None \<Rightarrow> Err (token_denied '': invalid JSON'')
           | Some decoded \<Rightarrow>
               (let token = TrimSpace decoded in
                if token = [] then Err (token_denied []) else Ok token))"

definition findSystemCurl :: "world \<Rightarrow> string option" where
  "findSystemCurl w =
     (let try = (\<lambda>name k. case w_lookpath w name of
                   Inr path \<Rightarrow> if TrimSpace path \<noteq> [] then Some path else k
                 | Inl _ \<Rightarrow> k)
      in try ''curl'' (try ''curl.exe'' None))"

definition too_many_attempts :: goerr where
  "too_many_attempts = \<lparr>emsg = ''PIA token endpoint rate-limited (too_many_attempts)'', chain = [ErrTooManyAttempts]\<rparr>"

definition openSSLCurlEnvHint :: string where "openSSLCurlEnvHint = ''CURL_PATH''"

definition curl_denied :: "string \<Rightarrow> curlResult \<Rightarrow> goerr" where
  "curl_denied name r = errors_New (name @ '' token request denied: http_code='' @ cd_HTTPCode (cr_Debug r) @
     '' content_type='' @ cd_ContentType (cr_Debug r) @ '' final_url='' @ cd_FinalURL (cr_Debug r) @
     '' body='' @ sanitizeBody (cr_RawBody r))"

text \<open>The loop over the attempts; \<open>None\<close> is an attempt whose curl is missing.\<close>

fun try_curls :: "PIAClient \<Rightarrow> goerr option \<Rightarrow> (string \<times> string option) list \<Rightarrow> world \<Rightarrow> string res \<times> world" where
  "try_curls p lastErr [] w =
     (case lastErr of
        None \<Rightarrow> (Err \<lparr>emsg = ''curl not found (install curl or set '' @ openSSLCurlEnvHint @ '')'', chain = [ErrCurlNotFound]\<rparr>, w)
      | Some e \<Rightarrow> (Err e, w))"
| "try_curls p lastErr ((name, None) # rest) w = try_curls p lastErr rest w"
| "try_curls p lastErr ((name, Some path) # rest) w =
     (let (r, w) = runCurlTokenRequest path (pc_username p) (pc_password p) w in
      case cr_ExitError r of
        Some e \<Rightarrow> try_curls p (Some (errors_Wrap (name @ '' failed'') e)) rest w
      | None \<Rightarrow>
          (case parseTokenFromCurlOutput (cr_RawBody r) w of
             Ok token \<Rightarrow> (Ok token, w)
           | _ \<Rightarrow>
               (if TrimSpace (cd_HTTPCode (cr_Debug r)) = ''429'' \<or> isTooManyAttempts (cr_RawBody r)
                then (Err too_many_attempts, w)
                else try_curls p (Some (curl_denied name r)) rest w)))"

definition fetchTokenViaCurl :: "PIAClient \<Rightarrow> world \<Rightarrow> string res \<times> world" where
  "fetchTokenViaCurl p w =
     (case findOpenSSLCurl (pc_curlPath p) w of
        Err e \<Rightarrow> (Err (errors_Wrap ''token request failed (curl)'' e), w)
      | Panic m \<Rightarrow> (Panic m, w)
      | Ok openSSLCurl \<Rightarrow>
          try_curls p None [(''system curl'', findSystemCurl w), (''OpenSSL curl'', openSSLCurl)] w)"

section \<open>The footer\<close>

text \<open>What curl prints after the body, for the format above.\<close>

definition curl_footer :: "string \<Rightarrow> string \<Rightarrow> string \<Rightarrow> string" where
  "curl_footer code ctype url =
     [CHR 0x0A] @ ''http_code='' @ code @ [CHR 0x0A] @ ''content_type='' @ ctype @ [CHR 0x0A] @ ''final_url='' @ url @ [CHR 0x0A]"

lemma footer_lines:
  assumes "CHR 0x0A \<notin> set code" and "CHR 0x0A \<notin> set ctype" and "CHR 0x0A \<notin> set url"
  shows "split_on (CHR 0x0A) (curl_footer code ctype url) =
    [[], ''http_code='' @ code, ''content_type='' @ ctype, ''final_url='' @ url, []]"
proof -
  have "curl_footer code ctype url = join_with (CHR 0x0A)
      [[], ''http_code='' @ code, ''content_type='' @ ctype, ''final_url='' @ url, []]"
    by (simp add: curl_footer_def)
  then show ?thesis by (simp only:) (rule split_on_join_with, use assms in simp_all)
qed

lemma footer_index:
  assumes "CHR 0x0A \<notin> set code" and "CHR 0x0A \<notin> set ctype" and "CHR 0x0A \<notin> set url"
  shows "last_index (CHR 0x0A # ''http_code='') (body @ curl_footer code ctype url) = Some (length body)"
proof -
  let ?k = "CHR 0x0A # ''http_code=''"
  let ?b = "code @ [CHR 0x0A] @ ''content_type='' @ ctype @ [CHR 0x0A] @ ''final_url='' @ url @ [CHR 0x0A]"
  have "\<not> contains ?k (url @ [CHR 0x0A])" using assms(3) by (simp add: contains_after_line)
  then have "\<not> contains ?k (ctype @ [CHR 0x0A] @ ''final_url='' @ url @ [CHR 0x0A])"
    using assms(2) by (simp add: contains_after_line)
  then have "\<not> contains ?k ?b" using assms(1) by (simp add: contains_after_line)
  then have "\<not> contains ?k (tl (?k @ ?b))" by simp
  from last_index_here [OF _ this, of body] show ?thesis by (simp add: curl_footer_def)
qed

text \<open>
  C34: The footer curl appends is separated from the body whatever the body is, also when
  the body itself contains lines that look like the footer: the response cannot forge the
  status code the rate-limit check looks at. Body and values are trimmed as the code says.
\<close>

theorem curl_footer_roundtrip:
  assumes "CHR 0x0A \<notin> set code" and "CHR 0x0A \<notin> set ctype" and "CHR 0x0A \<notin> set url"
  shows "splitCurlBodyAndDebug (body @ curl_footer code ctype url) =
    (trim_right [CHR 0x0A] body,
     \<lparr>cd_HTTPCode = TrimSpace code, cd_ContentType = TrimSpace ctype, cd_FinalURL = TrimSpace url\<rparr>)"
  unfolding splitCurlBodyAndDebug_def footer_index [OF assms]
  by (simp add: Let_def extractFooterValue_def footer_lines [OF assms] trim_prefix_def)

theorem curl_footer_roundtrip_witness:
  "splitCurlBodyAndDebug ((''{}'' @ [CHR 0x0A] @ ''http_code=200'' @ [CHR 0x0A]) @ curl_footer ''429'' ''text/html'' ''https://x/'') =
    (''{}'' @ [CHR 0x0A] @ ''http_code=200'',
     \<lparr>cd_HTTPCode = ''429'', cd_ContentType = ''text/html'', cd_FinalURL = ''https://x/''\<rparr>)"
proof -
  have t: "TrimSpace ''429'' = ''429''" "TrimSpace ''text/html'' = ''text/html''" "TrimSpace ''https://x/'' = ''https://x/''"
    "trim_right [CHR 0x0A] (''{}'' @ [CHR 0x0A] @ ''http_code=200'' @ [CHR 0x0A]) = ''{}'' @ [CHR 0x0A] @ ''http_code=200''"
    by code_simp+
  show ?thesis
    using curl_footer_roundtrip [of "''429''" "''text/html''" "''https://x/''" "''{}'' @ [CHR 0x0A] @ ''http_code=200'' @ [CHR 0x0A]"]
    by (simp only: t) simp
qed

section \<open>The attempts\<close>

lemma runCurl_emits:
  "\<exists>argv. emits [EvExec argv None] w (snd (runCurlTokenRequest path u pw w))"
  using exec_Run_emits [of "path # curl_args u pw" None w]
  by (auto simp: runCurlTokenRequest_def Let_def split: prod.splits option.splits)

lemma try_curls_runs: "runs exec_effect w (snd (try_curls p lastErr attempts w))"
proof (induction p lastErr attempts w rule: try_curls.induct)
  case (3 p lastErr name path rest w)
  obtain r v where rv: "runCurlTokenRequest path (pc_username p) (pc_password p) w = (r, v)" by force
  with runCurl_emits [of w path "pc_username p" "pc_password p"] have "runs exec_effect w v"
    by (auto intro: emits_runs)
  with 3 rv show ?case
    by (auto split: res.splits option.splits intro: runs_trans simp del: runs_refl)
qed (auto split: option.splits)

lemma try_curls_no_panic: "fst (try_curls p lastErr attempts w) \<noteq> Panic m"
proof (induction attempts arbitrary: lastErr w)
  case (Cons a rest)
  then show ?case
    by (cases a; cases "snd a") (auto simp: Let_def split: res.splits option.splits prod.splits)
qed (auto split: option.splits)

lemma findOpenSSLCurl_no_panic [simp]: "findOpenSSLCurl path w \<noteq> Panic m"
  by (auto simp: findOpenSSLCurl_def Let_def split: sum.splits)

lemma fetchTokenViaCurl_runs: "runs exec_effect w (snd (fetchTokenViaCurl p w))"
  by (auto simp: fetchTokenViaCurl_def try_curls_runs split: res.splits)

lemma fetchTokenViaCurl_no_panic [simp]: "fst (fetchTokenViaCurl p w) \<noteq> Panic m"
  by (auto simp: fetchTokenViaCurl_def try_curls_no_panic split: res.splits)

end
