(* ===== verification/Health.thy ===== *)
theory Health
  imports World
begin

text \<open>
  The tunnel check of pia/health.go: \<^verbatim>\<open>CheckTunnelViaControlServer\<close> asks the control
  server of the VPN container for its status and, when that says "running", for the public
  address; \<^verbatim>\<open>ParseEndpointFromConfig\<close> reads the peer's endpoint from a WireGuard
  configuration. \<^verbatim>\<open>RegistrationAge\<close>, of the same file, is in theory \<open>Lifetime\<close>.
\<close>

record TunnelState =
  ts_Healthy :: bool
  ts_Status :: string
  ts_PublicIPKnown :: bool
  ts_PublicIPPresent :: bool
  ts_Endpoint :: string
  ts_Err :: "goerr option"

definition zero_TunnelState :: TunnelState where
  "zero_TunnelState = \<lparr>ts_Healthy = False, ts_Status = [], ts_PublicIPKnown = False,
     ts_PublicIPPresent = False, ts_Endpoint = [], ts_Err = None\<rparr>"

section \<open>The requests\<close>

text \<open>A response with one text field that matters, such as \<^verbatim>\<open>gluetunStatusResponse\<close>.\<close>

definition dec_field :: "string \<Rightarrow> json \<Rightarrow> string option" where
  "dec_field key j = Option.bind (json_members j) (obj_get dec_string key [])"

definition getJSON :: "(json \<Rightarrow> 'a option) \<Rightarrow> http_client \<Rightarrow> string \<Rightarrow> world \<Rightarrow> 'a res \<times> world" where
  "getJSON dec client url w =
     io_try (http_NewRequest ''GET'' url w, w) (\<lambda>req w.
     io_try (http_Do client req w) (\<lambda>resp w.
     if hr_code resp \<noteq> 200
     then (Err (errors_New (''control server '' @ url @ '' returned HTTP '' @ Itoa (hr_code resp))), w)
     else (body_Decode dec resp w, w)))"

definition fetchGluetunStatus :: "http_client \<Rightarrow> string \<Rightarrow> world \<Rightarrow> string res \<times> world" where
  "fetchGluetunStatus client url w =
     io_try (getJSON (dec_field ''status'') client url w) (\<lambda>decoded w.
     let status = TrimSpace decoded in
     if status = [] then (Err (errors_New (''control server '' @ url @ '' returned an empty status'')), w)
     else (Ok status, w))"

definition fetchGluetunPublicIP :: "http_client \<Rightarrow> string \<Rightarrow> world \<Rightarrow> string res \<times> world" where
  "fetchGluetunPublicIP client url w =
     io_try (getJSON (dec_field ''public_ip'') client url w) (\<lambda>decoded w.
     (Ok (TrimSpace decoded), w))"

definition no_public_ip :: goerr where
  "no_public_ip = errors_New (''gluetun reports VPN status '' @ quote ''running'' @
     '' but has no public IP (tunnel is not passing traffic)'')"

definition no_usable_status :: goerr where
  "no_usable_status = errors_New ''gluetun control server did not return a usable VPN status on /v1/vpn/status or /v1/openvpn/status''"

text \<open>The body of the loop over the two status paths, once one of them has answered.\<close>

definition judge_status :: "http_client \<Rightarrow> string \<Rightarrow> string \<Rightarrow> world \<Rightarrow> TunnelState \<times> world" where
  "judge_status client base status w =
     (let state = zero_TunnelState\<lparr>ts_Status := status\<rparr> in
      if \<not> EqualFold status ''running''
      then (state\<lparr>ts_Err := Some (errors_New (''gluetun reports VPN status '' @ quote status))\<rparr>, w)
      else case fetchGluetunPublicIP client (base @ ''/v1/publicip/ip'') w of
             (Ok ip, w) \<Rightarrow>
               (let state = state\<lparr>ts_PublicIPKnown := True, ts_PublicIPPresent := ip \<noteq> []\<rparr> in
                if ip = [] then (state\<lparr>ts_Err := Some no_public_ip\<rparr>, w)
                else (state\<lparr>ts_Healthy := True\<rparr>, w))
           | (_, w) \<Rightarrow> (state\<lparr>ts_Healthy := True\<rparr>, w))"

fun try_status_paths :: "http_client \<Rightarrow> string \<Rightarrow> string list \<Rightarrow> world \<Rightarrow> TunnelState \<times> world" where
  "try_status_paths client base [] w = (zero_TunnelState\<lparr>ts_Err := Some no_usable_status\<rparr>, w)"
| "try_status_paths client base (path # paths) w =
     (case fetchGluetunStatus client (base @ path) w of
        (Ok status, w) \<Rightarrow> judge_status client base status w
      | (_, w) \<Rightarrow> try_status_paths client base paths w)"

definition status_paths :: "string list" where
  "status_paths = [''/v1/vpn/status'', ''/v1/openvpn/status'']"

definition CheckTunnelViaControlServer :: "string \<Rightarrow> duration \<Rightarrow> world \<Rightarrow> TunnelState \<times> world" where
  "CheckTunnelViaControlServer controlURL timeout w =
     (let base = trim_right ''/'' (TrimSpace controlURL) in
      if base = [] then (zero_TunnelState\<lparr>ts_Err := Some (errors_New ''gluetun control server URL is empty'')\<rparr>, w)
      else let timeout = (if timeout \<le> 0 then 5 * second else timeout) in
           try_status_paths \<lparr>hc_transport = DefaultTransport, hc_timeout = timeout\<rparr> base status_paths w)"

section \<open>The endpoint in a configuration\<close>

fun find_endpoint :: "string list \<Rightarrow> string" where
  "find_endpoint [] = []"
| "find_endpoint (line # lines) =
     (let trimmed = TrimSpace line in
      if prefix ''endpoint'' (ToLower trimmed)
      then case split_first CHR ''='' trimmed of
             (_, Some v) \<Rightarrow> TrimSpace v
           | (_, None) \<Rightarrow> find_endpoint lines
      else find_endpoint lines)"

text \<open>
  A file the program itself wrote as an indented JSON document has no line that starts with
  the key: its lines start with a brace, a bracket, a quote or a scalar.
\<close>

definition ParseEndpointFromConfig :: "string \<Rightarrow> world \<Rightarrow> string res \<times> world" where
  "ParseEndpointFromConfig configPath w =
     io_try (ReadFile configPath w) (\<lambda>data w.
     (Ok (case data of Text s \<Rightarrow> find_endpoint (split_on (CHR 0x0A) s) | Doc _ \<Rightarrow> []), w))"

section \<open>What the check does and concludes\<close>

lemma getJSON_net_run [frame]: "net_run w (snd (getJSON dec client url w))"
  unfolding getJSON_def by (intro net_run_io_try) (simp_all add: frame)

lemma fetchGluetunStatus_net_run [frame]: "net_run w (snd (fetchGluetunStatus client url w))"
  unfolding fetchGluetunStatus_def by (intro net_run_io_try) (simp_all add: frame Let_def)

lemma fetchGluetunPublicIP_net_run [frame]: "net_run w (snd (fetchGluetunPublicIP client url w))"
  unfolding fetchGluetunPublicIP_def by (intro net_run_io_try) (simp_all add: frame)

lemma judge_status_net_run [frame]: "net_run w (snd (judge_status client base status w))"
  using fetchGluetunPublicIP_net_run [of w client "base @ ''/v1/publicip/ip''"]
  by (auto simp: judge_status_def Let_def split: res.splits prod.splits)

lemma try_status_paths_net_run [frame]: "net_run w (snd (try_status_paths client base paths w))"
proof (induction paths arbitrary: w)
  case (Cons path paths)
  obtain r v where f: "fetchGluetunStatus client (base @ path) w = (r, v)" by force
  with fetchGluetunStatus_net_run [of w client "base @ path"] have "net_run w v" by simp
  with f Cons.IH [of v] judge_status_net_run [of v client base] show ?case
    by (cases r) (auto intro: net_run_trans)
qed simp

lemma CheckTunnel_net_run [frame]: "net_run w (snd (CheckTunnelViaControlServer url timeout w))"
  by (simp add: CheckTunnelViaControlServer_def Let_def frame)

text \<open>The verdict, as a function of what the check learned.\<close>

definition verdict_ok :: "TunnelState \<Rightarrow> bool" where
  "verdict_ok s \<longleftrightarrow>
     ts_Healthy s = (ts_Err s = None) \<and>
     ts_Healthy s = (EqualFold (ts_Status s) ''running'' \<and> (ts_PublicIPKnown s \<longrightarrow> ts_PublicIPPresent s)) \<and>
     (ts_PublicIPPresent s \<longrightarrow> ts_PublicIPKnown s) \<and> ts_Endpoint s = []"

lemma judge_status_verdict: "verdict_ok (fst (judge_status client base status w))"
  by (auto simp: judge_status_def verdict_ok_def zero_TunnelState_def Let_def
      split: res.splits prod.splits)

lemma not_running_empty: "\<not> EqualFold [] ''running''"
  by (simp add: EqualFold_def)

lemma no_status_verdict: "verdict_ok (zero_TunnelState\<lparr>ts_Err := Some e\<rparr>)"
  by (simp add: verdict_ok_def zero_TunnelState_def not_running_empty)

lemma try_status_paths_verdict: "verdict_ok (fst (try_status_paths client base paths w))"
proof (induction paths arbitrary: w)
  case (Cons path paths)
  then show ?case by (auto simp: judge_status_verdict split: res.splits prod.splits)
qed (simp add: no_status_verdict)

lemma CheckTunnel_verdict: "verdict_ok (fst (CheckTunnelViaControlServer url timeout w))"
  by (simp add: CheckTunnelViaControlServer_def Let_def try_status_paths_verdict no_status_verdict)

lemma CheckTunnel_healthy_iff:
  "ts_Healthy (fst (CheckTunnelViaControlServer url timeout w)) \<longleftrightarrow>
   ts_Err (fst (CheckTunnelViaControlServer url timeout w)) = None"
  using CheckTunnel_verdict [of url timeout w] by (simp add: verdict_ok_def)

text \<open>
  What the answers say, read directly: an answer counts when it is a response with code 200
  whose body decodes.
\<close>

definition reply :: "(json \<Rightarrow> 'a option) \<Rightarrow> world \<Rightarrow> goerr + http_response \<Rightarrow> 'a option" where
  "reply dec w a =
     (case a of
        Inl _ \<Rightarrow> None
      | Inr r \<Rightarrow> if hr_code r = 200 then Option.bind (w_json_first w (hr_body r)) dec else None)"

definition reported_status :: "world \<Rightarrow> goerr + http_response \<Rightarrow> string option" where
  "reported_status w a =
     (case reply (dec_field ''status'') w a of
        None \<Rightarrow> None
      | Some s \<Rightarrow> if TrimSpace s = [] then None else Some (TrimSpace s))"

definition address_missing :: "world \<Rightarrow> goerr + http_response \<Rightarrow> bool" where
  "address_missing w a \<longleftrightarrow>
     (case reply (dec_field ''public_ip'') w a of None \<Rightarrow> False | Some ip \<Rightarrow> TrimSpace ip = [])"

definition passes_traffic :: "world \<Rightarrow> string \<Rightarrow> goerr + http_response \<Rightarrow> bool" where
  "passes_traffic w status a \<longleftrightarrow> EqualFold status ''running'' \<and> \<not> address_missing w a"

lemma getJSON_reply:
  assumes "\<And>u. w_url_error w u = None"
  shows "\<exists>e. getJSON dec client url w =
    ((case reply dec w (shd (w_http w)) of None \<Rightarrow> Err e | Some x \<Rightarrow> Ok x),
     emit (EvHttp client \<lparr>hq_method = ''GET'', hq_url = url, hq_auth = None\<rparr>) (w\<lparr>w_http := stl (w_http w)\<rparr>))"
  using assms
  by (auto simp: getJSON_def http_NewRequest_def http_Do_def reply_def body_Decode_def emit_def
      split: sum.splits option.splits)

lemma reply_cong:
  "w_json_first w' = w_json_first w \<Longrightarrow> reply dec w' = reply dec w"
  "w_json_first w' = w_json_first w \<Longrightarrow> reported_status w' = reported_status w"
  "w_json_first w' = w_json_first w \<Longrightarrow> passes_traffic w' = passes_traffic w"
  by (auto simp: fun_eq_iff reply_def reported_status_def passes_traffic_def address_missing_def split: sum.splits)

lemma fetchGluetunStatus_reply:
  assumes "\<And>u. w_url_error w u = None"
  obtains e w' where "fetchGluetunStatus client url w =
      ((case reported_status w (shd (w_http w)) of None \<Rightarrow> Err e | Some s \<Rightarrow> Ok s), w')"
    and "w_http w' = stl (w_http w)" "w_json_first w' = w_json_first w" "\<And>u. w_url_error w' u = None"
proof -
  obtain e where "getJSON (dec_field ''status'') client url w = ((case reply (dec_field ''status'') w (shd (w_http w)) of None \<Rightarrow> Err e | Some x \<Rightarrow> Ok x),
     emit (EvHttp client \<lparr>hq_method = ''GET'', hq_url = url, hq_auth = None\<rparr>) (w\<lparr>w_http := stl (w_http w)\<rparr>))"
    using getJSON_reply [OF assms] by blast
  then have "\<exists>e. fetchGluetunStatus client url w =
      ((case reported_status w (shd (w_http w)) of None \<Rightarrow> Err e | Some s \<Rightarrow> Ok s),
       emit (EvHttp client \<lparr>hq_method = ''GET'', hq_url = url, hq_auth = None\<rparr>) (w\<lparr>w_http := stl (w_http w)\<rparr>))"
    by (auto simp: fetchGluetunStatus_def reported_status_def Let_def split: option.splits)
  with assms show thesis by (auto simp: emit_def intro: that)
qed

lemma judge_status_reply:
  assumes "\<And>u. w_url_error w u = None"
  shows "ts_Healthy (fst (judge_status client base status w)) = passes_traffic w status (shd (w_http w))"
proof -
  obtain e w' where "getJSON (dec_field ''public_ip'') client (base @ ''/v1/publicip/ip'') w =
      ((case reply (dec_field ''public_ip'') w (shd (w_http w)) of None \<Rightarrow> Err e | Some x \<Rightarrow> Ok x), w')"
    using getJSON_reply [OF assms] by blast
  then show ?thesis
    by (auto simp: judge_status_def fetchGluetunPublicIP_def passes_traffic_def address_missing_def
        zero_TunnelState_def Let_def split: option.splits)
qed

text \<open>
  C22: The decision of the tunnel check, in terms of the answers of the control server. The
  status is the one of /v1/vpn/status or, if that gives none, of /v1/openvpn/status; the
  tunnel is healthy exactly when that status is "running" (in any letter case) and the next
  answer does not show an empty public address. So a peer that was silently dropped, where
  the status still reads "running" but there is no address, is unhealthy; an address that
  cannot be read never makes a failure up; and with no usable status the tunnel is unhealthy.
  A verdict is unhealthy exactly when it carries an error, and the check changes no file.
\<close>

theorem tunnel_check_decides:
  assumes url: "trim_right ''/'' (TrimSpace url) \<noteq> []" and ok: "\<And>u. w_url_error w u = None"
    and check: "CheckTunnelViaControlServer url timeout w = (s, w')"
  shows "ts_Healthy s =
      (case reported_status w (w_http w !! 0) of
         Some status \<Rightarrow> passes_traffic w status (w_http w !! 1)
       | None \<Rightarrow>
           (case reported_status w (w_http w !! 1) of
              Some status \<Rightarrow> passes_traffic w status (w_http w !! 2)
            | None \<Rightarrow> False)) \<and>
    ts_Healthy s = (ts_Err s = None) \<and> w_files w' = w_files w"
proof (intro conjI)
  define client where "client = \<lparr>hc_transport = DefaultTransport, hc_timeout = (if timeout \<le> 0 then 5 * second else timeout)\<rparr>"
  define base where "base = trim_right ''/'' (TrimSpace url)"
  have s: "s = fst (try_status_paths client base status_paths w)"
    using check url unfolding CheckTunnelViaControlServer_def Let_def client_def base_def
    by (metis fst_conv)
  obtain e v where f1: "fetchGluetunStatus client (base @ ''/v1/vpn/status'') w =
      ((case reported_status w (shd (w_http w)) of None \<Rightarrow> Err e | Some s \<Rightarrow> Ok s), v)"
    and v: "w_http v = stl (w_http w)" "w_json_first v = w_json_first w" "\<And>x. w_url_error v x = None"
    using fetchGluetunStatus_reply [OF ok] by metis
  obtain e' u where f2: "fetchGluetunStatus client (base @ ''/v1/openvpn/status'') v =
      ((case reported_status v (shd (w_http v)) of None \<Rightarrow> Err e' | Some s \<Rightarrow> Ok s), u)"
    and u: "w_http u = stl (w_http v)" "w_json_first u = w_json_first v" "\<And>x. w_url_error u x = None"
    using fetchGluetunStatus_reply [OF v(3)] by metis
  have uw: "w_json_first u = w_json_first w" using u v by simp
  show "ts_Healthy s =
      (case reported_status w (w_http w !! 0) of
         Some status \<Rightarrow> passes_traffic w status (w_http w !! 1)
       | None \<Rightarrow> (case reported_status w (w_http w !! 1) of
              Some status \<Rightarrow> passes_traffic w status (w_http w !! 2)
            | None \<Rightarrow> False))"
    unfolding s status_paths_def
    using judge_status_reply [of v client base, OF v(3)] judge_status_reply [of u client base, OF u(3)]
    by (simp add: f1 f2 v(1) u(1) reply_cong [OF v(2)] reply_cong [OF uw] zero_TunnelState_def numeral_2_eq_2
        split: option.splits)
  show "ts_Healthy s = (ts_Err s = None)"
    using CheckTunnel_healthy_iff [of url timeout w] check by simp
  show "w_files w' = w_files w"
    using net_runD [OF CheckTunnel_net_run [of w url timeout]] check by simp
qed

text \<open>A silent eviction: "running", and an empty address.\<close>

definition evicted_world :: world where
  "evicted_world = (calm_world 1)\<lparr>
     w_http := Inr (calm_response\<lparr>hr_body := ''s''\<rparr>) ## Inr (calm_response\<lparr>hr_body := ''p''\<rparr>) ## sconst (Inr calm_response),
     w_json_first := (\<lambda>t. if t = ''s'' then Some (JObj [(''status'', JStr ''running'')])
                          else if t = ''p'' then Some (JObj [(''public_ip'', JStr [])]) else None)\<rparr>"

theorem tunnel_check_decides_witness:
  "\<not> ts_Healthy (fst (CheckTunnelViaControlServer ''http://gluetun:8000/'' 0 evicted_world))"
proof -
  have t: "TrimSpace ''http://gluetun:8000/'' = ''http://gluetun:8000/''"
    by code_simp
  have "\<not> passes_traffic evicted_world ''running'' (w_http evicted_world !! 1)"
    and "reported_status evicted_world (w_http evicted_world !! 0) = Some ''running''"
  proof -
    have "TrimSpace ''running'' = ''running''" by code_simp
    then show "\<not> passes_traffic evicted_world ''running'' (w_http evicted_world !! 1)"
      and "reported_status evicted_world (w_http evicted_world !! 0) = Some ''running''"
      by (simp_all add: passes_traffic_def address_missing_def reported_status_def reply_def
          evicted_world_def calm_response_def dec_field_def)
  qed
  moreover have "w_url_error evicted_world u = None" for u
    by (simp add: evicted_world_def calm_world_def)
  ultimately show ?thesis
    using tunnel_check_decides [of "''http://gluetun:8000/''" evicted_world 0, OF _ _ surjective_pairing]
    by (simp add: t trim_right_def)
qed

end
