(* ===== verification/WgConfig.thy ===== *)
theory WgConfig
  imports Pia_Api Health Atomic_Write
begin

text \<open>
  The configuration generator of pia/wg.go: get a token, make a key pair, register the
  public key, and fill in the template. The locale \<open>wg_client\<close> states what the generator
  relies on of its client, and \<open>PiaClient\<close> interprets it.
\<close>

section \<open>Data\<close>

datatype IPv6Mode = IPv6ModeOn | IPv6ModeOff | IPv6ModeKill

record PIAWgGeneratorConfig =
  gc_Verbose :: bool
  gc_ServerName :: bool
  gc_PrivateKey :: string
  gc_PublicKey :: string
  gc_IPv6Mode :: IPv6Mode

record 'c PIAWgGenerator =
  gen_pia :: "'c PIAWgClient"
  gen_verbose :: bool
  gen_serverName :: bool
  gen_privatekey :: string
  gen_publickey :: string
  gen_ipv6Mode :: IPv6Mode

record templateConfig =
  tc_Address :: string
  tc_AllowedIPs :: string
  tc_DNS :: string
  tc_Endpoint :: string
  tc_EndpointPort :: int
  tc_PrivateKey :: string
  tc_PublicKey :: string
  tc_PersistentKeepalive :: string
  tc_ServerCommonName :: string
  tc_PostUp :: string
  tc_PostDown :: string

record GenerateResult =
  gr_Config :: string
  gr_Key :: AddKeyResult

definition NewPIAWgGenerator :: "'c PIAWgClient \<Rightarrow> PIAWgGeneratorConfig \<Rightarrow> 'c PIAWgGenerator" where
  "NewPIAWgGenerator pia config =
     \<lparr>gen_pia = pia, gen_verbose = gc_Verbose config, gen_serverName = gc_ServerName config,
      gen_privatekey = gc_PrivateKey config, gen_publickey = gc_PublicKey config,
      gen_ipv6Mode = gc_IPv6Mode config\<rparr>"

section \<open>The template\<close>

text \<open>The template, filled in: a dash in an action trims the white space before it.\<close>

abbreviation nl :: string where "nl \<equiv> [CHR 0x0A]"

definition wireguardConfigTemplate :: "templateConfig \<Rightarrow> string" where
  "wireguardConfigTemplate t =
     ''[Interface]'' @ nl @
     ''PrivateKey = '' @ tc_PrivateKey t @ nl @
     ''Address = '' @ tc_Address t @ nl @
     ''DNS = '' @ tc_DNS t @
     (if tc_PostUp t \<noteq> []
      then nl @ ''PostUp = '' @ tc_PostUp t @ nl @ ''PostDown = '' @ tc_PostDown t
      else []) @ nl @
     ''[Peer]'' @ nl @
     ''PublicKey = '' @ tc_PublicKey t @ nl @
     ''AllowedIPs = '' @ tc_AllowedIPs t @ nl @
     ''Endpoint = '' @ tc_Endpoint t @ '':'' @ Itoa (tc_EndpointPort t) @ nl @
     ''PersistentKeepalive = '' @ tc_PersistentKeepalive t @
     (if tc_ServerCommonName t \<noteq> []
      then nl @ ''# ServerCommonName = '' @ tc_ServerCommonName t
      else [])"

section \<open>The generator\<close>

definition generateKeys :: "'c PIAWgGenerator \<Rightarrow> world \<Rightarrow> (string \<times> string) res \<times> world" where
  "generateKeys p w =
     (if gen_privatekey p \<noteq> [] \<and> gen_publickey p \<noteq> [] then (Ok (gen_privatekey p, gen_publickey p), w)
      else io_wrap (errors_Wrap ''Failed To Generate Private Key'') (wg_GenerateKey w))"

definition allowedIPs_of :: "IPv6Mode \<Rightarrow> string" where
  "allowedIPs_of m = (case m of IPv6ModeOff \<Rightarrow> ''0.0.0.0/0'' | _ \<Rightarrow> ''0.0.0.0/0, ::/0'')"

definition postUp_of :: "IPv6Mode \<Rightarrow> string" where
  "postUp_of m = (case m of IPv6ModeKill \<Rightarrow> ''ip6tables -I OUTPUT ! -o %i -j REJECT'' | _ \<Rightarrow> [])"

definition postDown_of :: "IPv6Mode \<Rightarrow> string" where
  "postDown_of m = (case m of IPv6ModeKill \<Rightarrow> ''ip6tables -D OUTPUT ! -o %i -j REJECT'' | _ \<Rightarrow> [])"

text \<open>The checks and the template, once the name of the server is known.\<close>

definition config_of :: "IPv6Mode \<Rightarrow> string \<Rightarrow> AddKeyResult \<Rightarrow> string \<Rightarrow> string res" where
  "config_of mode serverCommonName key privatekey =
     (if ak_ServerPort key \<le> 0 then Err (errors_New ''Invalid Server Port Returned By API'')
      else if TrimSpace (ak_ServerIP key) = [] then Err (errors_New ''Invalid Server IP Returned By API'')
      else if ak_DNSServers key = [] \<or> TrimSpace (hd (ak_DNSServers key)) = []
           then Err (errors_New ''No DNS Servers Returned By API'')
      else Ok (wireguardConfigTemplate
        \<lparr>tc_Address = ak_PeerIP key, tc_AllowedIPs = allowedIPs_of mode, tc_DNS = hd (ak_DNSServers key),
         tc_Endpoint = ak_ServerIP key, tc_EndpointPort = ak_ServerPort key, tc_PrivateKey = privatekey,
         tc_PublicKey = ak_ServerKey key, tc_PersistentKeepalive = ''25'',
         tc_ServerCommonName = serverCommonName, tc_PostUp = postUp_of mode, tc_PostDown = postDown_of mode\<rparr>))"

definition generateConfig :: "'c PIAWgGenerator \<Rightarrow> AddKeyResult \<Rightarrow> string \<Rightarrow> 'c \<times> world \<Rightarrow> string res \<times> 'c \<times> world" where
  "generateConfig p key privatekey s =
     io_try ((if gen_serverName p
              then (case getMetadataServerForRegion_method (gen_pia p) (fst s) of
                      Ok server \<Rightarrow> Ok (srv_Cn server) | Err e \<Rightarrow> Err e | Panic m \<Rightarrow> Panic m)
              else Ok []), s) (\<lambda>serverCommonName s.
     (config_of (gen_ipv6Mode p) serverCommonName key privatekey, s))"

text \<open>Run an operation on the world beside the client's own state.\<close>

definition on_world :: "(world \<Rightarrow> 'a res \<times> world) \<Rightarrow> 'c \<times> world \<Rightarrow> 'a res \<times> 'c \<times> world" where
  "on_world m s = (case m (snd s) of (r, w) \<Rightarrow> (r, fst s, w))"

definition GenerateWithMetadata :: "'c PIAWgGenerator \<Rightarrow> 'c \<times> world \<Rightarrow> GenerateResult res \<times> 'c \<times> world" where
  "GenerateWithMetadata p s =
     io_try (io_wrap (errors_Wrap ''Error Getting PIA Token'') (GetToken_method (gen_pia p) s)) (\<lambda>token s.
     io_try (io_wrap (errors_Wrap ''Error Generating WireGuard Keys'') (on_world (generateKeys p) s)) (\<lambda>(privatekey, publickey) s.
     io_try (io_wrap (errors_Wrap ''Error Adding WireGuard Public Key To PIA Account'')
               (AddKey_method (gen_pia p) token publickey s)) (\<lambda>key s.
     if ak_Status key \<noteq> [] \<and> ak_Status key \<noteq> ''OK''
     then (Err (errors_New (''AddKey returned non-OK status: '' @ ak_Status key)), s)
     else
     io_try (io_wrap (errors_Wrap ''Error Generating WireGuard Config'') (generateConfig p key privatekey s)) (\<lambda>config s.
     (Ok \<lparr>gr_Config = config, gr_Key = key\<rparr>, s)))))"

definition Generate :: "'c PIAWgGenerator \<Rightarrow> 'c \<times> world \<Rightarrow> string res \<times> 'c \<times> world" where
  "Generate p s = io_try (GenerateWithMetadata p s) (\<lambda>result s. (Ok (gr_Config result), s))"

section \<open>What a configuration says\<close>

lemma config_of_Ok_iff:
  "(\<exists>cfg. config_of mode cn key pk = Ok cfg) \<longleftrightarrow>
   0 < ak_ServerPort key \<and> TrimSpace (ak_ServerIP key) \<noteq> [] \<and>
   ak_DNSServers key \<noteq> [] \<and> TrimSpace (hd (ak_DNSServers key)) \<noteq> []"
  by (auto simp: config_of_def)

lemma config_of_no_panic [simp]: "config_of mode cn key pk \<noteq> Panic s"
  by (simp add: config_of_def)

text \<open>A text that fits on one line.\<close>

definition one_line :: "string \<Rightarrow> bool" where
  "one_line s \<longleftrightarrow> CHR 0x0A \<notin> set s"

definition one_line_key :: "AddKeyResult \<Rightarrow> bool" where
  "one_line_key key \<longleftrightarrow> one_line (ak_PeerIP key) \<and> one_line (ak_ServerKey key) \<and>
     one_line (ak_ServerIP key) \<and> list_all one_line (ak_DNSServers key)"

lemma one_line_Itoa [simp]: "CHR 0x0A \<notin> set (Itoa n)"
  by (auto simp: Itoa_def dest!: digits_are_digits) (simp_all add: is_digit_def)

lemma Itoa_last: "0 \<le> n \<Longrightarrow> Itoa n \<noteq> [] \<and> plain_byte (last (Itoa n))"
proof -
  assume "0 \<le> n"
  then have "is_digit (last (Itoa n))"
    by (simp add: Itoa_def digits_are_digits [OF last_in_set])
  then show ?thesis by (simp add: Itoa_def is_digit_def plain_byte_def)
qed

text \<open>The lines of a configuration.\<close>

definition config_lines :: "IPv6Mode \<Rightarrow> string \<Rightarrow> AddKeyResult \<Rightarrow> string \<Rightarrow> string list" where
  "config_lines mode cn key pk =
    [''[Interface]'', ''PrivateKey = '' @ pk, ''Address = '' @ ak_PeerIP key, ''DNS = '' @ hd (ak_DNSServers key)]
    @ (if mode = IPv6ModeKill then [''PostUp = '' @ postUp_of mode, ''PostDown = '' @ postDown_of mode] else [])
    @ [''[Peer]'', ''PublicKey = '' @ ak_ServerKey key, ''AllowedIPs = '' @ allowedIPs_of mode,
       ''Endpoint = '' @ ak_ServerIP key @ '':'' @ Itoa (ak_ServerPort key), ''PersistentKeepalive = 25'']
    @ (if cn = [] then [] else [''# ServerCommonName = '' @ cn])"

lemma config_is_lines:
  assumes "config_of mode cn key pk = Ok cfg"
  shows "cfg = join_with (CHR 0x0A) (config_lines mode cn key pk)"
proof -
  have "postUp_of mode \<noteq> [] \<longleftrightarrow> mode = IPv6ModeKill" by (cases mode) (simp_all add: postUp_of_def)
  with assms show ?thesis
    by (auto simp: config_of_def wireguardConfigTemplate_def config_lines_def split: if_splits)
qed

lemma split_config:
  assumes "config_of mode cn key pk = Ok cfg" and "one_line pk" and "one_line cn" and "one_line_key key"
  shows "split_on (CHR 0x0A) cfg = config_lines mode cn key pk"
  unfolding config_is_lines [OF assms(1)]
proof (rule split_on_join_with)
  show "config_lines mode cn key pk \<noteq> []" by (simp add: config_lines_def)
  have dns: "one_line (hd (ak_DNSServers key))"
    using assms by (cases "ak_DNSServers key") (auto simp: config_of_def one_line_key_def split: if_splits)
  have "one_line (postUp_of mode)" "one_line (postDown_of mode)" "one_line (allowedIPs_of mode)"
    by (cases mode; simp add: postUp_of_def postDown_of_def allowedIPs_of_def one_line_def)+
  with assms(2-4) dns show "list_all (\<lambda>l. CHR 0x0A \<notin> set l) (config_lines mode cn key pk)"
    by (auto simp: config_lines_def one_line_def one_line_key_def)
qed

text \<open>A line that starts with another letter than E does not set the endpoint.\<close>

lemma find_endpoint_skip:
  assumes "l \<noteq> []" and "plain_byte (hd l)" and "ascii_lower (hd l) \<noteq> CHR ''e''"
  shows "find_endpoint (l # ls) = find_endpoint ls"
proof -
  obtain t where t: "TrimSpace l = hd l # t"
    using TrimSpace_hd [OF assms(1,2)] by (metis list.collapse)
  have "hd l \<noteq> CHR 0xE2" "hd l \<noteq> CHR 0xC4" using assms(2) by (auto simp: plain_byte_def)
  then have "\<not> prefix ''endpoint'' (ToLower (hd l # t))" using assms(3) by simp
  with t show ?thesis by simp
qed

lemma find_endpoint_hit:
  assumes "v \<noteq> []" and "plain_byte (last v)"
  shows "find_endpoint ((''Endpoint = '' @ v) # ls) = TrimSpace v"
proof -
  have t: "TrimSpace (''Endpoint = '' @ v) = ''Endpoint = '' @ v"
    using assms by (intro TrimSpace_plain) (simp_all add: plain_byte_def)
  have l: "map ascii_lower ''Endpoint'' = ''endpoint''" by code_simp
  have "prefix ''endpoint'' (ToLower (''Endpoint = '' @ v))"
    using l by simp
  then show ?thesis
    using t split_first_append [of "CHR ''=''" "''Endpoint ''" "CHR '' '' # v"] by (simp add: Let_def)
qed

lemma find_endpoint_config:
  assumes "0 < ak_ServerPort key"
  shows "find_endpoint (config_lines mode cn key pk) =
    TrimSpace (ak_ServerIP key @ '':'' @ Itoa (ak_ServerPort key))"
proof -
  have low: "ascii_lower (CHR ''['') \<noteq> CHR ''e''" "ascii_lower (CHR ''P'') \<noteq> CHR ''e''"
    "ascii_lower (CHR ''A'') \<noteq> CHR ''e''" "ascii_lower (CHR ''D'') \<noteq> CHR ''e''"
    by code_simp+
  have plain: "plain_byte (CHR ''['')" "plain_byte (CHR ''P'')" "plain_byte (CHR ''A'')" "plain_byte (CHR ''D'')"
    by (simp_all add: plain_byte_def)
  have v: "ak_ServerIP key @ '':'' @ Itoa (ak_ServerPort key) \<noteq> []"
    "plain_byte (last (ak_ServerIP key @ '':'' @ Itoa (ak_ServerPort key)))"
    using Itoa_last [of "ak_ServerPort key"] assms by simp_all
  show ?thesis
    unfolding config_lines_def
    using find_endpoint_hit [OF v]
    by (simp del: find_endpoint.simps add: find_endpoint_skip low plain)
qed

text \<open>
  C25: A generated configuration is read back. When the generator's checks accept a
  registration (and no field of it spans lines), the file is written by \<^verbatim>\<open>atomicWriteFile\<close>
  with success and can be read, then \<^verbatim>\<open>ParseEndpointFromConfig\<close> finds exactly the server
  address and port of the registration, in every IPv6 mode and with or without the comment
  that names the server.
\<close>

theorem config_endpoint_roundtrip:
  assumes cfg: "config_of mode cn key pk = Ok cfg"
    and lines: "one_line pk" "one_line cn" "one_line_key key"
    and path: "\<not> temp_path path"
    and written: "fst (atomicWriteFile path (Text cfg) m w) = Ok ()"
    and readable: "shd (w_calls (snd (atomicWriteFile path (Text cfg) m w))) = None"
  shows "fst (ParseEndpointFromConfig path (snd (atomicWriteFile path (Text cfg) m w))) =
    Ok (TrimSpace (ak_ServerIP key @ '':'' @ Itoa (ak_ServerPort key)))"
proof -
  let ?w = "snd (atomicWriteFile path (Text cfg) m w)"
  obtain f where "w_files ?w path = Some f" "f_content f = Text cfg"
    using aw.target_Ok [OF path written] by blast
  then have "ReadFile path ?w = (Ok (Text cfg), ?w\<lparr>w_calls := stl (w_calls ?w)\<rparr>)"
    using readable by (simp add: ReadFile_eq)
  moreover have "0 < ak_ServerPort key" using cfg by (simp add: config_of_def split: if_splits)
  ultimately show ?thesis
    by (simp add: ParseEndpointFromConfig_def split_config [OF cfg lines] find_endpoint_config)
qed

text \<open>A registration as the API returns it.\<close>

definition sample_key :: AddKeyResult where
  "sample_key = zero_AddKeyResult\<lparr>ak_Status := ''OK'', ak_ServerKey := ''srv='', ak_ServerPort := 1337,
     ak_ServerIP := ''10.1.2.3'', ak_PeerIP := ''10.4.5.6'', ak_DNSServers := [''10.0.0.243'']\<rparr>"

lemma sample_key_config: "\<exists>cfg. config_of mode cn sample_key pk = Ok cfg"
  unfolding config_of_Ok_iff sample_key_def zero_AddKeyResult_def
  by (simp, intro conjI) code_simp+

lemma sample_key_lines: "one_line_key sample_key"
  by (simp add: one_line_key_def one_line_def sample_key_def zero_AddKeyResult_def)

theorem config_endpoint_roundtrip_witness:
  "\<exists>cfg. config_of IPv6ModeKill ''nl-1'' sample_key ''priv='' = Ok cfg \<and>
     fst (ParseEndpointFromConfig ''/config/wg0.conf''
       (snd (atomicWriteFile ''/config/wg0.conf'' (Text cfg) 384 (calm_world 1)))) = Ok ''10.1.2.3:1337''"
proof -
  obtain cfg where cfg: "config_of IPv6ModeKill ''nl-1'' sample_key ''priv='' = Ok cfg"
    using sample_key_config by blast
  have p: "\<not> temp_path ''/config/wg0.conf''" by (simp add: temp_path_def path_base_def)
  let ?r = "atomicWriteFile ''/config/wg0.conf'' (Text cfg) 384 (calm_world 1)"
  have ok: "fst ?r = Ok ()" "shd (w_calls (snd ?r)) = None"
    using p by (simp_all add: atomicWriteFile_calm) (simp_all add: calm_world_def)
  have "TrimSpace (ak_ServerIP sample_key @ '':'' @ Itoa (ak_ServerPort sample_key)) = ''10.1.2.3:1337''"
    by code_simp
  with config_endpoint_roundtrip [OF cfg _ _ sample_key_lines p ok] cfg show ?thesis
    by (simp add: one_line_def)
qed

section \<open>The generator and its client\<close>

text \<open>
  A safe run of an operation that threads a client's state: from a ready client, it moves
  the world on by effects, leaves the client ready and does not panic.
\<close>

definition safe_run :: "('c \<Rightarrow> bool) \<Rightarrow> 'c \<times> world \<Rightarrow> 'a res \<times> 'c \<times> world \<Rightarrow> bool" where
  "safe_run ready s r \<longleftrightarrow>
     (ready (fst s) \<longrightarrow> evolves (snd s) (snd (snd r)) \<and> ready (fst (snd r)) \<and> (\<forall>m. fst r \<noteq> Panic m))"

lemma safe_run_io_try:
  assumes "safe_run ready s r" and "\<And>x t. safe_run ready t (f x t)"
  shows "safe_run ready s (io_try r f)"
proof -
  obtain a t where r: "r = (a, t)" by (cases r)
  with assms(1) assms(2) [where t = t] show ?thesis
    by (cases a) (auto simp: safe_run_def intro: evolves_trans)
qed

lemma safe_run_io_wrap: "safe_run ready s r \<Longrightarrow> safe_run ready s (io_wrap h r)"
  by (simp add: safe_run_def)

lemma safe_run_return: "(\<And>m. r \<noteq> Panic m) \<Longrightarrow> safe_run ready s (r, s)"
  by (simp add: safe_run_def)

lemma safe_run_on_world:
  assumes "\<And>w. evolves w (snd (m w))" and "\<And>w e. fst (m w) \<noteq> Panic e"
  shows "safe_run ready s (on_world m s)"
  using assms [of "snd s"] by (cases "m (snd s)") (simp add: safe_run_def on_world_def)

lemma safe_run_if: "(b \<Longrightarrow> safe_run ready s x) \<Longrightarrow> (\<not> b \<Longrightarrow> safe_run ready s y) \<Longrightarrow> safe_run ready s (if b then x else y)"
  by simp

lemmas safe_run_rules = safe_run_if safe_run_io_try safe_run_io_wrap safe_run_return safe_run_on_world

lemma generateKeys_evolves: "evolves w (snd (generateKeys p w))"
  by (simp add: generateKeys_def emits_evolves [OF wg_GenerateKey_quiet])

lemma generateKeys_no_panic: "fst (generateKeys p w) \<noteq> Panic m"
  by (simp add: generateKeys_def)

text \<open>What the generator relies on: the calls of a client are safe runs.\<close>

locale wg_client =
  fixes pia :: "'c PIAWgClient" and ready :: "'c \<Rightarrow> bool"
  assumes token_safe: "safe_run ready s (GetToken_method pia s)"
    and addkey_safe: "safe_run ready s (AddKey_method pia t k s)"
    and metadata_no_panic: "ready c \<Longrightarrow> getMetadataServerForRegion_method pia c \<noteq> Panic m"
begin

lemma config_safe: "gen_pia p = pia \<Longrightarrow> safe_run ready s (generateConfig p key pk s)"
  using metadata_no_panic [of "fst s"]
  by (cases "getMetadataServerForRegion_method pia (fst s)")
    (auto simp: safe_run_def generateConfig_def)

lemma generate_safe:
  assumes "gen_pia p = pia"
  shows "safe_run ready s (GenerateWithMetadata p s)"
  unfolding GenerateWithMetadata_def assms case_prod_unfold
  by (intro safe_run_rules token_safe addkey_safe config_safe [OF assms] generateKeys_evolves
      generateKeys_no_panic) simp_all

end

end
