(* ===== verification/PiaClient.thy ===== *)
theory PiaClient
  imports TokenFetcher WgConfig
begin

text \<open>
  The PIA client of pia/pia.go: the server list and the choice of a region, the three ways to
  a token, and the registration of a key. The only state that changes is the lazily
  downloaded CA certificate, so the methods thread the client beside the world.
\<close>

section \<open>Server lists\<close>

definition defaultHTTPTimeout :: duration where "defaultHTTPTimeout = 30 * second"

definition plain_client :: http_client where
  "plain_client = \<lparr>hc_transport = DefaultTransport, hc_timeout = defaultHTTPTimeout\<rparr>"

definition getServerList :: "world \<Rightarrow> PIAServerList res \<times> world" where
  "getServerList w =
     io_try (http_Get plain_client ''https://serverlist.piaservers.net/vpninfo/servers/v6'' w) (\<lambda>resp w.
     io_try (body_ReadAll resp, w) (\<lambda>respString w.
     case last_index ''}'' respString of
       None \<Rightarrow> (Err (errors_New ''getServerList: response contained no JSON object''), w)
     | Some lastBracketInd \<Rightarrow>
         (let safeJSON = take (lastBracketInd + 1) respString in
          case Option.bind (w_json w safeJSON) dec_PIAServerList of
            None \<Rightarrow> (Err (errors_New ''invalid server list''), w)
          | Some serverList \<Rightarrow> (Ok serverList, w))))"

text \<open>\<^verbatim>\<open>if p.portForwarding && !r.PortForward { continue }\<close>\<close>

definition eligible :: "bool \<Rightarrow> region_entry \<Rightarrow> bool" where
  "eligible portForwarding r \<longleftrightarrow> \<not> (portForwarding \<and> \<not> rg_PortForward r)"

definition collect_servers :: "bool \<Rightarrow> (region_entry \<Rightarrow> Server list) \<Rightarrow> PIAServerList \<Rightarrow> ServerList" where
  "collect_servers portForwarding servers_of list =
     foldl (\<lambda>servers r.
       if eligible portForwarding r
       then foldl (\<lambda>servers server. servers_append (rg_ID r) \<lparr>srv_Cn = srv_Cn server, srv_IP = srv_IP server\<rparr> servers)
              servers (servers_of r)
       else servers) [] list"

definition generateWireguardServerList :: "bool \<Rightarrow> PIAServerList \<Rightarrow> ServerList res" where
  "generateWireguardServerList portForwarding list =
     (let servers = collect_servers portForwarding rg_Wg list in
      if servers = []
      then (if portForwarding then Err (errors_New ''No Servers Found With Port Forwarding Enabled'')
            else Err (errors_New ''No Servers Found''))
      else Ok servers)"

definition generateMetadataServerList :: "bool \<Rightarrow> PIAServerList \<Rightarrow> ServerList res" where
  "generateMetadataServerList portForwarding list =
     (let servers = collect_servers portForwarding rg_Meta list in
      if servers = []
      then (if portForwarding then Err (errors_New ''No Metadata Servers Found With Port Forwarding Enabled'')
            else Err (errors_New ''No Metadata Servers Found''))
      else Ok servers)"

definition id_or_name_matches :: "string \<Rightarrow> region_entry \<Rightarrow> bool" where
  "id_or_name_matches needle r \<longleftrightarrow> ToLower (rg_ID r) = needle \<or> ToLower (rg_Name r) = needle"

definition server_matches :: "string \<Rightarrow> region_entry \<Rightarrow> bool" where
  "server_matches needle r \<longleftrightarrow> (\<exists>server \<in> set (rg_Meta r @ rg_Wg r). ToLower (srv_Cn server) = needle)"

definition resolveRegionID :: "bool \<Rightarrow> string \<Rightarrow> PIAServerList \<Rightarrow> string res" where
  "resolveRegionID portForwarding input list =
     (let trimmed = TrimSpace input; needle = ToLower trimmed in
      if trimmed = [] then Err (errors_New ''Region Cannot Be Empty'')
      else case find (\<lambda>r. eligible portForwarding r \<and> id_or_name_matches needle r) list of
             Some r \<Rightarrow> Ok (rg_ID r)
           | None \<Rightarrow>
               (case find (\<lambda>r. eligible portForwarding r \<and> server_matches needle r) list of
                  Some r \<Rightarrow> Ok (rg_ID r)
                | None \<Rightarrow> Err (errors_New (''Unknown Region: '' @ input))))"

definition NewPIAClient :: "string \<Rightarrow> string \<Rightarrow> string \<Rightarrow> bool \<Rightarrow> bool \<Rightarrow> world \<Rightarrow> PIAClient res \<times> world" where
  "NewPIAClient username password region verbose portForwarding w =
     (let p = \<lparr>pc_region = region, pc_wireguardServers = [], pc_metadataServers = [], pc_rawServerList = [],
               pc_username = username, pc_password = password, pc_verbose = verbose,
               pc_portForwarding = portForwarding, pc_caCert = [],
               pc_curlPath = TrimSpace (Getenv ''CURL_PATH'' w)\<rparr> in
      io_try (getServerList w) (\<lambda>serverList w.
      io_try (resolveRegionID portForwarding region serverList, w) (\<lambda>rid w.
      io_try (generateMetadataServerList portForwarding serverList, w) (\<lambda>meta w.
      io_try (generateWireguardServerList portForwarding serverList, w) (\<lambda>wg w.
      (Ok (p\<lparr>pc_rawServerList := serverList, pc_region := rid, pc_metadataServers := meta,
             pc_wireguardServers := wg\<rparr>), w))))))"

definition GetAvailableRegions :: "PIAClient \<Rightarrow> RegionInfo list res" where
  "GetAvailableRegions p =
     Ok (map (\<lambda>r. \<lparr>ri_ID = rg_ID r, ri_Name = rg_Name r, ri_Country = rg_Country r,
                   ri_AutoRegion = rg_AutoRegion r, ri_PortForward = rg_PortForward r\<rparr>) (pc_rawServerList p))"

section \<open>Requests\<close>

text \<open>Indexing a slice at 0: a panic when it is empty.\<close>

definition first_server :: "Server list \<Rightarrow> Server res" where
  "first_server xs = (case xs of [] \<Rightarrow> Panic ''index out of range [0] with length 0'' | x # _ \<Rightarrow> Ok x)"

definition getWireguardServerForRegion :: "PIAClient \<Rightarrow> Server res" where
  "getWireguardServerForRegion p = first_server (servers_get (pc_wireguardServers p) (pc_region p))"

definition getMetadataServerForRegion :: "PIAClient \<Rightarrow> Server res" where
  "getMetadataServerForRegion p = first_server (servers_get (pc_metadataServers p) (pc_region p))"

definition caCertURL :: string where
  "caCertURL = ''https://raw.githubusercontent.com/pia-foss/desktop/master/daemon/res/ca/rsa_4096.crt''"

definition downloadPIACertificate :: "PIAClient \<times> world \<Rightarrow> unit res \<times> PIAClient \<times> world" where
  "downloadPIACertificate s =
     (if pc_caCert (fst s) \<noteq> [] then (Ok (), s)
      else io_try (on_world (http_Get plain_client caCertURL) s) (\<lambda>resp (p, w).
        ((case hr_body_err resp of None \<Rightarrow> Ok () | Some e \<Rightarrow> Err e), p\<lparr>pc_caCert := hr_body resp\<rparr>, w)))"

definition executePIARequest ::
  "Server \<Rightarrow> string \<Rightarrow> string \<Rightarrow> PIAClient \<times> world \<Rightarrow> http_response res \<times> PIAClient \<times> world" where
  "executePIARequest server rawURL token s =
     io_try (http_NewRequest ''GET'' rawURL (snd s), s) (\<lambda>req s.
     let req = (if token = [] then req\<lparr>hq_auth := Some (pc_username (fst s), pc_password (fst s))\<rparr> else req) in
     io_try (io_wrap (errors_Wrap ''Error Downloading CA Certificate'') (downloadPIACertificate s)) (\<lambda>_ s.
     let client = \<lparr>hc_transport = PinnedServer (srv_Cn server) (srv_IP server) (pc_caCert (fst s)),
                   hc_timeout = defaultHTTPTimeout\<rparr> in
     io_try (on_world (http_Do client req) s) (\<lambda>resp s.
     io_try (body_ReadAll resp, s) (\<lambda>body s.
     if hr_code resp \<noteq> 200 then (Err (errors_New (''HTTP '' @ Itoa (hr_code resp) @ '': '' @ body)), s)
     else (Ok resp, s)))))"

definition tokenURL :: "Server \<Rightarrow> string" where
  "tokenURL server = ''https://'' @ srv_Cn server @ ''/authv3/generateToken''"

definition getTokenFromMetadataServer :: "PIAClient \<times> world \<Rightarrow> string res \<times> PIAClient \<times> world" where
  "getTokenFromMetadataServer s =
     io_try (getMetadataServerForRegion (fst s), s) (\<lambda>server s.
     let u = tokenURL server in
     io_try (io_wrap (errors_Wrap ''metadata server token request failed'') (executePIARequest server u [] s)) (\<lambda>resp s.
     io_try (io_wrap (errors_Wrap ''error decoding token response'') (body_Decode (field dec_string [] ''token'') resp (snd s), s)) (\<lambda>token s.
     if token = [] then (Err (errors_New (''metadata server returned an empty token '' @ em_dash @ '' check your credentials'')), s)
     else (Ok token, s))))"

definition AddKey :: "string \<Rightarrow> string \<Rightarrow> PIAClient \<times> world \<Rightarrow> AddKeyResult res \<times> PIAClient \<times> world" where
  "AddKey token publickey s =
     io_try (getWireguardServerForRegion (fst s), s) (\<lambda>server s.
     let u = ''https://'' @ srv_Cn server @ '':1337/addKey?pt='' @ QueryEscape token @ ''&pubkey='' @ QueryEscape publickey in
     io_try (io_wrap (errors_Wrap ''Error Executing Request'') (executePIARequest server u token s)) (\<lambda>resp s.
     io_wrap (errors_Wrap ''Error Decoding Add Key Response'') (body_Decode dec_AddKeyResult resp (snd s), s)))"

definition all_methods_failed :: "goerr \<Rightarrow> goerr \<Rightarrow> goerr" where
  "all_methods_failed curlErr err =
     \<lparr>emsg = ''all token methods failed '' @ em_dash @ '' curl: '' @ emsg curlErr @ ''; metadata server: '' @ emsg err,
      chain = chain curlErr @ chain err\<rparr>"

definition tokenTTL :: duration where "tokenTTL = 23 * hour"

definition GetToken :: "PIAClient \<times> world \<Rightarrow> string res \<times> PIAClient \<times> world" where
  "GetToken s =
     (let (p, w) = s; (now, w) = time_Now w in
      case readCachedToken now w of
        (Ok (token, _), w) \<Rightarrow> (Ok token, p, w)
      | (_, w) \<Rightarrow>
          (case fetchTokenViaCurl p w of
             (Panic m, w) \<Rightarrow> (Panic m, p, w)
           | (Ok token, w) \<Rightarrow> (Ok token, p, snd (writeCachedToken token tokenTTL w))
           | (Err curlErr, w) \<Rightarrow>
               if errors_Is curlErr ErrTooManyAttempts then (Err curlErr, p, w)
               else (case getTokenFromMetadataServer (p, w) of
                       (Panic m, s) \<Rightarrow> (Panic m, s)
                     | (Err err, s) \<Rightarrow> (Err (all_methods_failed curlErr err), s)
                     | (Ok token, p, w) \<Rightarrow> (Ok token, p, snd (writeCachedToken token tokenTTL w)))))"

text \<open>The client as a value of the interface.\<close>

definition pia_methods :: "PIAClient PIAWgClient" where
  "pia_methods = \<lparr>GetToken_method = GetToken, AddKey_method = AddKey,
     getMetadataServerForRegion_method = getMetadataServerForRegion\<rparr>"

section \<open>Regions and servers\<close>

lemma foldl_servers_append:
  "servers_get (foldl (\<lambda>m x. servers_append k (g x) m) m xs) k' =
     (if k' = k then servers_get m k @ map g xs else servers_get m k')"
  by (induction xs arbitrary: m) (simp_all add: servers_get_append)

lemma servers_get_collect:
  "servers_get (collect_servers pf servers_of list) rid =
     concat (map servers_of (filter (\<lambda>r. eligible pf r \<and> rg_ID r = rid) list))"
proof -
  have copy: "map (\<lambda>server. \<lparr>srv_Cn = srv_Cn server, srv_IP = srv_IP server\<rparr>) xs = xs" for xs :: "Server list"
    by (induction xs) simp_all
  let ?f = "\<lambda>servers r. if eligible pf r
       then foldl (\<lambda>servers server. servers_append (rg_ID r) \<lparr>srv_Cn = srv_Cn server, srv_IP = srv_IP server\<rparr> servers)
              servers (servers_of r)
       else servers"
  have "servers_get (foldl ?f m list) rid =
      servers_get m rid @ concat (map servers_of (filter (\<lambda>r. eligible pf r \<and> rg_ID r = rid) list))" for m
  proof (induction list arbitrary: m)
    case (Cons r list)
    then show ?case
      using foldl_servers_append [of "rg_ID r" "\<lambda>server. \<lparr>srv_Cn = srv_Cn server, srv_IP = srv_IP server\<rparr>" m "servers_of r" rid]
      by (simp add: copy)
  qed simp
  from this [of "[]"] show ?thesis by (simp add: collect_servers_def servers_get_def)
qed

lemma find_eligible:
  "find P xs = Some r \<Longrightarrow> r \<in> set xs \<and> P r" "find P xs = None \<Longrightarrow> r \<in> set xs \<Longrightarrow> \<not> P r"
  by (auto simp: find_Some_iff find_None_iff)

text \<open>
  C21: The region a user names is resolved correctly. An answer is the ID of a region of the
  list that port forwarding permits and whose ID, name or, failing every ID and name, one of
  whose servers has the given name up to letter case and outer white space; an error means
  the input is blank or no permitted region matches. The resolution never panics.
\<close>

theorem resolveRegionID_correct:
  "case resolveRegionID pf input list of
     Ok rid \<Rightarrow> (\<exists>r \<in> set list. rg_ID r = rid \<and> eligible pf r \<and>
        (id_or_name_matches (ToLower (TrimSpace input)) r \<or>
         server_matches (ToLower (TrimSpace input)) r \<and>
         (\<forall>r' \<in> set list. eligible pf r' \<longrightarrow> \<not> id_or_name_matches (ToLower (TrimSpace input)) r')))
   | Err _ \<Rightarrow> TrimSpace input = [] \<or>
        (\<forall>r \<in> set list. eligible pf r \<longrightarrow> \<not> id_or_name_matches (ToLower (TrimSpace input)) r \<and>
           \<not> server_matches (ToLower (TrimSpace input)) r)
   | Panic _ \<Rightarrow> False"
  unfolding resolveRegionID_def Let_def
  by (auto split: option.splits dest!: find_eligible(1) dest: find_eligible(2))

text \<open>A list with a region that has WireGuard servers and one that has none.\<close>

definition sample_regions :: PIAServerList where
  "sample_regions =
     [zero_region\<lparr>rg_ID := ''nl'', rg_Name := ''Netherlands'', rg_PortForward := True,
        rg_Meta := [\<lparr>srv_Cn = ''nl-m'', srv_IP = ''1.1.1.1''\<rparr>], rg_Wg := [\<lparr>srv_Cn = ''nl-w'', srv_IP = ''1.1.1.2''\<rparr>]\<rparr>,
      zero_region\<lparr>rg_ID := ''us'', rg_Name := ''US East'', rg_Meta := [\<lparr>srv_Cn = ''us-m'', srv_IP = ''2.2.2.2''\<rparr>]\<rparr>]"

lemma sample_resolves: "resolveRegionID False '' US east'' sample_regions = Ok ''us''"
  by code_simp

theorem resolveRegionID_correct_witness:
  "\<exists>r \<in> set sample_regions. rg_ID r = ''us'' \<and> eligible False r"
  using resolveRegionID_correct [where pf = False and input = "'' US east''" and list = sample_regions] unfolding sample_resolves by auto

section \<open>What a request does\<close>

text \<open>
  A request has effects that satisfy \<open>P\<close>, changes nothing of the client but the
  certificate, and does not panic.
\<close>

definition request_run :: "(effect \<Rightarrow> bool) \<Rightarrow> PIAClient \<times> world \<Rightarrow> 'a res \<times> PIAClient \<times> world \<Rightarrow> bool" where
  "request_run P s r \<longleftrightarrow> runs P (snd s) (snd (snd r)) \<and>
     (\<exists>ca. fst (snd r) = (fst s)\<lparr>pc_caCert := ca\<rparr>) \<and> (\<forall>m. fst r \<noteq> Panic m)"

lemma same_client: "\<exists>ca. p = p\<lparr>pc_caCert := ca\<rparr>"
  by (rule exI [of _ "pc_caCert p"]) simp

lemma request_run_io_try:
  assumes "request_run P s r"
    and "\<And>x t ca. fst r = Ok x \<Longrightarrow> fst t = (fst s)\<lparr>pc_caCert := ca\<rparr> \<Longrightarrow> request_run P t (f x t)"
  shows "request_run P s (io_try r f)"
proof -
  obtain a t where r: "r = (a, t)" by (cases r)
  with assms(1) assms(2) [where t = t] show ?thesis
    by (cases a) (auto simp: request_run_def intro: runs_trans)
qed

lemma request_run_io_wrap: "request_run P s r \<Longrightarrow> request_run P s (io_wrap h r)"
  by (simp add: request_run_def)

lemma request_run_return: "(\<And>m. r \<noteq> Panic m) \<Longrightarrow> request_run P s (r, s)"
  by (simp add: request_run_def same_client)

lemma request_run_on_world:
  assumes "runs P (snd s) (snd (m (snd s)))" and "\<And>e. fst (m (snd s)) \<noteq> Panic e"
  shows "request_run P s (on_world m s)"
  using assms by (cases "m (snd s)") (simp add: request_run_def on_world_def same_client)

lemma request_run_if:
  "(b \<Longrightarrow> request_run P s x) \<Longrightarrow> (\<not> b \<Longrightarrow> request_run P s y) \<Longrightarrow> request_run P s (if b then x else y)"
  by simp

lemmas request_run_rules = request_run_if request_run_io_try request_run_io_wrap request_run_return request_run_on_world

text \<open>
  Where credentials may go: a request with basic authentication goes to the server it is
  meant for, at its listed address, under the pinned certificate, and asks for a token.
\<close>

fun auth_to :: "Server list \<Rightarrow> effect \<Rightarrow> bool" where
  "auth_to servers (EvHttp client req) =
     (hq_auth req = None \<or>
      (\<exists>server \<in> set servers. \<exists>ca. hc_transport client = PinnedServer (srv_Cn server) (srv_IP server) ca \<and>
         hq_url req = tokenURL server))"
| "auth_to servers _ = True"

text \<open>The requests of a call: any without credentials, and those with credentials it may send.\<close>

definition allows :: "(effect \<Rightarrow> bool) \<Rightarrow> bool" where
  "allows P \<longleftrightarrow> (\<forall>client u. P (EvHttp client \<lparr>hq_method = ''GET'', hq_url = u, hq_auth = None\<rparr>))"

definition allows_auth :: "(effect \<Rightarrow> bool) \<Rightarrow> Server \<Rightarrow> string \<Rightarrow> bool" where
  "allows_auth P server u \<longleftrightarrow>
     (\<forall>ca t auth. P (EvHttp \<lparr>hc_transport = PinnedServer (srv_Cn server) (srv_IP server) ca, hc_timeout = t\<rparr>
                          \<lparr>hq_method = ''GET'', hq_url = u, hq_auth = Some auth\<rparr>))"

lemma allows_simps [simp]: "allows net_effect" "allows (auth_to servers)" "allows_auth net_effect server u"
  by (simp_all add: allows_def allows_auth_def)

lemma allows_auth_to: "server \<in> set servers \<Longrightarrow> allows_auth (auth_to servers) server (tokenURL server)"
  by (auto simp: allows_auth_def)

lemma http_NewRequest_Ok:
  "http_NewRequest meth u w = Ok req \<longleftrightarrow> w_url_error w u = None \<and> req = \<lparr>hq_method = meth, hq_url = u, hq_auth = None\<rparr>"
  by (auto simp: http_NewRequest_def split: option.splits)

lemma http_Get_runs: "allows P \<Longrightarrow> runs P w (snd (http_Get client url w))"
  unfolding http_Get_def
  by (rule runs_io_try) (auto simp: http_NewRequest_Ok allows_def intro!: emits_runs [OF http_Do_emits])

lemma download_run:
  assumes "allows P"
  shows "request_run P s (downloadPIACertificate s)"
proof (cases "pc_caCert (fst s) = []")
  case True
  have "request_run P t (case t of (p, w) \<Rightarrow>
      ((case hr_body_err resp of None \<Rightarrow> Ok () | Some e \<Rightarrow> Err e), p\<lparr>pc_caCert := hr_body resp\<rparr>, w))" for resp t
    by (auto simp: request_run_def split: prod.splits option.splits)
  with True show ?thesis
    unfolding downloadPIACertificate_def
    by (simp only: True not_True_eq_False if_False simp_thms)
      (rule request_run_io_try, rule request_run_on_world, simp_all add: http_Get_runs [OF assms])
qed (simp add: downloadPIACertificate_def request_run_def same_client)

lemma executePIARequest_run:
  assumes P: "allows P" and auth: "token \<noteq> [] \<or> allows_auth P server u"
  shows "request_run P s (executePIARequest server u token s)"
  unfolding executePIARequest_def Let_def
  by (intro request_run_rules download_run P)
    (use P auth in \<open>auto simp: http_NewRequest_Ok allows_def allows_auth_def intro!: emits_runs [OF http_Do_emits]\<close>)

lemma metadata_token_run:
  assumes "getMetadataServerForRegion (fst s) = Ok server" and "allows P" and "allows_auth P server (tokenURL server)"
  shows "request_run P s (getTokenFromMetadataServer s)"
  unfolding getTokenFromMetadataServer_def assms(1) io_try.simps Let_def
  by (intro request_run_rules executePIARequest_run) (simp_all add: assms(2,3))

lemma AddKey_run:
  assumes "getWireguardServerForRegion (fst s) = Ok server" and "allows P"
    and "token \<noteq> [] \<or> (\<forall>u. allows_auth P server u)"
  shows "request_run P s (AddKey token key s)"
  unfolding AddKey_def assms(1) io_try.simps Let_def
  by (intro request_run_rules executePIARequest_run) (use assms(2,3) in auto)

section \<open>Panics\<close>

lemma first_server_cases:
  "first_server xs = Panic m \<longleftrightarrow> xs = [] \<and> m = ''index out of range [0] with length 0''"
  "first_server xs \<noteq> Err e" "(\<exists>x. first_server xs = Ok x) \<longleftrightarrow> xs \<noteq> []"
  by (cases xs; auto simp: first_server_def)+

text \<open>What \<^verbatim>\<open>NewPIAClient\<close> returns.\<close>

lemma NewPIAClient_Ok:
  assumes "fst (NewPIAClient user pass region verbose pf w) = Ok p"
  obtains list where "fst (getServerList w) = Ok list" and "pc_rawServerList p = list"
    and "resolveRegionID pf region list = Ok (pc_region p)"
    and "pc_metadataServers p = collect_servers pf rg_Meta list"
    and "pc_wireguardServers p = collect_servers pf rg_Wg list"
    and "pc_username p = user" "pc_password p = pass" "pc_caCert p = []" "pc_portForwarding p = pf"
  using assms unfolding NewPIAClient_def Let_def
  by (elim io_try_OkD)
    (auto simp: generateMetadataServerList_def generateWireguardServerList_def Let_def split: if_splits)

text \<open>
  C39: \<^verbatim>\<open>NewPIAClient\<close> accepts a region that has no WireGuard server (it only requires that
  some region has one), and registering a key with such a client is a panic, an index out of
  range, and not an error. With a server for the region there is no panic.
\<close>

theorem AddKey_panics_iff_no_server:
  assumes new: "fst (NewPIAClient user pass region verbose pf w) = Ok p"
  shows "(\<exists>m. fst (AddKey token key (p, w')) = Panic m) \<longleftrightarrow>
    (\<forall>r \<in> set (pc_rawServerList p). eligible pf r \<and> rg_ID r = pc_region p \<longrightarrow> rg_Wg r = [])"
proof -
  let ?xs = "servers_get (pc_wireguardServers p) (pc_region p)"
  have "pc_wireguardServers p = collect_servers pf rg_Wg (pc_rawServerList p)"
    by (rule NewPIAClient_Ok [OF new]) simp
  then have "?xs = [] \<longleftrightarrow> (\<forall>r \<in> set (pc_rawServerList p). eligible pf r \<and> rg_ID r = pc_region p \<longrightarrow> rg_Wg r = [])"
    by (auto simp: servers_get_collect)
  moreover have "(\<exists>m. fst (AddKey token key (p, w')) = Panic m) \<longleftrightarrow> ?xs = []"
  proof (cases ?xs)
    case Nil
    then show ?thesis by (simp add: AddKey_def getWireguardServerForRegion_def first_server_def)
  next
    case (Cons x xs)
    then have "getWireguardServerForRegion (fst (p, w')) = Ok x"
      by (simp add: getWireguardServerForRegion_def first_server_def)
    from AddKey_run [OF this, of net_effect] Cons show ?thesis by (simp add: request_run_def)
  qed
  ultimately show ?thesis by simp
qed

text \<open>A world in which the server list is the sample above.\<close>

definition listed_world :: world where
  "listed_world = (calm_world 1)\<lparr>w_http := sconst (Inr (calm_response\<lparr>hr_body := ''{}''\<rparr>)),
     w_json := (\<lambda>_. Some (JObj [(''regions'', JList
        [JObj [(''id'', JStr ''nl''), (''name'', JStr ''Netherlands''), (''port_forward'', JBool True),
               (''servers'', JObj [(''meta'', JList [JObj [(''ip'', JStr ''1.1.1.1''), (''cn'', JStr ''nl-m'')]]),
                                   (''wg'', JList [JObj [(''ip'', JStr ''1.1.1.2''), (''cn'', JStr ''nl-w'')]])])],
         JObj [(''id'', JStr ''us''), (''name'', JStr ''US East''),
               (''servers'', JObj [(''meta'', JList [JObj [(''ip'', JStr ''2.2.2.2''), (''cn'', JStr ''us-m'')]])])]])]))\<rparr>"

lemma listed_server_list: "fst (getServerList listed_world) = Ok sample_regions"
proof -
  have "dec_PIAServerList (the (w_json listed_world ''{}'')) = Some sample_regions"
    unfolding listed_world_def by simp code_simp
  then show ?thesis
    by (simp add: getServerList_def http_Get_def http_NewRequest_def http_Do_def emit_def body_ReadAll_def
        listed_world_def calm_world_def calm_response_def)
qed

lemma listed_client:
  "\<exists>p. fst (NewPIAClient ''u'' ''p'' '' US east'' False False listed_world) = Ok p \<and> pc_region p = ''us'' \<and>
     pc_rawServerList p = sample_regions"
proof -
  have "generateMetadataServerList False sample_regions \<noteq> Err e" "generateMetadataServerList False sample_regions \<noteq> Panic m"
    "generateWireguardServerList False sample_regions \<noteq> Err e" "generateWireguardServerList False sample_regions \<noteq> Panic m" for e m
    by code_simp+
  then obtain ms ws where "generateMetadataServerList False sample_regions = Ok ms" "generateWireguardServerList False sample_regions = Ok ws"
    by (meson res.exhaust)
  then show ?thesis
    by (simp add: NewPIAClient_def Let_def io_try_fst_Ok [OF listed_server_list] sample_resolves)
qed

theorem AddKey_panics_iff_no_server_witness:
  "\<exists>p m. fst (NewPIAClient ''u'' ''p'' '' US east'' False False listed_world) = Ok p \<and>
     fst (AddKey ''tok'' ''key'' (p, listed_world)) = Panic m"
proof -
  obtain p where p: "fst (NewPIAClient ''u'' ''p'' '' US east'' False False listed_world) = Ok p"
    "pc_region p = ''us''" "pc_rawServerList p = sample_regions"
    using listed_client by blast
  have "\<forall>r \<in> set sample_regions. eligible False r \<and> rg_ID r = ''us'' \<longrightarrow> rg_Wg r = []"
    by (simp add: sample_regions_def zero_region_def)
  with AddKey_panics_iff_no_server [OF p(1), of "''tok''" "''key''" listed_world] p show ?thesis by auto
qed

section \<open>Tokens\<close>

lemma parseToken_nonempty: "parseTokenFromCurlOutput body w = Ok t \<Longrightarrow> t \<noteq> []"
  by (auto simp: parseTokenFromCurlOutput_def Let_def split: if_splits option.splits)

lemma try_curls_nonempty: "fst (try_curls p lastErr attempts w) = Ok t \<Longrightarrow> t \<noteq> []"
proof (induction attempts arbitrary: lastErr w)
  case (Cons a rest)
  then show ?case
    by (cases a; cases "snd a")
      (auto simp: Let_def dest: parseToken_nonempty split: res.splits option.splits prod.splits if_splits)
qed (auto split: option.splits)

lemma fetchToken_nonempty: "fetchTokenViaCurl p w = (Ok t, w') \<Longrightarrow> t \<noteq> []"
  by (auto simp: fetchTokenViaCurl_def split: res.splits dest!: arg_cong [of _ _ fst] dest: try_curls_nonempty)

lemma metadata_token_nonempty:
  assumes "getTokenFromMetadataServer s = (Ok t, s')"
  shows "t \<noteq> []"
proof -
  have "fst (getTokenFromMetadataServer s) = Ok t" using assms by simp
  then show ?thesis
    unfolding getTokenFromMetadataServer_def Let_def
    by (elim io_try_OkD) (auto split: if_splits)
qed

lemma readCachedToken_nonempty: "readCachedToken now w = (Ok (t, e), w') \<Longrightarrow> t \<noteq> []"
  by (cases "getTokenCachePath w")
    (auto simp: readCachedToken_def Let_def split: if_splits option.splits prod.splits res.splits)

lemma readCachedToken_no_panic: "readCachedToken now w \<noteq> (Panic m, w')"
  by (cases "getTokenCachePath w")
    (auto simp: readCachedToken_def ReadFile_eq Let_def split: if_splits option.splits prod.splits res.splits)

lemma GetToken_nonempty: "fst (GetToken s) = Ok t \<Longrightarrow> t \<noteq> []"
  by (auto simp: GetToken_def Let_def split: prod.splits res.splits if_splits
      dest: readCachedToken_nonempty fetchToken_nonempty metadata_token_nonempty)

text \<open>
  The effects of a token: file effects of the cache, the curl processes, and the requests of
  the last resort.
\<close>

lemma GetToken_run:
  assumes server: "getMetadataServerForRegion (fst s) = Ok server"
    and P: "allows P" "allows_auth P server (tokenURL server)"
      "\<And>e. exec_effect e \<Longrightarrow> P e" "\<And>e. \<not> net_effect e \<Longrightarrow> P e"
  shows "request_run P s (GetToken s)"
proof -
  obtain p w where s: "s = (p, w)" by (cases s)
  obtain now w1 where n: "time_Now w = (now, w1)" by (cases "time_Now w")
  obtain c w2 where c: "readCachedToken now w1 = (c, w2)" by (cases "readCachedToken now w1")
  obtain k w3 where k: "fetchTokenViaCurl p w2 = (k, w3)" by (cases "fetchTokenViaCurl p w2")
  obtain r p4 w4 where r: "getTokenFromMetadataServer (p, w3) = (r, p4, w4)"
    by (cases "getTokenFromMetadataServer (p, w3)")
  have "runs P w w1" using quiet_runs [OF time_Now_quiet [of w]] by (simp add: n)
  also have "runs P w1 w2" using quiet_runs [OF readCachedToken_quiet [of w1 now]] by (simp add: c)
  finally have 2: "runs P w w2" .
  also have "runs P w2 w3" using runs_mono [OF fetchTokenViaCurl_runs [of w2 p] P(3)] by (simp add: k)
  finally have 3: "runs P w w3" .
  have "request_run P (p, w3) (r, p4, w4)"
    unfolding r [symmetric] using server s P(1,2) by (intro metadata_token_run [of _ server]) simp_all
  then obtain ca where 4: "runs P w w4" "p4 = p\<lparr>pc_caCert := ca\<rparr>" "\<And>m. r \<noteq> Panic m"
    using runs_trans [OF 3] by (auto simp: request_run_def)
  have cache: "runs P v (snd (writeCachedToken t tokenTTL v))" for v t
    by (rule runs_mono [OF writeCachedToken_runs P(4)])
  have "k \<noteq> Panic m" for m using fetchTokenViaCurl_no_panic [of p w2 m] by (simp add: k)
  then consider (hit) t e where "c = Ok (t, e)" | (curl) t where "\<not> is_Ok c" "k = Ok t"
    | (failed) e where "\<not> is_Ok c" "k = Err e"
    by (cases c; cases k) auto
  then show ?thesis
  proof cases
    case hit
    with 2 show ?thesis by (simp add: GetToken_def s n c request_run_def same_client)
  next
    case curl
    with runs_trans [OF 3 cache] show ?thesis
      by (cases c) (simp_all add: GetToken_def s n c k request_run_def same_client)
  next
    case failed
    then have "GetToken s = (if errors_Is e ErrTooManyAttempts then (Err e, p, w3)
        else case r of Panic m \<Rightarrow> (Panic m, p4, w4) | Err err \<Rightarrow> (Err (all_methods_failed e err), p4, w4)
             | Ok t \<Rightarrow> (Ok t, p4, snd (writeCachedToken t tokenTTL w4)))"
      by (cases c; cases r) (simp_all add: GetToken_def s n c k r)
    moreover have "request_run P s (Err e :: string res, p, w3)" for e
      using 3 by (simp add: request_run_def s same_client)
    moreover have "request_run P s (Err e :: string res, p4, w4)" for e
      using 4(1,2) by (auto simp: request_run_def s)
    moreover have "request_run P s (Ok t, p4, snd (writeCachedToken t tokenTTL w4))" for t
      using runs_trans [OF 4(1) cache] 4(2) by (auto simp: request_run_def s)
    ultimately show ?thesis using 4(3) by (simp split: res.splits)
  qed
qed

text \<open>A client whose region has servers.\<close>

definition region_ready :: "PIAClient \<Rightarrow> bool" where
  "region_ready p \<longleftrightarrow> servers_get (pc_metadataServers p) (pc_region p) \<noteq> [] \<and>
     servers_get (pc_wireguardServers p) (pc_region p) \<noteq> []"

lemma region_ready_cert [simp]: "region_ready (p\<lparr>pc_caCert := ca\<rparr>) = region_ready p"
  by (simp add: region_ready_def)

lemma region_ready_servers:
  assumes "region_ready p"
  obtains m x where "getMetadataServerForRegion p = Ok m" and "getWireguardServerForRegion p = Ok x"
  using assms first_server_cases(3) unfolding region_ready_def getMetadataServerForRegion_def getWireguardServerForRegion_def
  by metis

interpretation pia: wg_client pia_methods region_ready
proof unfold_locales
  fix s t k
  show "safe_run region_ready s (GetToken_method pia_methods s)"
  proof (cases "region_ready (fst s)")
    case True
    then obtain m x where "getMetadataServerForRegion (fst s) = Ok m" by (rule region_ready_servers)
    then have "request_run (\<lambda>_. True) s (GetToken s)"
      by (rule GetToken_run) (simp_all add: allows_def allows_auth_def)
    with True show ?thesis
      by (auto simp: safe_run_def pia_methods_def request_run_def intro: runs_evolves)
  qed (simp add: safe_run_def)
  show "safe_run region_ready s (AddKey_method pia_methods t k s)"
  proof (cases "region_ready (fst s)")
    case True
    then obtain m x where "getWireguardServerForRegion (fst s) = Ok x" by (rule region_ready_servers)
    then have "request_run net_effect s (AddKey t k s)" by (rule AddKey_run) simp_all
    with True show ?thesis
      by (auto simp: safe_run_def pia_methods_def request_run_def intro: runs_evolves)
  qed (simp add: safe_run_def)
next
  fix c m assume "region_ready c"
  then show "getMetadataServerForRegion_method pia_methods c \<noteq> Panic m"
    by (elim region_ready_servers) (simp add: pia_methods_def)
qed

section \<open>Generating a configuration\<close>

lemma gen_pia_New [simp]: "gen_pia (NewPIAWgGenerator pia config) = pia"
  by (simp add: NewPIAWgGenerator_def)

lemma pia_methods_simps [simp]:
  "GetToken_method pia_methods = GetToken" "AddKey_method pia_methods = AddKey"
  "getMetadataServerForRegion_method pia_methods = getMetadataServerForRegion"
  by (simp_all add: pia_methods_def)

lemma generate_run:
  assumes "region_ready (fst s)" and "getMetadataServerForRegion (fst s) = Ok server"
  shows "request_run (auth_to [server]) s (GenerateWithMetadata (NewPIAWgGenerator pia_methods config) s)"
proof -
  let ?g = "NewPIAWgGenerator pia_methods config"
  obtain x where x: "getWireguardServerForRegion (fst s) = Ok x"
    using region_ready_servers [OF assms(1)] by metis
  have server: "getMetadataServerForRegion ((fst s)\<lparr>pc_caCert := ca\<rparr>) = Ok server"
    "getWireguardServerForRegion ((fst s)\<lparr>pc_caCert := ca\<rparr>) = Ok x" for ca
    using assms x by (simp_all add: getMetadataServerForRegion_def getWireguardServerForRegion_def)
  have token: "request_run (auth_to [server]) s (GetToken s)"
    using assms(2) by (rule GetToken_run) (auto simp: allows_auth_to elim: exec_effect.elims, metis auth_to.simps net_effect.simps effect.exhaust)
  have keys: "request_run P t (on_world (generateKeys g) t)" for P t and g :: "PIAClient PIAWgGenerator"
    by (intro request_run_on_world quiet_runs)
      (simp_all add: generateKeys_def frame generateKeys_no_panic)
  show ?thesis
    unfolding GenerateWithMetadata_def case_prod_unfold
  proof (rule request_run_io_try, goal_cases)
    case 1
    from token show ?case by (simp add: request_run_io_wrap)
  next
    case (2 token t ca)
    then have "token \<noteq> []" by (auto dest: GetToken_nonempty)
    have add: "request_run (auth_to [server]) u (AddKey token k u)" if "fst u = (fst t)\<lparr>pc_caCert := ca'\<rparr>" for u k ca'
      using that 2 server \<open>token \<noteq> []\<close> by (intro AddKey_run [of _ x]) simp_all
    have config: "request_run (auth_to [server]) u (generateConfig ?g key pk u)"
      if "fst u = (fst t)\<lparr>pc_caCert := ca'\<rparr>" for u key pk ca'
      using that 2 server
      by (auto simp: generateConfig_def request_run_def same_client)
    show ?case
      by (rule request_run_io_try [OF request_run_io_wrap [OF keys]],
          rule request_run_io_try [OF request_run_io_wrap])
        (auto intro!: add config request_run_rules)
  qed
qed


text \<open>A client for region "nl" and a machine without curl.\<close>

definition sample_client :: PIAClient where
  "sample_client = \<lparr>pc_region = ''nl'', pc_wireguardServers = [(''nl'', [\<lparr>srv_Cn = ''nl-w'', srv_IP = ''1.1.1.2''\<rparr>])],
     pc_metadataServers = [(''nl'', [\<lparr>srv_Cn = ''nl-m'', srv_IP = ''1.1.1.1''\<rparr>])], pc_rawServerList = [],
     pc_username = ''u'', pc_password = ''p'', pc_verbose = False, pc_portForwarding = False, pc_caCert = [], pc_curlPath = []\<rparr>"

definition no_curl_world :: world where
  "no_curl_world = (calm_world 1)\<lparr>w_lookpath := (\<lambda>_. Inl (errors_New ''not found''))\<rparr>"

definition sample_token_request :: effect where
  "sample_token_request = EvHttp \<lparr>hc_transport = PinnedServer ''nl-m'' ''1.1.1.1'' [], hc_timeout = 30 * second\<rparr>
     \<lparr>hq_method = ''GET'', hq_url = ''https://nl-m/authv3/generateToken'', hq_auth = Some (''u'', ''p'')\<rparr>"

lemma sample_GetToken:
  "\<exists>e w'. GetToken (sample_client, no_curl_world) = (Err e, sample_client, w') \<and>
     w_trace w' = w_trace no_curl_world @
       [EvHttp plain_client \<lparr>hq_method = ''GET'', hq_url = caCertURL, hq_auth = None\<rparr>, sample_token_request]"
proof -
  have "TrimSpace ''/app/pia-wg-config'' = ''/app/pia-wg-config''" by code_simp
  then obtain path where path: "getTokenCachePath no_curl_world = Ok path"
    by (simp add: getTokenCachePath_def no_curl_world_def calm_world_def)
  define w1 where "w1 = snd (time_Now no_curl_world)"
  have w1: "getTokenCachePath w1 = Ok path" "w_files w1 = Map.empty" "w_calls w1 = sconst None"
    "w_lookpath w1 = (\<lambda>_. Inl (errors_New ''not found''))" "w_http w1 = sconst (Inr calm_response)"
    "w_url_error w1 = (\<lambda>_. None)" "w_json_first w1 = (\<lambda>_. None)" "w_trace w1 = w_trace no_curl_world"
    using path by (simp_all add: w1_def time_Now_def no_curl_world_def calm_world_def getTokenCachePath_def)
  have "readCachedToken now w1 = (Err no_cached_token, w1)" for now
    by (simp add: readCachedToken_def w1 ReadFile_eq)
  moreover have "fetchTokenViaCurl sample_client w1 =
      (Err \<lparr>emsg = ''curl not found (install curl or set '' @ openSSLCurlEnvHint @ '')'', chain = [ErrCurlNotFound]\<rparr>, w1)"
    by (simp add: fetchTokenViaCurl_def findOpenSSLCurl_def findSystemCurl_def w1 sample_client_def)
  moreover have "\<exists>e w'. getTokenFromMetadataServer (sample_client, w1) = (Err e, sample_client, w') \<and>
      w_trace w' = w_trace w1 @ [EvHttp plain_client \<lparr>hq_method = ''GET'', hq_url = caCertURL, hq_auth = None\<rparr>, sample_token_request]"
    by (simp add: getTokenFromMetadataServer_def getMetadataServerForRegion_def first_server_def servers_get_def
        sample_client_def executePIARequest_def http_NewRequest_def w1 downloadPIACertificate_def on_world_def
        http_Get_def http_Do_def emit_def calm_response_def body_ReadAll_def body_Decode_def defaultHTTPTimeout_def
        sample_token_request_def tokenURL_def)
  ultimately show ?thesis
    by (auto simp: GetToken_def w1_def [symmetric] w1(8) errors_Is_def split_beta)
qed


section \<open>The certificate\<close>

text \<open>
  C40: A certificate download that breaks off is kept. When the response of the first download
  ends with a read error after some bytes, the call reports the error but keeps the bytes;
  the next call finds a certificate, reports success without any request, and the client goes
  on with the truncated file for all its later requests.
\<close>

theorem truncated_certificate_is_kept:
  assumes "pc_caCert p = []" and "w_url_error w caCertURL = None" and "shd (w_http w) = Inr resp"
    and "hr_body resp \<noteq> []" and "hr_body_err resp = Some e"
  shows "\<exists>w'. downloadPIACertificate (p, w) = (Err e, p\<lparr>pc_caCert := hr_body resp\<rparr>, w') \<and>
    downloadPIACertificate (p\<lparr>pc_caCert := hr_body resp\<rparr>, w') = (Ok (), p\<lparr>pc_caCert := hr_body resp\<rparr>, w')"
  using assms
  by (simp add: downloadPIACertificate_def on_world_def http_Get_def http_NewRequest_def http_Do_def)

theorem truncated_certificate_is_kept_witness:
  "\<exists>w'. downloadPIACertificate (sample_client, (calm_world 1)\<lparr>w_http :=
       sconst (Inr (calm_response\<lparr>hr_body := ''-----BEGIN'', hr_body_err := Some (errors_New ''unexpected EOF'')\<rparr>))\<rparr>) =
     (Err (errors_New ''unexpected EOF''), sample_client\<lparr>pc_caCert := ''-----BEGIN''\<rparr>, w') \<and>
   downloadPIACertificate (sample_client\<lparr>pc_caCert := ''-----BEGIN''\<rparr>, w') = (Ok (), sample_client\<lparr>pc_caCert := ''-----BEGIN''\<rparr>, w')"
  using truncated_certificate_is_kept [of sample_client "(calm_world 1)\<lparr>w_http :=
       sconst (Inr (calm_response\<lparr>hr_body := ''-----BEGIN'', hr_body_err := Some (errors_New ''unexpected EOF'')\<rparr>))\<rparr>"
      "calm_response\<lparr>hr_body := ''-----BEGIN'', hr_body_err := Some (errors_New ''unexpected EOF'')\<rparr>" "errors_New ''unexpected EOF''"]
  by (simp add: sample_client_def calm_world_def)

section \<open>All the effects of a generation\<close>

text \<open>
  A condition that the effects of any generation satisfy: GET requests, commands and file
  effects. It holds also when the generation ends in a panic.
\<close>

definition permits :: "(effect \<Rightarrow> bool) \<Rightarrow> bool" where
  "permits P \<longleftrightarrow> allows P \<and> (\<forall>server u. allows_auth P server u) \<and>
     (\<forall>e. exec_effect e \<longrightarrow> P e) \<and> (\<forall>e. \<not> net_effect e \<longrightarrow> P e)"

lemma permits_True [simp]: "permits (\<lambda>_. True)"
  by (simp add: permits_def allows_def allows_auth_def)

lemma request_runs: "request_run P s r \<Longrightarrow> runs P (snd s) (snd (snd r))"
  by (simp add: request_run_def)

lemma metadata_token_runs:
  assumes "permits P"
  shows "runs P (snd s) (snd (snd (getTokenFromMetadataServer s)))"
proof (cases "getMetadataServerForRegion (fst s)")
  case (Ok server)
  then show ?thesis by (rule request_runs [OF metadata_token_run]) (use assms in \<open>simp_all add: permits_def\<close>)
qed (simp_all add: getTokenFromMetadataServer_def)

lemma AddKey_runs:
  assumes "permits P"
  shows "runs P (snd s) (snd (snd (AddKey token key s)))"
proof (cases "getWireguardServerForRegion (fst s)")
  case (Ok server)
  then show ?thesis by (rule request_runs [OF AddKey_run]) (use assms in \<open>simp_all add: permits_def\<close>)
qed (simp_all add: AddKey_def)

lemma GetToken_runs:
  assumes "permits P"
  shows "runs P (snd s) (snd (snd (GetToken s)))"
proof -
  obtain p w where s: "s = (p, w)" by (cases s)
  obtain now w1 where n: "time_Now w = (now, w1)" by (cases "time_Now w")
  obtain c w2 where c: "readCachedToken now w1 = (c, w2)" by (cases "readCachedToken now w1")
  obtain k w3 where k: "fetchTokenViaCurl p w2 = (k, w3)" by (cases "fetchTokenViaCurl p w2")
  obtain r p4 w4 where r: "getTokenFromMetadataServer (p, w3) = (r, p4, w4)"
    by (cases "getTokenFromMetadataServer (p, w3)")
  have "runs P w w1" using quiet_runs [OF time_Now_quiet [of w]] by (simp add: n)
  also have "runs P w1 w2" using quiet_runs [OF readCachedToken_quiet [of w1 now]] by (simp add: c)
  finally have 2: "runs P w w2" .
  have "runs P w2 w3"
    using runs_mono [OF fetchTokenViaCurl_runs [of w2 p], of P] assms by (simp add: k permits_def)
  with 2 have 3: "runs P w w3" by (rule runs_trans)
  have 4: "runs P w w4" using runs_trans [OF 3] metadata_token_runs [OF assms, of "(p, w3)"] by (simp add: r)
  have "runs P v (snd (writeCachedToken t tokenTTL v))" for v t
    by (rule runs_mono [OF writeCachedToken_runs]) (use assms in \<open>simp add: permits_def\<close>)
  note cache = runs_trans [OF 3 this] runs_trans [OF 4 this]
  have "snd (snd (GetToken s)) \<in>
      {w2, w3, w4} \<union> range (\<lambda>t. snd (writeCachedToken t tokenTTL w3)) \<union> range (\<lambda>t. snd (writeCachedToken t tokenTTL w4))"
    by (cases c; cases k; cases r) (auto simp: GetToken_def s n c k r)
  then show ?thesis using 2 3 4 cache by (auto simp: s)
qed

lemma runs_threaded:
  assumes "runs P (snd s) (snd (snd r))" and "\<And>x t. runs P (snd t) (snd (snd (f x t)))"
  shows "runs P (snd s) (snd (snd (io_try r f)))"
  using io_try_snd_cases [of r f] assms(1) runs_trans [OF assms(1) assms(2)] by auto

lemma GenerateWithMetadata_runs:
  assumes "permits P"
  shows "runs P (snd s) (snd (snd (GenerateWithMetadata (NewPIAWgGenerator pia_methods config) s)))"
proof -
  have keys: "runs P (snd t) (snd (snd (on_world (generateKeys g) t)))" for t and g :: "PIAClient PIAWgGenerator"
    using quiet_runs [OF wg_GenerateKey_quiet [of "snd t"], of P]
    by (auto simp: on_world_def generateKeys_def io_wrap_def split: prod.split)
  have "runs P (snd t) (snd (snd (generateConfig g key pk t)))" for t key pk and g :: "PIAClient PIAWgGenerator"
    unfolding generateConfig_def by (rule runs_threaded) simp_all
  then have config: "runs P (snd t) (snd (snd (io_wrap h (generateConfig g key pk t))))"
    for t key pk h and g :: "PIAClient PIAWgGenerator"
    by simp
  show ?thesis
    unfolding GenerateWithMetadata_def case_prod_unfold
    by (intro runs_threaded) (simp_all add: GetToken_runs [OF assms] AddKey_runs [OF assms] keys
        runs_threaded [OF config])
qed

lemma NewPIAClient_runs:
  assumes "permits P"
  shows "runs P w (snd (NewPIAClient u pw region verbose pf w))"
proof -
  have "runs P w (snd (getServerList w))"
    unfolding getServerList_def
    by (intro runs_io_try) (use assms in \<open>auto simp: permits_def Let_def intro: http_Get_runs split: option.splits\<close>)
  then show ?thesis
    unfolding NewPIAClient_def Let_def by (intro runs_io_try) simp_all
qed

end
