(* ===== verification/Hooks.thy ===== *)
theory Hooks
  imports World
begin

text \<open>
  What the daemons run after a new configuration, from main.go: shell hooks with
  placeholders, and restarting the VPN container through the Docker API, over a Unix socket
  or plain HTTP to a socket proxy.
\<close>

section \<open>Hooks\<close>

definition run_shell :: "string \<Rightarrow> world \<Rightarrow> unit res \<times> world" where
  "run_shell command w =
     (let (r, w) = exec_Run [''sh'', ''-c'', command] None w in
      ((case ex_err r of None \<Rightarrow> Ok () | Some e \<Rightarrow> Err e), w))"

definition runHook :: "string \<Rightarrow> string \<Rightarrow> world \<Rightarrow> unit res \<times> world" where
  "runHook command port w =
     (if TrimSpace command = [] then (Ok (), w)
      else run_shell (ReplaceAll command ''{port}'' port) w)"

text \<open>
  The replacements are a Go map: the loop visits its keys in an unspecified order, which is
  the argument \<open>order\<close>, the keys without their braces. Each run of a hook takes the next
  order of the world.
\<close>

definition placeholder :: "string \<Rightarrow> string" where
  "placeholder key = ''{'' @ key @ ''}''"

definition config_replacements :: "string \<Rightarrow> string \<Rightarrow> string \<Rightarrow> string \<Rightarrow> string \<Rightarrow> string" where
  "config_replacements stateDir configPath forwardedPortPath port key =
     (if key = ''state_dir'' then stateDir else if key = ''config'' then configPath
      else if key = ''forwarded_port'' then forwardedPortPath else port)"

definition placeholder_keys :: "string list" where
  "placeholder_keys = [''state_dir'', ''config'', ''forwarded_port'', ''port'']"

definition expandConfigHookCommand :: "string list \<Rightarrow> string \<Rightarrow> string \<Rightarrow> string \<Rightarrow> string \<Rightarrow> string \<Rightarrow> string" where
  "expandConfigHookCommand order command stateDir configPath forwardedPortPath port =
     foldl (\<lambda>expanded old. ReplaceAll expanded (placeholder old)
              (config_replacements stateDir configPath forwardedPortPath port old)) command order"

definition runConfigHook :: "string \<Rightarrow> string \<Rightarrow> string \<Rightarrow> string \<Rightarrow> string \<Rightarrow> world \<Rightarrow> unit res \<times> world" where
  "runConfigHook command stateDir configPath forwardedPortPath port w =
     (if TrimSpace command = [] then (Ok (), w)
      else run_shell (expandConfigHookCommand (shd (w_orders w)) command stateDir configPath forwardedPortPath port)
             (w\<lparr>w_orders := stl (w_orders w)\<rparr>))"

section \<open>Docker\<close>

definition defaultDockerSocket :: string where "defaultDockerSocket = ''/var/run/docker.sock''"

definition dockerSocketHTTPClient :: "string \<Rightarrow> http_client" where
  "dockerSocketHTTPClient socketPath = \<lparr>hc_transport = UnixSocket socketPath, hc_timeout = 30 * second\<rparr>"

definition dockerEndpoint :: "string \<Rightarrow> string \<Rightarrow> (http_client \<times> string) res" where
  "dockerEndpoint host socketPath =
     (let host = TrimSpace host in
      if host = [] then
        let socketPath = (if TrimSpace socketPath = [] then defaultDockerSocket else socketPath)
        in Ok (dockerSocketHTTPClient socketPath, ''http://docker'')
      else if prefix ''unix://'' host then Ok (dockerSocketHTTPClient (trim_prefix ''unix://'' host), ''http://docker'')
      else if prefix ''tcp://'' host \<or> prefix ''http://'' host then
        let addr = trim_right ''/'' (trim_prefix ''http://'' (trim_prefix ''tcp://'' host)) in
        if addr = [] \<or> contains_any addr ''/ ''
        then Err (errors_New (''invalid docker host '' @ quote host @ '': expected tcp://HOST:PORT''))
        else Ok (\<lparr>hc_transport = DefaultTransport, hc_timeout = 30 * second\<rparr>, ''http://'' @ addr)
      else Err (errors_New (''unsupported docker host '' @ quote host @
             '': use tcp://HOST:PORT (plain HTTP to a socket proxy) or unix:///PATH'')))"

definition docker_restart_failed :: "string \<Rightarrow> http_response \<Rightarrow> goerr" where
  "docker_restart_failed container resp =
     (let bodyText = TrimSpace (take 4096 (hr_body resp)) in
      errors_New (''docker restart '' @ quote container @ '' failed: '' @ hr_status resp @ '': '' @
        (if bodyText = [] then ''<empty>'' else bodyText)))"

definition restartDockerContainerWithClient :: "http_client \<Rightarrow> string \<Rightarrow> string \<Rightarrow> world \<Rightarrow> unit res \<times> world" where
  "restartDockerContainerWithClient client baseURL container w =
     (let container = TrimSpace container in
      if container = [] then (Err (errors_New ''restart container name is empty''), w)
      else
      let restartURL = trim_right ''/'' baseURL @ ''/containers/'' @ PathEscape container @ ''/restart?t=10'' in
      io_try (http_NewRequest ''POST'' restartURL w, w) (\<lambda>req w.
      io_try (io_wrap (errors_Wrap (''docker restart '' @ quote container @ '' failed'')) (http_Do client req w)) (\<lambda>resp w.
      if hr_code resp \<noteq> 204 then (Err (docker_restart_failed container resp), w) else (Ok (), w))))"

definition restartDockerContainer :: "string \<Rightarrow> string \<Rightarrow> world \<Rightarrow> unit res \<times> world" where
  "restartDockerContainer socketPath container w =
     (let socketPath = (if TrimSpace socketPath = [] then defaultDockerSocket else socketPath) in
      restartDockerContainerWithClient (dockerSocketHTTPClient socketPath) ''http://docker'' container w)"

definition restartDockerContainerVia :: "string \<Rightarrow> string \<Rightarrow> string \<Rightarrow> world \<Rightarrow> unit res \<times> world" where
  "restartDockerContainerVia host socketPath container w =
     io_try (dockerEndpoint host socketPath, w) (\<lambda>(client, baseURL) w.
     restartDockerContainerWithClient client baseURL container w)"

section \<open>Expansion\<close>

text \<open>A command as text and placeholders, and what it should expand to.\<close>

datatype piece = Lit string | Hole string

fun render :: "piece \<Rightarrow> string" where
  "render (Lit s) = s"
| "render (Hole key) = placeholder key"

fun fill :: "string \<Rightarrow> string \<Rightarrow> piece \<Rightarrow> piece" where
  "fill key v (Lit s) = Lit s"
| "fill key v (Hole key') = (if key' = key then Lit v else Hole key')"

definition brace_free :: "string \<Rightarrow> bool" where
  "brace_free s \<longleftrightarrow> CHR ''{'' \<notin> set s \<and> CHR ''}'' \<notin> set s"

fun plain_piece :: "piece \<Rightarrow> bool" where
  "plain_piece (Lit s) = brace_free s"
| "plain_piece (Hole key) = brace_free key"

lemma ReplaceAll_skip:
  "CHR ''{'' \<notin> set a \<Longrightarrow> ReplaceAll (a @ b) (placeholder key) v = a @ ReplaceAll b (placeholder key) v"
  by (induction a) (auto simp: placeholder_def)

lemma placeholder_prefix:
  assumes "brace_free key" and "brace_free key'"
  shows "prefix (placeholder key) (placeholder key' @ s) \<longleftrightarrow> key = key'"
proof
  assume "prefix (placeholder key) (placeholder key' @ s)"
  then obtain t where "key @ ''}'' @ t = key' @ ''}'' @ s" by (auto simp: placeholder_def prefix_def)
  then have "takeWhile (\<lambda>c. c \<noteq> CHR ''}'') (key @ ''}'' @ t) = takeWhile (\<lambda>c. c \<noteq> CHR ''}'') (key' @ ''}'' @ s)"
    by simp
  moreover have "takeWhile (\<lambda>c. c \<noteq> CHR ''}'') (k @ ''}'' @ u) = k" if "brace_free k" for k u
    using that by (subst takeWhile_append2) (auto simp: brace_free_def)
  ultimately show "key = key'" using assms by metis
qed simp

lemma ReplaceAll_placeholder:
  assumes "brace_free key" and "brace_free key'"
  shows "ReplaceAll (placeholder key' @ s) (placeholder key) v =
    (if key' = key then v else placeholder key') @ ReplaceAll s (placeholder key) v"
proof (cases "key' = key")
  case True
  then show ?thesis by (simp add: placeholder_def prefix_def)
next
  case False
  then have "\<not> prefix (placeholder key) (placeholder key' @ s)"
    using placeholder_prefix [OF assms] by auto
  then have "ReplaceAll (placeholder key' @ s) (placeholder key) v =
      CHR ''{'' # ReplaceAll ((key' @ ''}'') @ s) (placeholder key) v"
    by (simp add: placeholder_def)
  also have "ReplaceAll ((key' @ ''}'') @ s) (placeholder key) v = (key' @ ''}'') @ ReplaceAll s (placeholder key) v"
    using assms(2) by (intro ReplaceAll_skip) (auto simp: brace_free_def)
  finally show ?thesis using False by (simp add: placeholder_def)
qed

lemma ReplaceAll_pieces:
  assumes "brace_free key" and "list_all plain_piece ps"
  shows "ReplaceAll (concat (map render ps)) (placeholder key) v = concat (map render (map (fill key v) ps))"
  using assms(2)
proof (induction ps)
  case (Cons p ps)
  then show ?case
    using assms(1) by (cases p) (simp_all add: ReplaceAll_skip ReplaceAll_placeholder brace_free_def)
qed simp

lemma fill_plain: "brace_free v \<Longrightarrow> plain_piece p \<Longrightarrow> plain_piece (fill key v p)"
  by (cases p) auto

lemma fills:
  assumes "list_all brace_free order" and "list_all plain_piece ps" and "\<And>key. brace_free (g key)"
  shows "foldl (\<lambda>s key. ReplaceAll s (placeholder key) (g key)) (concat (map render ps)) order =
    concat (map render (map (\<lambda>p. case p of Lit s \<Rightarrow> Lit s | Hole key \<Rightarrow> if key \<in> set order then Lit (g key) else p) ps))"
  using assms(1,2)
proof (induction order arbitrary: ps)
  case Nil
  have "(\<lambda>p. case p of Lit s \<Rightarrow> Lit s | Hole key \<Rightarrow> if key \<in> set [] then Lit (g key) else p) = (\<lambda>p. p)"
    by (auto simp: fun_eq_iff split: piece.splits)
  then show ?case by simp
next
  case (Cons key order)
  have "list_all plain_piece (map (fill key (g key)) ps)"
    using Cons.prems assms(3) by (auto simp: list_all_iff intro: fill_plain)
  moreover have "(case fill key (g key) p of Lit s \<Rightarrow> Lit s | Hole k \<Rightarrow> if k \<in> set order then Lit (g k) else fill key (g key) p) =
      (case p of Lit s \<Rightarrow> Lit s | Hole k \<Rightarrow> if k \<in> set (key # order) then Lit (g k) else p)" for p
    by (cases p) auto
  ultimately show ?case
    using Cons.IH [of "map (fill key (g key)) ps"] Cons.prems
    by (simp add: ReplaceAll_pieces comp_def)
qed

fun expansion :: "(string \<Rightarrow> string) \<Rightarrow> piece \<Rightarrow> string" where
  "expansion g (Lit s) = s"
| "expansion g (Hole key) = (if key \<in> set placeholder_keys then g key else placeholder key)"

text \<open>
  C37: The expansion of a configuration hook. For a command made of text without braces and
  placeholders, and values without braces, every known placeholder is replaced by its value
  and nothing else changes, in whatever order the loop visits the map of replacements.
\<close>

theorem expandConfigHookCommand_expands:
  assumes order: "set order = set placeholder_keys"
    and command: "list_all plain_piece ps" "command = concat (map render ps)"
    and vals: "brace_free stateDir" "brace_free configPath" "brace_free forwardedPortPath" "brace_free port"
  shows "expandConfigHookCommand order command stateDir configPath forwardedPortPath port =
    concat (map (expansion (config_replacements stateDir configPath forwardedPortPath port)) ps)"
proof -
  let ?g = "config_replacements stateDir configPath forwardedPortPath port"
  have "list_all brace_free order"
    using order by (auto simp: list_all_iff placeholder_keys_def brace_free_def)
  moreover have "brace_free (?g key)" for key using vals by (simp add: config_replacements_def)
  moreover have "render (case p of Lit s \<Rightarrow> Lit s | Hole key \<Rightarrow> if key \<in> set order then Lit (?g key) else p) = expansion ?g p" for p
    using order by (cases p) auto
  ultimately show ?thesis
    using fills [of order ps ?g] command by (simp add: expandConfigHookCommand_def comp_def)
qed

theorem expandConfigHookCommand_expands_witness:
  "expandConfigHookCommand (rev placeholder_keys) ''cp {config} /x/{port}.conf'' ''/state'' ''/state/wg0.conf'' ''/state/forwarded_port'' ''51820'' =
   ''cp /state/wg0.conf /x/51820.conf''"
  using expandConfigHookCommand_expands [of "rev placeholder_keys"
      "[Lit ''cp '', Hole ''config'', Lit '' /x/'', Hole ''port'', Lit ''.conf'']" "''cp {config} /x/{port}.conf''"
      "''/state''" "''/state/wg0.conf''" "''/state/forwarded_port''" "''51820''"]
  by (simp add: brace_free_def placeholder_def placeholder_keys_def config_replacements_def insert_commute)

section \<open>Reaching Docker\<close>

lemma TrimSpace_prefix_plain: "plain_byte c \<Longrightarrow> TrimSpace (c # s) = [] \<Longrightarrow> False"
  using TrimSpace_hd [of "c # s"] by simp

text \<open>
  The Docker endpoint. The API is only ever reached over a Unix socket, or over plain HTTP
  to a host given explicitly as tcp:// or http:// with nothing but an address after the
  scheme; every other scheme, TLS and ssh among them, is an error and never a plaintext
  connection.
\<close>

theorem dockerEndpoint_no_downgrade:
  "case dockerEndpoint host socketPath of
     Ok (client, baseURL) \<Rightarrow>
       (\<exists>path. hc_transport client = UnixSocket path \<and> baseURL = ''http://docker'' \<and>
          (TrimSpace host = [] \<or> TrimSpace host = ''unix://'' @ path)) \<or>
       (\<exists>addr. hc_transport client = DefaultTransport \<and> baseURL = ''http://'' @ addr \<and>
          addr \<noteq> [] \<and> \<not> contains_any addr ''/ '' \<and>
          (prefix ''tcp://'' (TrimSpace host) \<or> prefix ''http://'' (TrimSpace host)))
   | Err _ \<Rightarrow> TrimSpace host \<noteq> [] \<and> \<not> prefix ''unix://'' (TrimSpace host)
   | Panic _ \<Rightarrow> False"
  by (auto simp: dockerEndpoint_def dockerSocketHTTPClient_def trim_prefix_def prefix_def Let_def)

text \<open>What a restart does.\<close>

lemma restart_request:
  assumes "TrimSpace container \<noteq> []" and "\<And>u. w_url_error w u = None"
  shows "\<exists>req. emits [EvHttp client req] w (snd (restartDockerContainerWithClient client base container w)) \<and>
    hq_method req = ''POST'' \<and> hq_auth req = None \<and>
    hq_url req = trim_right ''/'' base @ ''/containers/'' @ PathEscape (TrimSpace container) @ ''/restart?t=10'' \<and>
    (fst (restartDockerContainerWithClient client base container w) = Ok () \<longleftrightarrow>
       (\<exists>resp. shd (w_http w) = Inr resp \<and> hr_code resp = 204))"
  using assms
  by (cases "shd (w_http w)")
    (auto simp: restartDockerContainerWithClient_def http_NewRequest_def http_Do_def emits_def emit_def static_def Let_def)

lemma PathEscape_no_slash: "CHR ''/'' \<notin> set (PathEscape s)" "CHR ''?'' \<notin> set (PathEscape s)"
  using PathEscape_chars [of "CHR ''/''" s] PathEscape_chars [of "CHR ''?''" s]
  by (auto simp: url_unreserved_def)



lemma run_shell_net_run [frame]: "net_run w (snd (run_shell cmd w))"
  using exec_Run_net_run by (simp add: run_shell_def Let_def split_beta)

lemma runHook_net_run [frame]: "net_run w (snd (runHook cmd port w))"
  by (simp add: runHook_def frame)

lemma runConfigHook_net_run [frame]: "net_run w (snd (runConfigHook cmd d c f port w))"
proof -
  have "quiet w (w\<lparr>w_orders := stl (w_orders w)\<rparr>)" by (simp add: emits_def static_def)
  from runs_trans [OF quiet_runs [OF this] run_shell_net_run] show ?thesis by (simp add: runConfigHook_def)
qed

lemma restartDocker_net_run [frame]:
  "net_run w (snd (restartDockerContainerWithClient client base container w))"
  unfolding restartDockerContainerWithClient_def Let_def
  by (simp, intro conjI impI net_run_io_try) (simp_all add: frame)

lemma restartVia_net_run [frame]: "net_run w (snd (restartDockerContainerVia host socketPath container w))"
  unfolding restartDockerContainerVia_def by (rule net_run_io_try) (auto simp: frame)

lemma restart_no_panic [simp]:
  "fst (restartDockerContainerWithClient client base container w) \<noteq> Panic m"
  "fst (restartDockerContainerVia host socketPath container w) \<noteq> Panic m"
proof -
  have 1: "fst (restartDockerContainerWithClient client base container w) \<noteq> Panic m" for client base w m
    unfolding restartDockerContainerWithClient_def Let_def
    by (intro no_panic_rules) simp_all
  then show "fst (restartDockerContainerWithClient client base container w) \<noteq> Panic m" .
  have "dockerEndpoint host socketPath \<noteq> Panic e" for e
    by (auto simp: dockerEndpoint_def Let_def)
  with 1 show "fst (restartDockerContainerVia host socketPath container w) \<noteq> Panic m"
    unfolding restartDockerContainerVia_def by (intro io_try_no_panic) (simp_all add: split_beta)
qed

end
