(* ===== verification/Cli.thy ===== *)
theory Cli
  imports PiaClient Hooks
begin

text \<open>
  The command line of main.go: constants, credentials, options, and the two commands that run
  once, \<^verbatim>\<open>generate\<close> and \<^verbatim>\<open>regions\<close>. The parsed command line is the record \<open>cli_context\<close>,
  a parameter: flag parsing is the third-party package urfave/cli.
\<close>

record cli_context =
  c_args :: "string list"
  c_String :: "string \<Rightarrow> string"
  c_Bool :: "string \<Rightarrow> bool"
  c_Duration :: "string \<Rightarrow> duration"
  c_Int :: "string \<Rightarrow> int"

text \<open>\<^verbatim>\<open>c.Args().Get(n)\<close>: the empty string when there are fewer arguments.\<close>

definition c_Arg :: "cli_context \<Rightarrow> nat \<Rightarrow> string" where
  "c_Arg c n = (if n < length (c_args c) then c_args c ! n else [])"

section \<open>Constants\<close>

definition defaultRegion :: string where "defaultRegion = ''amsterdam404''"
definition defaultStatusFileName :: string where "defaultStatusFileName = ''status.json''"
definition defaultConfigFileName :: string where "defaultConfigFileName = ''wg0.conf''"
definition defaultForwardedPortOut :: string where "defaultForwardedPortOut = ''forwarded_port''"
definition defaultPendingPFName :: string where "defaultPendingPFName = ''pending_port_forward.json''"
definition defaultPFRenewInterval :: duration where "defaultPFRenewInterval = 14 * minute"
definition defaultRecoveryCooldown :: duration where "defaultRecoveryCooldown = 3 * minute"

lemmas file_names = defaultStatusFileName_def defaultConfigFileName_def defaultForwardedPortOut_def
  defaultPendingPFName_def

section \<open>Options\<close>

definition squoted :: "string \<Rightarrow> string" where
  "squoted s = CHR 0x27 # s @ [CHR 0x27]"

definition parseIPv6Mode :: "string \<Rightarrow> IPv6Mode res" where
  "parseIPv6Mode s =
     (let m = ToLower (TrimSpace s) in
      if m = ''on'' \<or> m = [] then Ok IPv6ModeOn
      else if m = ''off'' then Ok IPv6ModeOff
      else if m = ''kill'' then Ok IPv6ModeKill
      else Err (errors_New (''unknown --ipv6-mode '' @ quote s @ '': must be '' @ squoted ''on'' @ '', '' @ squoted ''off'' @ '', or '' @ squoted ''kill'')))"

definition missing_credentials :: goerr where
  "missing_credentials = errors_New ''missing credentials: provide USERNAME PASSWORD args or set --username/--password (or env PIA_USERNAME/PIA_PASSWORD)''"

definition resolveCredentials :: "cli_context \<Rightarrow> (string \<times> string) res" where
  "resolveCredentials c =
     (let username = TrimSpace (c_Arg c 0); password = TrimSpace (c_Arg c 1);
          username = (if username = [] then TrimSpace (c_String c ''username'') else username);
          password = (if password = [] then TrimSpace (c_String c ''password'') else password)
      in if username = [] \<or> password = [] then Err missing_credentials else Ok (username, password))"

definition mustStatePath :: "string \<Rightarrow> string \<Rightarrow> string" where
  "mustStatePath dir name = path_Join dir name"

definition region_option :: "cli_context \<Rightarrow> string" where
  "region_option c = (let region = TrimSpace (c_String c ''region'') in if region = [] then defaultRegion else region)"

section \<open>generate\<close>

definition runGenerate :: "cli_context \<Rightarrow> world \<Rightarrow> unit res \<times> world" where
  "runGenerate c w =
     io_try (resolveCredentials c, w) (\<lambda>(username, password) w.
     let verbose = c_Bool c ''verbose''; serverName = c_Bool c ''server'';
         portForwarding = c_Bool c ''port-forwarding''; region = region_option c in
     io_try (parseIPv6Mode (c_String c ''ipv6-mode''), w) (\<lambda>ipv6Mode w.
     io_try (NewPIAClient username password region verbose portForwarding w) (\<lambda>piaClient w.
     let wgConfigGenerator = NewPIAWgGenerator pia_methods
           \<lparr>gc_Verbose = verbose, gc_ServerName = serverName, gc_PrivateKey = [], gc_PublicKey = [], gc_IPv6Mode = ipv6Mode\<rparr>;
         (result, _, w) = GenerateWithMetadata wgConfigGenerator (piaClient, w) in
     io_try (result, w) (\<lambda>gen w.
     let outfile = TrimSpace (c_String c ''outfile'') in
     if outfile \<noteq> [] then atomicWriteFile outfile (Text (gr_Config gen)) 420 w
     else stdout_Write (Text (gr_Config gen)) w))))"

section \<open>regions\<close>

record regionRow =
  rr_ID :: string
  rr_Name :: string
  rr_PortForwarding :: bool

definition region_rows :: "bool \<Rightarrow> RegionInfo list \<Rightarrow> regionRow list" where
  "region_rows pfOnly regions =
     filter (\<lambda>row. \<not> (pfOnly \<and> \<not> rr_PortForwarding row))
       (map (\<lambda>r. \<lparr>rr_ID = ri_ID r, rr_Name = ri_Name r, rr_PortForwarding = ri_PortForward r\<rparr>) regions)"

definition region_line :: "regionRow \<Rightarrow> string" where
  "region_line row = rr_ID row @ [CHR 0x09] @ rr_Name row @ [CHR 0x09] @ ''pf:'' @
     (if rr_PortForwarding row then ''yes'' else ''no'') @ [CHR 0x0A]"

definition enc_regionRow :: "regionRow \<Rightarrow> json" where
  "enc_regionRow row = JObj
     [(''id'', JStr (rr_ID row)), (''name'', JStr (rr_Name row)), (''port_forwarding'', JBool (rr_PortForwarding row))]"

text \<open>The plain output is one line per row, whose write errors are ignored.\<close>

definition runRegions :: "cli_context \<Rightarrow> world \<Rightarrow> unit res \<times> world" where
  "runRegions c w =
     io_try (resolveCredentials c, w) (\<lambda>(username, password) w.
     let verbose = c_Bool c ''verbose''; pfOnly = c_Bool c ''pf-only''; asJSON = c_Bool c ''json'' in
     io_try (NewPIAClient username password defaultRegion verbose pfOnly w) (\<lambda>piaClient w.
     io_try (GetAvailableRegions piaClient, w) (\<lambda>regions w.
     let rows = region_rows pfOnly regions in
     if asJSON then stdout_Write (Doc (JList (map enc_regionRow rows))) w
     else (Ok (), fold (\<lambda>row w. snd (stdout_Write (Text (region_line row)) w)) rows w))))"

end
