(* ===== verification/Status.thy ===== *)
theory Status
  imports Pia_Api Atomic_Write "HOL-Library.Monad_Syntax" "HOL-Library.List_Lexorder" "HOL-Library.Char_ord"
    "HOL-Library.Multiset"
begin

text \<open>
  The files the daemons keep beside the configuration, from main.go: \<^verbatim>\<open>status.json\<close> with its
  custom encoding, and the pending port forward that survives a restart of the daemon.
\<close>

section \<open>status.json\<close>

record daemonStatus =
  ds_Region :: string
  ds_Mode :: string
  ds_LastGenerateUTC :: time
  ds_LastForwardPort :: string
  ds_LastError :: string
  ds_NextRefreshUTC :: time
  ds_PortForwarding :: bool
  ds_ServerNameEnabled :: bool
  ds_IPv6Mode :: string
  ds_RegistrationUTC :: time
  ds_RegistrationAgeSecs :: int
  ds_ExpectedExpiryUTC :: time
  ds_LifetimeSource :: string
  ds_MeasuredLifetimeSecs :: int
  ds_TunnelHealthy :: bool
  ds_ControlStatus :: string
  ds_PublicIPPresent :: "bool option"
  ds_LastHealthCheckUTC :: time
  ds_LastHealthyUTC :: time
  ds_UnhealthySinceUTC :: time
  ds_LastRecoveryUTC :: time
  ds_RecoveryCount :: int
  ds_FailedAttempts :: int

definition zero_daemonStatus :: daemonStatus where
  "zero_daemonStatus = \<lparr>ds_Region = [], ds_Mode = [], ds_LastGenerateUTC = 0, ds_LastForwardPort = [],
     ds_LastError = [], ds_NextRefreshUTC = 0, ds_PortForwarding = False, ds_ServerNameEnabled = False,
     ds_IPv6Mode = [], ds_RegistrationUTC = 0, ds_RegistrationAgeSecs = 0, ds_ExpectedExpiryUTC = 0,
     ds_LifetimeSource = [], ds_MeasuredLifetimeSecs = 0, ds_TunnelHealthy = False, ds_ControlStatus = [],
     ds_PublicIPPresent = None, ds_LastHealthCheckUTC = 0, ds_LastHealthyUTC = 0, ds_UnhealthySinceUTC = 0,
     ds_LastRecoveryUTC = 0, ds_RecoveryCount = 0, ds_FailedAttempts = 0\<rparr>"

definition status_times :: "daemonStatus \<Rightarrow> (string \<times> time) list" where
  "status_times s =
     [(''last_generate_utc'', ds_LastGenerateUTC s), (''next_refresh_utc'', ds_NextRefreshUTC s),
      (''registration_utc'', ds_RegistrationUTC s), (''expected_expiry_utc'', ds_ExpectedExpiryUTC s),
      (''last_health_check_utc'', ds_LastHealthCheckUTC s), (''last_healthy_utc'', ds_LastHealthyUTC s),
      (''unhealthy_since_utc'', ds_UnhealthySinceUTC s), (''last_recovery_utc'', ds_LastRecoveryUTC s)]"

text \<open>
  The struct as the package writes it: \<^verbatim>\<open>omitempty\<close> leaves out empty strings, zero numbers
  and nil pointers, but not zero times.
\<close>

definition alias_members :: "daemonStatus \<Rightarrow> (string \<times> json) list" where
  "alias_members s =
     [(''region'', JStr (ds_Region s))] @ omit_if (ds_Mode s = []) (''mode'', JStr (ds_Mode s)) @
     [(''last_generate_utc'', JTime (ds_LastGenerateUTC s))] @
     omit_if (ds_LastForwardPort s = []) (''last_forward_port'', JStr (ds_LastForwardPort s)) @
     omit_if (ds_LastError s = []) (''last_error'', JStr (ds_LastError s)) @
     [(''next_refresh_utc'', JTime (ds_NextRefreshUTC s)),
      (''port_forwarding'', JBool (ds_PortForwarding s)),
      (''server_name_enabled'', JBool (ds_ServerNameEnabled s)),
      (''ipv6_mode'', JStr (ds_IPv6Mode s)),
      (''registration_utc'', JTime (ds_RegistrationUTC s)),
      (''registration_age_seconds'', JNum (ds_RegistrationAgeSecs s)),
      (''expected_expiry_utc'', JTime (ds_ExpectedExpiryUTC s))] @
     omit_if (ds_LifetimeSource s = []) (''lifetime_source'', JStr (ds_LifetimeSource s)) @
     omit_if (ds_MeasuredLifetimeSecs s = 0) (''measured_lifetime_seconds'', JNum (ds_MeasuredLifetimeSecs s)) @
     [(''tunnel_healthy'', JBool (ds_TunnelHealthy s))] @
     omit_if (ds_ControlStatus s = []) (''control_status'', JStr (ds_ControlStatus s)) @
     (case ds_PublicIPPresent s of None \<Rightarrow> [] | Some b \<Rightarrow> [(''public_ip_present'', JBool b)]) @
     [(''last_health_check_utc'', JTime (ds_LastHealthCheckUTC s)),
      (''last_healthy_utc'', JTime (ds_LastHealthyUTC s)),
      (''unhealthy_since_utc'', JTime (ds_UnhealthySinceUTC s)),
      (''last_recovery_utc'', JTime (ds_LastRecoveryUTC s))] @
     omit_if (ds_RecoveryCount s = 0) (''recovery_count'', JNum (ds_RecoveryCount s)) @
     omit_if (ds_FailedAttempts s = 0) (''consecutive_failed_attempts'', JNum (ds_FailedAttempts s))"

definition enc_alias :: "daemonStatus \<Rightarrow> json option" where
  "enc_alias s = (if list_all (json_time_ok \<circ> snd) (status_times s) then Some (JObj (alias_members s)) else None)"

definition omittable :: "string \<Rightarrow> string list" where
  "omittable mode =
     [''registration_utc'', ''expected_expiry_utc'', ''last_health_check_utc'',
      ''last_healthy_utc'', ''unhealthy_since_utc'', ''last_recovery_utc''] @
     (if mode = ''refresh'' then [''last_generate_utc'', ''next_refresh_utc''] else [])"

text \<open>
  The second pass: the members as a map of raw values, the zero times of the omittable keys
  deleted, and the rest written with sorted keys.
\<close>

definition MarshalJSON :: "daemonStatus \<Rightarrow> json option" where
  "MarshalJSON s =
     (case Option.bind (enc_alias s) json_members of
        None \<Rightarrow> None
      | Some out \<Rightarrow>
          (let out = filter (\<lambda>(k, v). \<not> (k \<in> set (omittable (ds_Mode s)) \<and> v = JTime 0)) out;
               out = (if time_IsZero (ds_RegistrationUTC s)
                      then filter (\<lambda>(k, v). k \<noteq> ''registration_age_seconds'') out else out)
           in Some (JObj (sort_key fst out))))"

definition writeStatus :: "string \<Rightarrow> daemonStatus \<Rightarrow> world \<Rightarrow> unit res \<times> world" where
  "writeStatus path status w =
     (case MarshalJSON status of
        None \<Rightarrow> (Err marshal_time_error, w)
      | Some data \<Rightarrow> atomicWriteFile path (Doc data) 420 w)"

definition readPreviousRegion :: "string \<Rightarrow> world \<Rightarrow> string option \<times> world" where
  "readPreviousRegion statusPath w =
     (case ReadFile statusPath w of
        (Ok data, w) \<Rightarrow>
          (case Option.bind (json_of data w) (field dec_string [] ''region'') of
             None \<Rightarrow> (None, w)
           | Some region \<Rightarrow> (if TrimSpace region = [] then None else Some (TrimSpace region), w))
      | (_, w) \<Rightarrow> (None, w))"

section \<open>The pending port forward\<close>

record pendingPortForward =
  pp_CreatedUTC :: time
  pp_Key :: AddKeyResult

definition enc_AddKeyResult :: "AddKeyResult \<Rightarrow> json" where
  "enc_AddKeyResult k = JObj
     [(''status'', JStr (ak_Status k)), (''server_key'', JStr (ak_ServerKey k)),
      (''server_port'', JNum (ak_ServerPort k)), (''server_ip'', JStr (ak_ServerIP k)),
      (''server_vip'', JStr (ak_ServerVip k)), (''gateway'', JStr (ak_Gateway k)),
      (''peer_ip'', JStr (ak_PeerIP k)), (''peer_pubkey'', JStr (ak_PeerPubkey k)),
      (''dns_servers'', if ak_DNSServers k = [] then JNull else JList (map JStr (ak_DNSServers k)))]"

definition enc_pending :: "pendingPortForward \<Rightarrow> json option" where
  "enc_pending p = do {
     t \<leftarrow> enc_time (pp_CreatedUTC p);
     Some (JObj [(''created_utc'', t), (''key'', enc_AddKeyResult (pp_Key p))])
   }"

definition dec_pending :: "json \<Rightarrow> pendingPortForward option" where
  "dec_pending j = do {
     t \<leftarrow> field dec_time 0 ''created_utc'' j;
     k \<leftarrow> field dec_AddKeyResult zero_AddKeyResult ''key'' j;
     Some \<lparr>pp_CreatedUTC = t, pp_Key = k\<rparr>
   }"

definition writePendingPortForward :: "string \<Rightarrow> AddKeyResult \<Rightarrow> world \<Rightarrow> unit res \<times> world" where
  "writePendingPortForward path key w =
     (let (now, w) = time_Now w in
      case enc_pending \<lparr>pp_CreatedUTC = now, pp_Key = key\<rparr> of
        None \<Rightarrow> (Err marshal_time_error, w)
      | Some data \<Rightarrow> atomicWriteFile path (Doc data) 384 w)"

text \<open>\<open>None\<close> when there is no such file (\<^verbatim>\<open>hasPending = false\<close>).\<close>

definition readPendingPortForward :: "string \<Rightarrow> world \<Rightarrow> pendingPortForward option res \<times> world" where
  "readPendingPortForward path w =
     (case ReadFile path w of
        (Err e, w) \<Rightarrow> if errors_Is e ErrNotExist then (Ok None, w) else (Err e, w)
      | (Panic m, w) \<Rightarrow> (Panic m, w)
      | (Ok data, w) \<Rightarrow>
          (case Option.bind (json_of data w) dec_pending of
             None \<Rightarrow> (Err (errors_New ''invalid pending port forward''), w)
           | Some p \<Rightarrow> (Ok (Some p), w)))"

definition removePendingPortForward :: "string \<Rightarrow> world \<Rightarrow> unit res \<times> world" where
  "removePendingPortForward path w =
     (case Remove path w of
        (Err e, w) \<Rightarrow> if errors_Is e ErrNotExist then (Ok (), w) else (Err e, w)
      | r \<Rightarrow> r)"

section \<open>What status.json says\<close>

definition status_keys :: "string list" where
  "status_keys =
     [''region'', ''mode'', ''last_generate_utc'', ''last_forward_port'', ''last_error'', ''next_refresh_utc'',
      ''port_forwarding'', ''server_name_enabled'', ''ipv6_mode'', ''registration_utc'', ''registration_age_seconds'',
      ''expected_expiry_utc'', ''lifetime_source'', ''measured_lifetime_seconds'', ''tunnel_healthy'', ''control_status'',
      ''public_ip_present'', ''last_health_check_utc'', ''last_healthy_utc'', ''unhealthy_since_utc'',
      ''last_recovery_utc'', ''recovery_count'', ''consecutive_failed_attempts'']"

lemma status_keys_lower: "distinct status_keys" "list_all lower_text status_keys"
  by code_simp+

text \<open>The members by key: at most one each.\<close>

definition member_of :: "string \<Rightarrow> (string \<times> json) list \<Rightarrow> bool" where
  "member_of k ms \<longleftrightarrow> ms = [] \<or> (\<exists>v. ms = [(k, v)])"

lemma member_of_rules [intro]:
  "member_of k [(k, v)]" "member_of k (omit_if b (k, v))"
  "member_of k (case x of None \<Rightarrow> [] | Some y \<Rightarrow> [(k, f y)])"
  by (auto simp: member_of_def omit_if_def split: option.splits)

lemma keys_of_members:
  "list_all2 member_of ks mss \<Longrightarrow> subseq (map fst (concat mss)) ks"
proof (induction rule: list_all2_induct)
  case (Cons k ks ms mss)
  then show ?case by (cases "ms = []") (auto simp: member_of_def)
qed simp

lemma alias_keys: "subseq (map fst (alias_members s)) status_keys"
proof -
  let ?mss = "[[(''region'', JStr (ds_Region s))], omit_if (ds_Mode s = []) (''mode'', JStr (ds_Mode s)),
     [(''last_generate_utc'', JTime (ds_LastGenerateUTC s))],
     omit_if (ds_LastForwardPort s = []) (''last_forward_port'', JStr (ds_LastForwardPort s)),
     omit_if (ds_LastError s = []) (''last_error'', JStr (ds_LastError s)),
     [(''next_refresh_utc'', JTime (ds_NextRefreshUTC s))],
     [(''port_forwarding'', JBool (ds_PortForwarding s))],
     [(''server_name_enabled'', JBool (ds_ServerNameEnabled s))],
     [(''ipv6_mode'', JStr (ds_IPv6Mode s))],
     [(''registration_utc'', JTime (ds_RegistrationUTC s))],
     [(''registration_age_seconds'', JNum (ds_RegistrationAgeSecs s))],
     [(''expected_expiry_utc'', JTime (ds_ExpectedExpiryUTC s))],
     omit_if (ds_LifetimeSource s = []) (''lifetime_source'', JStr (ds_LifetimeSource s)),
     omit_if (ds_MeasuredLifetimeSecs s = 0) (''measured_lifetime_seconds'', JNum (ds_MeasuredLifetimeSecs s)),
     [(''tunnel_healthy'', JBool (ds_TunnelHealthy s))],
     omit_if (ds_ControlStatus s = []) (''control_status'', JStr (ds_ControlStatus s)),
     (case ds_PublicIPPresent s of None \<Rightarrow> [] | Some b \<Rightarrow> [(''public_ip_present'', JBool b)]),
     [(''last_health_check_utc'', JTime (ds_LastHealthCheckUTC s))],
     [(''last_healthy_utc'', JTime (ds_LastHealthyUTC s))],
     [(''unhealthy_since_utc'', JTime (ds_UnhealthySinceUTC s))],
     [(''last_recovery_utc'', JTime (ds_LastRecoveryUTC s))],
     omit_if (ds_RecoveryCount s = 0) (''recovery_count'', JNum (ds_RecoveryCount s)),
     omit_if (ds_FailedAttempts s = 0) (''consecutive_failed_attempts'', JNum (ds_FailedAttempts s))]"
  have "list_all2 member_of status_keys ?mss"
    unfolding status_keys_def by (intro list_all2_Cons [THEN iffD2] conjI member_of_rules list_all2_Nil [THEN iffD2] refl)
  moreover have "alias_members s = concat ?mss" by (simp add: alias_members_def)
  ultimately show ?thesis by (metis keys_of_members)
qed

lemma alias_lower: "lower_keys (alias_members s)"
proof -
  obtain N where N: "map fst (alias_members s) = nths status_keys N"
    using alias_keys [of s] by (auto simp: subseq_conv_nths)
  then have "distinct (map fst (alias_members s))" using status_keys_lower(1) by (simp add: distinct_nthsI)
  moreover have "set (map fst (alias_members s)) \<subseteq> set status_keys"
    unfolding N by (rule set_nths_subset)
  ultimately show ?thesis
    using status_keys_lower(2) unfolding lower_keys_def list_all_iff by blast
qed

text \<open>The members after the second pass, as a map.\<close>

definition dropped :: "daemonStatus \<Rightarrow> string \<Rightarrow> json \<Rightarrow> bool" where
  "dropped s k v \<longleftrightarrow> k \<in> set (omittable (ds_Mode s)) \<and> v = JTime 0 \<or>
     ds_RegistrationUTC s = 0 \<and> k = ''registration_age_seconds''"

lemma map_of_filter_members:
  "distinct (map fst xs) \<Longrightarrow> map_of (filter (\<lambda>(k, v). P k v) xs) k =
     (case map_of xs k of None \<Rightarrow> None | Some v \<Rightarrow> if P k v then Some v else None)"
proof (induction xs)
  case (Cons x xs)
  have "map_of (filter (\<lambda>(k, v). P k v) xs) a = None" if "a \<notin> fst ` set xs" for a
    using that by (auto simp: map_of_eq_None_iff)
  with Cons show ?case
    by (cases x) (auto simp: image_iff map_of_eq_None_iff split: option.splits)
qed simp

lemma MarshalJSON_members:
  "MarshalJSON s = (if list_all (json_time_ok \<circ> snd) (status_times s)
     then Some (JObj (sort_key fst (filter (\<lambda>(k, v). \<not> dropped s k v) (alias_members s)))) else None)"
  by (auto simp: MarshalJSON_def enc_alias_def dropped_def time_IsZero_def Let_def split_beta
      intro!: arg_cong [where f = "sort_key fst"] filter_cong)

lemma lower_keys_marshalled:
  assumes "kvs = sort_key fst (filter (\<lambda>(k, v). P k v) (alias_members s))"
  shows "lower_keys kvs"
    and "map_of kvs k = (case map_of (alias_members s) k of None \<Rightarrow> None | Some v \<Rightarrow> if P k v then Some v else None)"
proof -
  let ?f = "filter (\<lambda>(k, v). P k v) (alias_members s)"
  have d: "distinct (map fst (alias_members s))" using alias_lower by (simp add: lower_keys_def)
  have df: "distinct (map fst ?f)" using d by (rule distinct_map_filter)
  have "set kvs = set ?f" "mset (map fst kvs) = mset (map fst ?f)"
    using assms by (simp_all add: mset_map)
  then have dk: "distinct (map fst kvs)" using df by (metis mset_eq_imp_distinct_iff)
  have "map_of kvs = map_of ?f"
    using map_of_inject_set [OF dk df] \<open>set kvs = set ?f\<close> by blast
  with map_of_filter_members [OF d] show "map_of kvs k =
      (case map_of (alias_members s) k of None \<Rightarrow> None | Some v \<Rightarrow> if P k v then Some v else None)" by simp
  have "set (map fst kvs) \<subseteq> set (map fst (alias_members s))" using \<open>set kvs = set ?f\<close> by auto
  with dk alias_lower [of s] show "lower_keys kvs" unfolding lower_keys_def list_all_iff by blast
qed

lemma alias_lookup: "(k, v) \<in> set (alias_members s) \<Longrightarrow> map_of (alias_members s) k = Some v"
  using alias_lower by (simp add: lower_keys_def)

lemma alias_times: "(k, t) \<in> set (status_times s) \<Longrightarrow> map_of (alias_members s) k = Some (JTime t)"
  by (rule alias_lookup) (auto simp: status_times_def alias_members_def)

lemma set_omit_if: "x \<in> set (omit_if b kv) \<longleftrightarrow> \<not> b \<and> x = kv"
  by (simp add: omit_if_def)

lemma set_public_ip: "(k, JTime t) \<notin> set (case ip of None \<Rightarrow> [] | Some b \<Rightarrow> [(''public_ip_present'', JBool b)])"
  by (simp split: option.split)

lemma alias_time_members: "(k, JTime t) \<in> set (alias_members s) \<Longrightarrow> (k, t) \<in> set (status_times s)"
  unfolding alias_members_def status_times_def set_append Un_iff set_omit_if by (simp add: set_public_ip)

lemma refresh_times_omittable:
  assumes "(k, t) \<in> set (status_times s)"
  shows "k \<in> set (omittable ''refresh'')"
proof -
  let ?keys = "[''last_generate_utc'', ''next_refresh_utc'', ''registration_utc'', ''expected_expiry_utc'',
    ''last_health_check_utc'', ''last_healthy_utc'', ''unhealthy_since_utc'', ''last_recovery_utc'']"
  have "map fst (status_times s) = ?keys" by (simp only: status_times_def list.map fst_conv)
  moreover have "k \<in> fst ` set (status_times s)" using assms by force
  ultimately have k: "k \<in> set ?keys" by (metis image_set)
  have "list_all (\<lambda>k. k \<in> set (omittable ''refresh'')) ?keys" by code_simp
  then show ?thesis unfolding list_all_iff using k by (rule bspec)
qed

text \<open>
  C38: status.json never shows a made-up time. A time key that may be left out is written
  exactly when the time is known, with its value; the age of the registration is written
  exactly when the time of the registration is known, also when the age is 0. In refresh mode
  this holds for every time key, so no value is the zero time.
\<close>

theorem status_times_are_real:
  assumes "MarshalJSON s = Some (JObj kvs)"
  shows "(\<forall>(k, t) \<in> set (status_times s). k \<in> set (omittable (ds_Mode s)) \<longrightarrow>
            map_of kvs k = (if t = 0 then None else Some (JTime t))) \<and>
    map_of kvs ''registration_age_seconds'' =
      (if ds_RegistrationUTC s = 0 then None else Some (JNum (ds_RegistrationAgeSecs s))) \<and>
    (ds_Mode s = ''refresh'' \<longrightarrow> (\<forall>k. (k, JTime 0) \<notin> set kvs))"
proof -
  have kvs: "kvs = sort_key fst (filter (\<lambda>(k, v). \<not> dropped s k v) (alias_members s))"
    using assms by (simp add: MarshalJSON_members split: if_splits)
  note look = lower_keys_marshalled(2) [OF kvs]
  have "map_of kvs k = (if t = 0 then None else Some (JTime t))"
    if "(k, t) \<in> set (status_times s)" "k \<in> set (omittable (ds_Mode s))" for k t
    using that(2) by (auto simp: look alias_times [OF that(1)] dropped_def omittable_def split: if_splits)
  moreover have "map_of (alias_members s) ''registration_age_seconds'' = Some (JNum (ds_RegistrationAgeSecs s))"
    by (rule alias_lookup) (simp add: alias_members_def)
  then have "map_of kvs ''registration_age_seconds'' =
      (if ds_RegistrationUTC s = 0 then None else Some (JNum (ds_RegistrationAgeSecs s)))"
    by (simp add: look dropped_def omittable_def)
  moreover have "(k, JTime 0) \<notin> set kvs" if "ds_Mode s = ''refresh''" for k
  proof
    assume "(k, JTime 0) \<in> set kvs"
    then have "(k, JTime 0) \<in> set (alias_members s)" "\<not> dropped s k (JTime 0)" by (auto simp: kvs)
    with refresh_times_omittable [OF alias_time_members] show False using that by (simp add: dropped_def)
  qed
  ultimately show ?thesis by auto
qed

definition sample_status :: daemonStatus where
  "sample_status = zero_daemonStatus\<lparr>ds_Region := ''nl'', ds_Mode := ''refresh'', ds_LastGenerateUTC := hour,
     ds_NextRefreshUTC := 2 * hour, ds_RegistrationUTC := hour\<rparr>"

lemma sample_status_times: "list_all (json_time_ok \<circ> snd) (status_times sample_status)"
  by (simp add: status_times_def sample_status_def zero_daemonStatus_def json_time_ok_def)

theorem status_times_are_real_witness:
  "\<exists>kvs. MarshalJSON sample_status = Some (JObj kvs) \<and>
     map_of kvs ''registration_age_seconds'' = Some (JNum 0) \<and> map_of kvs ''last_recovery_utc'' = None \<and>
     map_of kvs ''registration_utc'' = Some (JTime hour) \<and> (''last_healthy_utc'', JTime 0) \<notin> set kvs"
proof -
  obtain kvs where kvs: "MarshalJSON sample_status = Some (JObj kvs)"
    using sample_status_times by (simp add: MarshalJSON_members)
  from status_times_are_real [OF kvs] kvs show ?thesis
    by (simp add: status_times_def omittable_def sample_status_def zero_daemonStatus_def)
qed

section \<open>Reading back\<close>

lemma readPreviousRegion_of_status:
  assumes path: "\<not> temp_path path" and ok: "fst (writeStatus path s w) = Ok ()"
    and readable: "shd (w_calls v) = None" and kept: "w_files v path = w_files (snd (writeStatus path s w)) path"
  shows "fst (readPreviousRegion path v) = (if TrimSpace (ds_Region s) = [] then None else Some (TrimSpace (ds_Region s)))"
proof -
  let ?kvs = "sort_key fst (filter (\<lambda>(k, v). \<not> dropped s k v) (alias_members s))"
  have m: "MarshalJSON s = Some (JObj ?kvs)"
    using ok by (auto simp: writeStatus_def MarshalJSON_members split: if_splits)
  then have ws: "writeStatus path s w = atomicWriteFile path (Doc (JObj ?kvs)) 420 w" by (simp add: writeStatus_def)
  obtain f where f: "w_files v path = Some f" "f_content f = Doc (JObj ?kvs)"
    using aw.target_Ok [OF path ok [unfolded ws]] kept [unfolded ws] by auto
  have "map_of (alias_members s) ''region'' = Some (JStr (ds_Region s))"
    by (rule alias_lookup) (simp add: alias_members_def)
  then have "map_of ?kvs ''region'' = Some (JStr (ds_Region s))"
    using lower_keys_marshalled(2) [OF refl, of "\<lambda>k v. \<not> dropped s k v" s "''region''"]
    by (simp add: dropped_def omittable_def)
  moreover have "lower_text ''region''" by code_simp
  ultimately have "field dec_string [] ''region'' (JObj ?kvs) = Some (ds_Region s)"
    using obj_get_map_of [OF lower_keys_marshalled(1) [OF refl, of "\<lambda>k v. \<not> dropped s k v" s], of "''region''" dec_string "[]"]
    by (simp add: field_def)
  with f readable show ?thesis by (simp add: readPreviousRegion_def ReadFile_eq json_of_def)
qed

text \<open>
  The region a status file was written for is the region a later start reads from it,
  trimmed; a status without a region vouches for none. (The file is one the daemon wrote with
  success and nobody changed since, and the read succeeds.)
\<close>

theorem status_region_roundtrip:
  assumes "\<not> temp_path path" and "fst (writeStatus path s w) = Ok ()"
    and "shd (w_calls v) = None" and "w_files v path = w_files (snd (writeStatus path s w)) path"
  shows "fst (readPreviousRegion path v) = (if TrimSpace (ds_Region s) = [] then None else Some (TrimSpace (ds_Region s)))"
  using assms by (rule readPreviousRegion_of_status)

theorem status_region_roundtrip_witness:
  "fst (readPreviousRegion ''/state/status.json'' (snd (writeStatus ''/state/status.json'' sample_status (calm_world hour)))) = Some ''nl''"
proof -
  let ?p = "''/state/status.json''" and ?r = "writeStatus ''/state/status.json'' sample_status (calm_world hour)"
  have p: "\<not> temp_path ?p" by (simp add: temp_path_def path_base_def)
  have "fst ?r = Ok () \<and> calm_calls (snd ?r)"
    using sample_status_times p by (simp add: writeStatus_def MarshalJSON_members atomicWriteFile_calm)
  moreover have "TrimSpace ''nl'' = ''nl''" by code_simp
  ultimately show ?thesis
    using status_region_roundtrip [OF p, of sample_status "calm_world hour" "snd ?r"]
    by (simp add: calm_calls_shd sample_status_def zero_daemonStatus_def)
qed

text \<open>The pending port forward as a typed document.\<close>

definition ok_pending :: "pendingPortForward \<Rightarrow> bool" where
  "ok_pending p \<longleftrightarrow> json_time_ok (pp_CreatedUTC p) \<and> in64 (ak_ServerPort (pp_Key p))"

lemma addkey_keys_lower [simp]:
  "lower_text ''status''" "lower_text ''server_key''" "lower_text ''server_port''" "lower_text ''server_ip''"
  "lower_text ''server_vip''" "lower_text ''gateway''" "lower_text ''peer_ip''" "lower_text ''peer_pubkey''"
  "lower_text ''dns_servers''" "lower_text ''created_utc''" "lower_text ''key''"
  by code_simp+

lemma dec_enc_AddKeyResult:
  assumes "in64 (ak_ServerPort k)"
  shows "dec_AddKeyResult (enc_AddKeyResult k) = Some k"
proof -
  have dns: "dec_elems dec_string [] (map JStr xs) = Some xs" for xs
    by (rule dec_elems_map) simp_all
  show ?thesis
    using assms by (cases k) (simp add: dec_AddKeyResult_def enc_AddKeyResult_def field_def dns EqualFold_lower)
qed

interpretation pending_json: json_type enc_pending dec_pending ok_pending
proof unfold_locales
  fix p assume "ok_pending p"
  then show "\<exists>j. enc_pending p = Some j" by (simp add: ok_pending_def enc_pending_def enc_time_def)
next
  fix p j assume "ok_pending p" and j: "enc_pending p = Some j"
  then have "dec_AddKeyResult (enc_AddKeyResult (pp_Key p)) = Some (pp_Key p)"
    by (intro dec_enc_AddKeyResult) (simp add: ok_pending_def)
  moreover have "enc_AddKeyResult k \<noteq> JNull" for k by (simp add: enc_AddKeyResult_def)
  ultimately show "dec_pending j = Some p"
    using j \<open>ok_pending p\<close>
    by (cases p) (auto simp: dec_pending_def enc_pending_def enc_time_def ok_pending_def field_def EqualFold_lower)
qed

text \<open>
  C31: The pending port forward survives a restart. What the daemon writes before it exits to
  rejoin the new network namespace is what the next run reads: the same registration, in all
  its fields. After removing it, the next run finds none.
\<close>

theorem pending_port_forward_survives:
  assumes path: "\<not> temp_path path" and port: "in64 (ak_ServerPort key)"
    and ok: "fst (writePendingPortForward path key w) = Ok ()"
    and kept: "w_files v path = w_files (snd (writePendingPortForward path key w)) path"
    and readable: "shd (w_calls v) = None" "shd (w_calls (snd (removePendingPortForward path v))) = None"
  shows "\<exists>p. fst (readPendingPortForward path v) = Ok (Some p) \<and> pp_Key p = key \<and> pp_CreatedUTC p = fst (time_Now w) \<and>
    fst (readPendingPortForward path (snd (removePendingPortForward path v))) = Ok None"
proof -
  obtain now w1 where n: "time_Now w = (now, w1)" by (cases "time_Now w")
  let ?p = "\<lparr>pp_CreatedUTC = now, pp_Key = key\<rparr>"
  obtain j where j: "enc_pending ?p = Some j"
    using ok n by (cases "enc_pending ?p") (simp_all add: writePendingPortForward_def)
  have eq: "writePendingPortForward path key w = atomicWriteFile path (Doc j) 384 w1"
    using n j by (simp add: writePendingPortForward_def)
  obtain f where f: "w_files v path = Some f" "f_content f = Doc j"
    using aw.target_Ok [OF path ok [unfolded eq]] kept [unfolded eq] by auto
  have "ok_pending ?p"
    using j port by (auto simp: enc_pending_def enc_time_def ok_pending_def split: if_splits)
  then have "dec_pending j = Some ?p" using j by (rule pending_json.dec_enc)
  with f readable(1) have "fst (readPendingPortForward path v) = Ok (Some ?p)"
    by (simp add: readPendingPortForward_def ReadFile_eq json_of_def)
  moreover have "w_files (snd (removePendingPortForward path v)) path = None"
    using f readable(1) by (simp add: removePendingPortForward_def Remove_def syscall_def emit_def)
  with readable(2) have "fst (readPendingPortForward path (snd (removePendingPortForward path v))) = Ok None"
    by (simp add: readPendingPortForward_def ReadFile_eq)
  ultimately show ?thesis by (simp add: n)
qed

theorem pending_port_forward_survives_witness:
  "let v = snd (writePendingPortForward ''/state/p.json'' (zero_AddKeyResult\<lparr>ak_Gateway := ''10.0.0.1''\<rparr>) (calm_world hour))
   in (\<exists>p. fst (readPendingPortForward ''/state/p.json'' v) = Ok (Some p) \<and> ak_Gateway (pp_Key p) = ''10.0.0.1'') \<and>
      fst (readPendingPortForward ''/state/p.json'' (snd (removePendingPortForward ''/state/p.json'' v))) = Ok None"
proof -
  let ?k = "zero_AddKeyResult\<lparr>ak_Gateway := ''10.0.0.1''\<rparr>" and ?path = "''/state/p.json''"
  let ?r = "writePendingPortForward ?path ?k (calm_world hour)"
  have p: "\<not> temp_path ?path" by (simp add: temp_path_def path_base_def)
  obtain j where j: "enc_pending \<lparr>pp_CreatedUTC = hour, pp_Key = ?k\<rparr> = Some j"
    by (simp add: enc_pending_def enc_time_def json_time_ok_def)
  have "fst (time_Now (calm_world hour)) = hour" "no_temps (snd (time_Now (calm_world hour)))"
    by (simp_all add: time_Now_def calm_world_def no_temps_def)
  then have r: "?r = atomicWriteFile ?path (Doc j) 384 (snd (time_Now (calm_world hour)))" "fst ?r = Ok ()" "calm_calls (snd ?r)"
    using j p by (simp_all add: writePendingPortForward_def split_beta atomicWriteFile_calm)
  then have c: "shd (w_calls (snd ?r)) = None" "shd (w_calls (snd (removePendingPortForward ?path (snd ?r)))) = None"
    by (auto simp: calm_calls_def removePendingPortForward_def Remove_def syscall_def emit_def split: res.splits prod.splits if_splits)
  have "in64 (ak_ServerPort ?k)" by (simp add: zero_AddKeyResult_def in64_def)
  from pending_port_forward_survives [OF p this r(2) refl c] show ?thesis unfolding Let_def by fastforce
qed

end
