(* ===== verification/Timing.thy ===== *)
theory Timing
  imports Health
begin

text \<open>
  Waiting, from main.go: the jitter on a refresh interval, the sleeps of the daemon loop, and
  the wait for the port-forwarding gateway, with \<^verbatim>\<open>NormalizeGateway\<close> of pia/pf.go.
\<close>

section \<open>Jitter and sleeps\<close>

definition minDuration :: "duration \<Rightarrow> duration \<Rightarrow> duration" where
  "minDuration a b = (if a < b then a else b)"

definition applyJitter :: "duration \<Rightarrow> duration \<Rightarrow> world \<Rightarrow> duration \<times> world" where
  "applyJitter interval jitterMax w =
     (if jitterMax \<le> 0 then (interval, w)
      else case rand_Int jitterMax w of
             (None, w) \<Rightarrow> (interval, w)
           | (Some n, w) \<Rightarrow>
               (let offset = n - go_div jitterMax 2 in (wrap64 (interval + offset), w)))"

definition sleepUntil :: "time \<Rightarrow> world \<Rightarrow> world" where
  "sleepUntil t w =
     (let (now, w) = time_Now w; d = time_Sub t now in
      if d \<le> 0 then w else time_Sleep d w)"

definition sleepAfterFailure :: "duration \<Rightarrow> world \<Rightarrow> world" where
  "sleepAfterFailure d w = (if d \<le> 0 then w else time_Sleep d w)"

text \<open>
  Tickers. A ticker that is not read keeps one tick and drops the others, so the tick after
  a read is the first multiple of the period after it.
\<close>

definition next_tick :: "duration \<Rightarrow> time \<Rightarrow> time \<Rightarrow> time" where
  "next_tick period tick now = tick + period * ((now - tick) div period + 1)"

definition ticker_panic :: string where
  "ticker_panic = ''non-positive interval for NewTicker''"

lemma applyJitter_quiet [frame]: "quiet w (snd (applyJitter i j w))"
  using rand_Int_quiet [of w j]
  by (auto simp: applyJitter_def Let_def split: prod.splits option.splits)

text \<open>The result is off by at most half the maximum, for every random number.\<close>

lemma applyJitter_near:
  assumes "0 < j" and "\<bar>i\<bar> + j < 2 ^ 63"
  shows "i - j div 2 \<le> fst (applyJitter i j w) \<and> fst (applyJitter i j w) \<le> i + j div 2"
proof (cases "rand_Int j w")
  case (Pair r v)
  show ?thesis
  proof (cases r)
    case None
    with Pair assms show ?thesis by (simp add: applyJitter_def)
  next
    case (Some n)
    with Pair have "0 \<le> n" "n < j" using assms by (auto simp: rand_Int_def)
    then have n: "- (j div 2) \<le> n - j div 2" "n - j div 2 \<le> j div 2" using assms(1) by linarith+
    then have "in64 (i + (n - j div 2))" using assms by (auto simp: in64_def abs_if split: if_splits)
    with Pair Some n assms show ?thesis by (simp add: applyJitter_def)
  qed
qed

text \<open>
  Jitter. For every outcome of the random source, also when it fails, the interval the
  daemons wait differs from the configured one by at most half of the configured maximum; a
  maximum of zero or less leaves it exactly as it is. (The sum has to fit a duration, which
  it does below 146 years.)
\<close>

theorem applyJitter_bounds:
  assumes "\<bar>i\<bar> + \<bar>j\<bar> < 2 ^ 63"
  shows "\<bar>fst (applyJitter i j w) - i\<bar> \<le> max 0 j div 2"
proof (cases "0 < j")
  case True
  with applyJitter_near [OF True, of i w] assms show ?thesis by (simp add: abs_le_iff)
qed (simp add: applyJitter_def)

theorem applyJitter_bounds_witness:
  "\<bar>fst (applyJitter (12 * hour) (30 * minute) (calm_world 1)) - 12 * hour\<bar> \<le> max 0 (30 * minute) div 2 \<and>
   fst (applyJitter (12 * hour) (30 * minute) (calm_world 1)) = 12 * hour - 15 * minute"
proof
  show "\<bar>fst (applyJitter (12 * hour) (30 * minute) (calm_world 1)) - 12 * hour\<bar> \<le> max 0 (30 * minute) div 2"
    by (rule applyJitter_bounds) simp
  show "fst (applyJitter (12 * hour) (30 * minute) (calm_world 1)) = 12 * hour - 15 * minute"
    by (simp add: applyJitter_def rand_Int_def calm_world_def in64_def)
qed

section \<open>The gateway's address\<close>

text \<open>
  \<^verbatim>\<open>net.SplitHostPort\<close>, as far as it fails or not: an optional bracketed host, one colon
  before the port, no other colon or bracket.
\<close>

definition SplitHostPort_ok :: "string \<Rightarrow> bool" where
  "SplitHostPort_ok s =
     (case last_index '':'' s of
        None \<Rightarrow> False
      | Some i \<Rightarrow>
          if s \<noteq> [] \<and> hd s = CHR ''[''
          then (case dropWhile (\<lambda>c. c \<noteq> CHR '']'') s of
                  [] \<Rightarrow> False
                | _ # rest \<Rightarrow>
                    length s - length rest = i \<and>
                    \<not> contains ''['' (drop 1 s) \<and> \<not> contains '']'' rest)
          else \<not> contains '':'' (take i s) \<and> \<not> contains ''['' s \<and> \<not> contains '']'' s)"

definition NormalizeGateway :: "string \<Rightarrow> string" where
  "NormalizeGateway gateway =
     (let gw = TrimSpace gateway in
      if gw = [] then [] else if SplitHostPort_ok gw then gw else gw @ '':19999'')"

section \<open>Waiting for the gateway\<close>

definition defaultGatewayInterval :: duration where "defaultGatewayInterval = 5 * second"

definition gateway_unreachable :: "string \<Rightarrow> goerr \<Rightarrow> goerr" where
  "gateway_unreachable address e =
     errors_Wrap (''PIA port-forwarding gateway '' @ address @ '' is not reachable through the active tunnel'') e"

text \<open>The loop, with a bound on its rounds; \<open>None\<close> is a loop that is still running.\<close>

fun gateway_loop :: "nat \<Rightarrow> string \<Rightarrow> duration \<Rightarrow> duration \<Rightarrow> time \<Rightarrow> world \<Rightarrow> (unit res \<times> world) option" where
  "gateway_loop 0 address timeout interval deadline w = None"
| "gateway_loop (Suc n) address timeout interval deadline w =
     (case net_Dial address w of
        (None, w) \<Rightarrow> Some (Ok (), w)
      | (Some e, w) \<Rightarrow>
          if timeout \<le> 0 then Some (Err (gateway_unreachable address e), w)
          else let (now, w) = time_Now w in
               if \<not> time_Before (time_Add now interval) deadline
               then Some (Err (gateway_unreachable address e), w)
               else gateway_loop n address timeout interval deadline (time_Sleep interval w))"

definition waitForGateway :: "nat \<Rightarrow> string \<Rightarrow> duration \<Rightarrow> duration \<Rightarrow> world \<Rightarrow> (unit res \<times> world) option" where
  "waitForGateway fuel gateway timeout interval w =
     (let address = NormalizeGateway gateway in
      if address = [] then Some (Err (errors_New ''port forwarding gateway is empty''), w)
      else let interval = (if interval \<le> 0 then defaultGatewayInterval else interval);
               (now, w) = time_Now w
           in gateway_loop fuel address timeout interval (time_Add now timeout) w)"

lemma gateway_loop_ends:
  assumes "0 < interval" and "forward_clock w" and "deadline - w_clock w \<le> int n * interval"
  shows "\<exists>r. gateway_loop (Suc n) address timeout interval deadline w = Some r"
  using assms(2,3)
proof (induction n arbitrary: w)
  case 0
  then have "deadline \<le> w_clock w + shd (w_ticks w)" using forward_clock_shd [of w] by simp
  then show ?case
    using assms(1)
    by (auto simp: net_Dial_def emit_def time_Now_def time_ops split: option.splits)
next
  case (Suc n)
  define u where "u = time_Sleep interval (snd (time_Now (snd (net_Dial address w))))"
  have "forward_clock u"
    using Suc.prems(1) by (simp add: u_def time_Sleep_def time_Now_def net_Dial_def emit_def forward_clock_def
        snth.simps(2) [symmetric] del: snth.simps)
  moreover have "w_clock u = w_clock w + shd (w_ticks w) + interval"
    using assms(1) by (simp add: u_def time_Sleep_def time_Now_def net_Dial_def emit_def)
  then have "deadline - w_clock u \<le> int n * interval"
    using Suc.prems forward_clock_shd [of w] by (simp add: distrib_right)
  ultimately have "\<exists>r. gateway_loop (Suc n) address timeout interval deadline u = Some r"
    by (rule Suc.IH)
  then show ?case
    unfolding gateway_loop.simps(2) [of "Suc n"]
    by (auto simp: u_def split: prod.splits option.splits if_splits simp del: gateway_loop.simps)
qed

lemma waitForGateway_ends:
  assumes "forward_clock w" and "timeout \<le> int n * (if interval \<le> 0 then 5 * second else interval)"
  shows "\<exists>r. waitForGateway (Suc n) gateway timeout interval w = Some r"
proof (cases "NormalizeGateway gateway = []")
  case False
  let ?d = "if interval \<le> 0 then 5 * second else interval"
  obtain now v where n: "time_Now w = (now, v)" by (cases "time_Now w")
  then have "now = w_clock v" "forward_clock v"
    using forward_clock_stl [OF assms(1)] by (auto simp: time_Now_def)
  with assms(2) have "\<exists>r. gateway_loop (Suc n) (NormalizeGateway gateway) timeout ?d (now + timeout) v = Some r"
    by (intro gateway_loop_ends) auto
  with False n show ?thesis
    by (cases "interval \<le> 0")
      (simp_all add: waitForGateway_def Let_def time_Add_def defaultGatewayInterval_def del: gateway_loop.simps)
qed (simp add: waitForGateway_def)

text \<open>
  C28: The wait for the gateway ends. On a clock that does not run backwards, with an interval
  \<open>d\<close> between attempts (5 seconds when none is configured), \<open>timeout / d + 1\<close> rounds are
  enough for the loop to return, whatever the network answers; a timeout of zero or less
  means a single attempt.
\<close>

theorem waitForGateway_terminates:
  assumes "forward_clock w" and "timeout \<le> int n * (if interval \<le> 0 then 5 * second else interval)"
  shows "\<exists>r. waitForGateway (Suc n) gateway timeout interval w = Some r"
  using assms by (rule waitForGateway_ends)

theorem waitForGateway_terminates_witness:
  "\<exists>r. waitForGateway 25 ''10.0.0.1'' (2 * minute) (5 * second) ((calm_world 1)\<lparr>w_dials := sconst (Some (errors_New ''refused''))\<rparr>) = Some r"
  using waitForGateway_terminates [of "(calm_world 1)\<lparr>w_dials := sconst (Some (errors_New ''refused''))\<rparr>" "2 * minute" 24 "5 * second" "''10.0.0.1''"]
  by (simp add: forward_clock_def calm_world_def del: snth.simps)

lemma contains_single: "contains [c] s \<longleftrightarrow> c \<in> set s"
  by (induction s) auto

lemma SplitHostPort_plain:
  assumes "\<not> contains_any host '':[]''" and "\<not> contains_any port '':[]''"
  shows "SplitHostPort_ok (host @ '':'' @ port)" and "\<not> SplitHostPort_ok host"
proof -
  have h: "CHR '':'' \<notin> set host" "CHR ''['' \<notin> set host" "CHR '']'' \<notin> set host"
    and p: "CHR '':'' \<notin> set port" "CHR ''['' \<notin> set port" "CHR '']'' \<notin> set port"
    using assms by (auto simp: contains_any_def)
  have "last_index '':'' (host @ '':'' @ port) = Some (length host)"
    using p(1) by (intro last_index_here) (simp_all add: contains_single)
  moreover have "host @ '':'' @ port \<noteq> [] \<and> hd (host @ '':'' @ port) \<noteq> CHR ''[''"
    using h(2) by (cases host) auto
  ultimately show "SplitHostPort_ok (host @ '':'' @ port)"
    using h p by (simp add: SplitHostPort_ok_def contains_single)
  have "last_index '':'' host = None" using h(1) by (simp add: last_index_None contains_single)
  then show "\<not> SplitHostPort_ok host" by (simp add: SplitHostPort_ok_def)
qed

text \<open>
  The gateway's address. A host name or IPv4 address without a port gets PIA's port
  19999, one that has a port keeps it, outer white space is dropped, and the result is
  stable: normalising it again changes nothing.
\<close>

theorem NormalizeGateway_port:
  assumes "host \<noteq> []" and "plain_byte (hd host)" and "plain_byte (last host)" and "\<not> contains_any host '':[]''"
    and "port \<noteq> []" and "plain_byte (last port)" and "\<not> contains_any port '':[]''"
  shows "NormalizeGateway host = host @ '':19999'' \<and>
    NormalizeGateway (host @ '':'' @ port) = host @ '':'' @ port \<and>
    NormalizeGateway (NormalizeGateway host) = NormalizeGateway host"
proof -
  have keep: "NormalizeGateway (host @ '':'' @ q) = host @ '':'' @ q"
    if "q \<noteq> []" "plain_byte (last q)" "\<not> contains_any q '':[]''" for q
    using that assms SplitHostPort_plain(1) [OF assms(4) that(3)] TrimSpace_plain [of "host @ '':'' @ q"]
    by (simp add: NormalizeGateway_def)
  have "NormalizeGateway host = host @ '':'' @ ''19999''"
    using assms SplitHostPort_plain(2) [OF assms(4,7)] TrimSpace_plain [of host]
    by (simp add: NormalizeGateway_def)
  moreover have "NormalizeGateway (host @ '':'' @ ''19999'') = host @ '':'' @ ''19999''"
    by (rule keep) (simp_all add: plain_byte_def contains_any_def)
  ultimately show ?thesis using keep [OF assms(5-7)] by simp
qed

theorem NormalizeGateway_port_witness:
  "NormalizeGateway ''10.8.0.1'' = ''10.8.0.1:19999'' \<and> NormalizeGateway ''10.8.0.1:1337'' = ''10.8.0.1:1337''"
  using NormalizeGateway_port [of "''10.8.0.1''" "''1337''"] by (simp add: plain_byte_def contains_any_def)


lemma gateway_loop_net_run:
  "gateway_loop n address timeout interval deadline w = Some r \<Longrightarrow> net_run w (snd r) \<and> (\<forall>m. fst r \<noteq> Panic m)"
proof (induction n arbitrary: w)
  case (Suc n)
  let ?v = "snd (net_Dial address w)" and ?u = "snd (time_Now (snd (net_Dial address w)))"
  have 1: "net_run w ?v" by (rule emits_net_run [OF net_Dial_emits]) simp
  also have "net_run ?v ?u" by (rule quiet_runs [OF time_Now_quiet])
  finally have 2: "net_run w ?u" .
  also have "net_run ?u (time_Sleep interval ?u)" by (rule emits_net_run [OF time_Sleep_emits]) simp
  finally have 3: "net_run w (time_Sleep interval ?u)" .
  from Suc.prems have "r = (Ok (), ?v) \<or> (\<exists>e. r = (Err e, ?v)) \<or> (\<exists>e. r = (Err e, ?u)) \<or>
      gateway_loop n address timeout interval deadline (time_Sleep interval ?u) = Some r"
    by (auto simp: Let_def split: prod.splits option.splits if_splits)
  with 1 2 3 Suc.IH [of "time_Sleep interval ?u"] show ?case by (auto intro: runs_trans)
qed simp

lemma waitForGateway_net_run:
  assumes "waitForGateway n gateway timeout interval w = Some r"
  shows "net_run w (snd r)" and "\<And>m. fst r \<noteq> Panic m"
proof -
  obtain now v where n: "time_Now w = (now, v)" by (cases "time_Now w")
  then have v: "net_run w v" using quiet_runs [OF time_Now_quiet [of w]] by simp
  let ?a = "NormalizeGateway gateway" and ?d = "if interval \<le> 0 then defaultGatewayInterval else interval"
  have "r = (Err (errors_New ''port forwarding gateway is empty''), w) \<or>
      gateway_loop n ?a timeout ?d (time_Add now timeout) v = Some r"
    using assms by (simp add: waitForGateway_def Let_def n split: if_split_asm del: gateway_loop.simps)
  then have "net_run w (snd r) \<and> (\<forall>m. fst r \<noteq> Panic m)"
  proof
    assume "gateway_loop n ?a timeout ?d (time_Add now timeout) v = Some r"
    from gateway_loop_net_run [OF this] v show ?thesis by (blast intro: runs_trans)
  qed simp
  then show "net_run w (snd r)" and "\<And>m. fst r \<noteq> Panic m" by simp_all
qed

end
