(* ===== verification/Lifetime.thy ===== *)
theory Lifetime
  imports Atomic_Write "HOL-Library.Monad_Syntax"
begin

text \<open>
  pia/lifetime.go: what the refresh daemon has learned about how long a registration
  lives. The record, its JSON form, the store under the state directory, and the
  estimates the daemon derives from it. \<open>RegistrationAge\<close> is from pia/health.go.
\<close>

section \<open>The record\<close>

record LifetimeRecord =
  lr_Version :: int
  lr_CurrentRegistrationUTC :: time
  lr_ObservedLifetimesSeconds :: "int list"
  lr_LastObservedLossUTC :: time

definition zero_LifetimeRecord :: LifetimeRecord where
  "zero_LifetimeRecord = \<lparr>lr_Version = 0, lr_CurrentRegistrationUTC = 0,
     lr_ObservedLifetimesSeconds = [], lr_LastObservedLossUTC = 0\<rparr>"

definition lifetimeRecordVersion :: int where "lifetimeRecordVersion = 1"
definition lifetimeRecordFileName :: string where
  "lifetimeRecordFileName = ''registration_lifetime.json''"
definition maxObservedLifetimes :: nat where "maxObservedLifetimes = 20"
definition minLifetimeAwareRefresh :: duration where "minLifetimeAwareRefresh = 30 * minute"

lemmas lifetime_consts = lifetimeRecordVersion_def lifetimeRecordFileName_def
  maxObservedLifetimes_def minLifetimeAwareRefresh_def

definition fresh_LifetimeRecord :: LifetimeRecord where
  "fresh_LifetimeRecord = zero_LifetimeRecord\<lparr>lr_Version := lifetimeRecordVersion\<rparr>"

text \<open>An empty slice is written as \<^verbatim>\<open>null\<close>.\<close>

definition enc_LifetimeRecord :: "LifetimeRecord \<Rightarrow> json option" where
  "enc_LifetimeRecord r = do {
     birth \<leftarrow> enc_time (lr_CurrentRegistrationUTC r);
     loss \<leftarrow> enc_time (lr_LastObservedLossUTC r);
     Some (JObj [(''version'', JNum (lr_Version r)),
                 (''current_registration_utc'', birth),
                 (''observed_lifetimes_seconds'',
                    if lr_ObservedLifetimesSeconds r = [] then JNull
                    else JList (map JNum (lr_ObservedLifetimesSeconds r))),
                 (''last_observed_loss_utc'', loss)])
   }"

definition dec_LifetimeRecord :: "json \<Rightarrow> LifetimeRecord option" where
  "dec_LifetimeRecord j = do {
     kvs \<leftarrow> json_members j;
     v \<leftarrow> obj_get dec_int ''version'' 0 kvs;
     birth \<leftarrow> obj_get dec_time ''current_registration_utc'' 0 kvs;
     obs \<leftarrow> obj_get (dec_list dec_int 0) ''observed_lifetimes_seconds'' [] kvs;
     loss \<leftarrow> obj_get dec_time ''last_observed_loss_utc'' 0 kvs;
     Some \<lparr>lr_Version = v, lr_CurrentRegistrationUTC = birth,
           lr_ObservedLifetimesSeconds = obs, lr_LastObservedLossUTC = loss\<rparr>
   }"

definition ok_LifetimeRecord :: "LifetimeRecord \<Rightarrow> bool" where
  "ok_LifetimeRecord r \<longleftrightarrow>
     in64 (lr_Version r) \<and> list_all in64 (lr_ObservedLifetimesSeconds r) \<and>
     json_time_ok (lr_CurrentRegistrationUTC r) \<and> json_time_ok (lr_LastObservedLossUTC r)"

lemma lifetime_keys_lower [simp]:
  "lower_text ''version''" "lower_text ''current_registration_utc''"
  "lower_text ''observed_lifetimes_seconds''" "lower_text ''last_observed_loss_utc''"
  by code_simp+

interpretation lifetime_json: json_type enc_LifetimeRecord dec_LifetimeRecord ok_LifetimeRecord
proof unfold_locales
  fix r assume "ok_LifetimeRecord r"
  then show "\<exists>j. enc_LifetimeRecord r = Some j"
    by (simp add: ok_LifetimeRecord_def enc_LifetimeRecord_def enc_time_def)
next
  fix r j assume ok: "ok_LifetimeRecord r" and "enc_LifetimeRecord r = Some j"
  then have j: "j = JObj [(''version'', JNum (lr_Version r)),
      (''current_registration_utc'', JTime (lr_CurrentRegistrationUTC r)),
      (''observed_lifetimes_seconds'', if lr_ObservedLifetimesSeconds r = [] then JNull
         else JList (map JNum (lr_ObservedLifetimesSeconds r))),
      (''last_observed_loss_utc'', JTime (lr_LastObservedLossUTC r))]"
    by (simp add: ok_LifetimeRecord_def enc_LifetimeRecord_def enc_time_def)
  have obs: "dec_elems dec_int 0 (map JNum (lr_ObservedLifetimesSeconds r)) =
      Some (lr_ObservedLifetimesSeconds r)"
    using ok by (intro dec_elems_map) (auto simp: ok_LifetimeRecord_def list_all_iff)
  show "dec_LifetimeRecord j = Some r"
    using ok obs unfolding j
    by (cases r) (auto simp: dec_LifetimeRecord_def ok_LifetimeRecord_def EqualFold_lower)
qed

section \<open>The store\<close>

record LifetimeStore =
  ls_path :: string

definition NewLifetimeStore :: "string \<Rightarrow> LifetimeStore" where
  "NewLifetimeStore stateDir = \<lparr>ls_path = path_Join stateDir lifetimeRecordFileName\<rparr>"

definition Load :: "LifetimeStore \<Rightarrow> world \<Rightarrow> LifetimeRecord res \<times> world" where
  "Load s w =
     (case ReadFile (ls_path s) w of
        (Err e, w) \<Rightarrow> if errors_Is e ErrNotExist then (Ok fresh_LifetimeRecord, w) else (Err e, w)
      | (Panic m, w) \<Rightarrow> (Panic m, w)
      | (Ok data, w) \<Rightarrow>
          (case Option.bind (json_of data w) dec_LifetimeRecord of
             None \<Rightarrow> (Ok fresh_LifetimeRecord, w)
           | Some rec \<Rightarrow>
               (Ok (if lr_Version rec = 0 then rec\<lparr>lr_Version := lifetimeRecordVersion\<rparr> else rec), w)))"

definition Save :: "LifetimeStore \<Rightarrow> LifetimeRecord \<Rightarrow> world \<Rightarrow> unit res \<times> world" where
  "Save s rec w =
     (case enc_LifetimeRecord (rec\<lparr>lr_Version := lifetimeRecordVersion\<rparr>) of
        None \<Rightarrow> (Err marshal_time_error, w)
      | Some j \<Rightarrow> atomicWriteState (ls_path s) (Doc j) 420 w)"

definition RegistrationAge :: "time \<Rightarrow> time \<Rightarrow> duration option" where
  "RegistrationAge birthUTC now = (if time_IsZero birthUTC then None else Some (time_Sub now birthUTC))"

definition RecordNewRegistration :: "LifetimeStore \<Rightarrow> time \<Rightarrow> world \<Rightarrow> LifetimeRecord res \<times> world" where
  "RecordNewRegistration s now w =
     io_try (Load s w) (\<lambda>rec w.
     let rec = rec\<lparr>lr_CurrentRegistrationUTC := now\<rparr> in
     io_try (Save s rec w) (\<lambda>_ w. (Ok rec, w)))"

definition note_loss :: "LifetimeRecord \<Rightarrow> duration \<Rightarrow> time \<Rightarrow> LifetimeRecord" where
  "note_loss rec age now =
     (let obs = lr_ObservedLifetimesSeconds rec @ [whole_seconds age];
          obs = (if length obs > maxObservedLifetimes then drop (length obs - maxObservedLifetimes) obs else obs)
      in rec\<lparr>lr_ObservedLifetimesSeconds := obs, lr_LastObservedLossUTC := now\<rparr>)"

definition RecordObservedLoss :: "LifetimeStore \<Rightarrow> time \<Rightarrow> world \<Rightarrow> LifetimeRecord res \<times> world" where
  "RecordObservedLoss s now w =
     io_try (Load s w) (\<lambda>rec w.
     case RegistrationAge (lr_CurrentRegistrationUTC rec) now of
       None \<Rightarrow> (Ok rec, w)
     | Some age \<Rightarrow>
         if age \<le> 0 then (Ok rec, w)
         else let rec = note_loss rec age now in
              io_try (Save s rec w) (\<lambda>_ w. (Ok rec, w)))"

section \<open>Estimates\<close>

definition MeasuredLifetime :: "LifetimeRecord \<Rightarrow> duration option" where
  "MeasuredLifetime r =
     (if lr_ObservedLifetimesSeconds r = [] then None
      else Some (wrap64 (hd (sort (lr_ObservedLifetimesSeconds r)) * second)))"

definition ExpectedExpiryUTC :: "LifetimeRecord \<Rightarrow> time option" where
  "ExpectedExpiryUTC r =
     (if time_IsZero (lr_CurrentRegistrationUTC r) then None
      else case MeasuredLifetime r of
             None \<Rightarrow> None
           | Some life \<Rightarrow> Some (time_Add (lr_CurrentRegistrationUTC r) life))"

definition LifetimeMeasured :: string where "LifetimeMeasured = ''measured''"
definition LifetimeFallback :: string where "LifetimeFallback = ''fallback''"

definition ExpectedExpiry :: "LifetimeRecord \<Rightarrow> duration \<Rightarrow> duration \<Rightarrow> time \<times> string" where
  "ExpectedExpiry r fallback userMaxAge =
     (if time_IsZero (lr_CurrentRegistrationUTC r) then (0, [])
      else case MeasuredLifetime r of
             Some life \<Rightarrow> (time_Add (lr_CurrentRegistrationUTC r) life, LifetimeMeasured)
           | None \<Rightarrow>
               let life = fallback;
                   life = (if userMaxAge > 0 \<and> (life \<le> 0 \<or> userMaxAge < life) then userMaxAge else life)
               in if life \<le> 0 then (0, [])
                  else (time_Add (lr_CurrentRegistrationUTC r) life, LifetimeFallback))"

definition SafeRefreshInterval :: "LifetimeRecord \<Rightarrow> duration \<Rightarrow> duration \<Rightarrow> duration" where
  "SafeRefreshInterval r configured userMaxAge =
     (let interval =
            (case MeasuredLifetime r of
               None \<Rightarrow> configured
             | Some life \<Rightarrow>
                 let safe = half_duration life
                 in if safe < minLifetimeAwareRefresh then minLifetimeAwareRefresh else safe);
          interval =
            (if userMaxAge > 0 then
               let cap = half_duration userMaxAge;
                   cap = (if cap < minLifetimeAwareRefresh then minLifetimeAwareRefresh else cap)
               in if interval > cap then cap else interval
             else interval)
      in if interval < minLifetimeAwareRefresh then minLifetimeAwareRefresh else interval)"

section \<open>The estimates are conservative\<close>

lemma hd_sort_mem: "xs \<noteq> [] \<Longrightarrow> hd (sort xs) \<in> set xs"
  by (metis hd_in_set set_empty set_sort)

lemma hd_sort_le:
  fixes x :: int
  assumes "x \<in> set xs"
  shows "hd (sort xs) \<le> x"
proof -
  have "x \<in> set (sort xs)" using assms by simp
  then obtain y ys where s: "sort xs = y # ys" and x: "x \<in> set (y # ys)"
    by (cases "sort xs") auto
  have "sorted (y # ys)" using sorted_sort [of xs] by (simp add: s)
  with x show ?thesis by (auto simp: s)
qed

text \<open>The seconds whose nanoseconds a float64 holds exactly: 104 days.\<close>

definition plausible_lifetimes :: "LifetimeRecord \<Rightarrow> bool" where
  "plausible_lifetimes r \<longleftrightarrow> list_all (\<lambda>x. 0 < x \<and> x \<le> 9007199) (lr_ObservedLifetimesSeconds r)"

lemma MeasuredLifetime_shortest:
  assumes "plausible_lifetimes r" and "l \<in> set (lr_ObservedLifetimesSeconds r)"
  obtains m where "m \<in> set (lr_ObservedLifetimesSeconds r)" and "m \<le> l"
    and "MeasuredLifetime r = Some (m * second)"
proof -
  let ?xs = "lr_ObservedLifetimesSeconds r"
  have ne: "?xs \<noteq> []" using assms(2) by auto
  have m: "hd (sort ?xs) \<in> set ?xs" using ne by (rule hd_sort_mem)
  then have "0 < hd (sort ?xs) \<and> hd (sort ?xs) \<le> 9007199"
    using assms(1) by (auto simp: plausible_lifetimes_def list_all_iff)
  then have "in64 (hd (sort ?xs) * second)" by (auto simp: in64_def)
  then have "MeasuredLifetime r = Some (hd (sort ?xs) * second)"
    using ne by (simp add: MeasuredLifetime_def)
  with m hd_sort_le [OF assms(2)] show thesis by (rule that)
qed

lemma SafeRefreshInterval_ge: "minLifetimeAwareRefresh \<le> SafeRefreshInterval r c u"
  by (simp add: SafeRefreshInterval_def Let_def)

lemma SafeRefreshInterval_le_measured:
  "MeasuredLifetime r = Some life \<Longrightarrow>
     SafeRefreshInterval r c u \<le> max minLifetimeAwareRefresh (half_duration life)"
  by (auto simp: SafeRefreshInterval_def Let_def)

lemma SafeRefreshInterval_le_cap:
  "0 < u \<Longrightarrow> SafeRefreshInterval r c u \<le> max minLifetimeAwareRefresh (half_duration u)"
  by (auto simp: SafeRefreshInterval_def Let_def)

lemma SafeRefreshInterval_unmeasured:
  "lr_ObservedLifetimesSeconds r = [] \<Longrightarrow> u \<le> 0 \<Longrightarrow>
     SafeRefreshInterval r c u = max minLifetimeAwareRefresh c"
  by (auto simp: SafeRefreshInterval_def MeasuredLifetime_def Let_def)

text \<open>
  C16: The proactive cadence stays inside what was measured. For observed lifetimes between
  one second and 104 days, and a limit on the age below 104 days if one is set, the refresh
  interval is never below the floor of thirty minutes and never above half of any observed
  lifetime or half of the limit (or the floor, when half is less than the floor).
\<close>

theorem SafeRefreshInterval_conservative:
  assumes "plausible_lifetimes r" and "u \<le> 2 ^ 53"
  shows "minLifetimeAwareRefresh \<le> SafeRefreshInterval r c u \<and>
    (\<forall>l \<in> set (lr_ObservedLifetimesSeconds r).
       SafeRefreshInterval r c u \<le> max minLifetimeAwareRefresh (l * second div 2)) \<and>
    (0 < u \<longrightarrow> SafeRefreshInterval r c u \<le> max minLifetimeAwareRefresh (u div 2))"
proof (intro conjI ballI impI)
  show "minLifetimeAwareRefresh \<le> SafeRefreshInterval r c u" by (rule SafeRefreshInterval_ge)
next
  fix l assume "l \<in> set (lr_ObservedLifetimesSeconds r)"
  with assms(1) obtain m where m: "m \<in> set (lr_ObservedLifetimesSeconds r)" "m \<le> l"
    and ml: "MeasuredLifetime r = Some (m * second)" by (rule MeasuredLifetime_shortest)
  from m(1) assms(1) have "0 < m" "m \<le> 9007199"
    by (auto simp: plausible_lifetimes_def list_all_iff)
  then have "half_duration (m * second) = m * second div 2"
    by (intro half_duration_exact) auto
  then show "SafeRefreshInterval r c u \<le> max minLifetimeAwareRefresh (l * second div 2)"
    using SafeRefreshInterval_le_measured [OF ml, of c u] m(2) by auto
next
  assume "0 < u"
  with assms(2) show "SafeRefreshInterval r c u \<le> max minLifetimeAwareRefresh (u div 2)"
    using SafeRefreshInterval_le_cap [of u r c] by (simp add: half_duration_exact)
qed

theorem SafeRefreshInterval_conservative_witness:
  "SafeRefreshInterval (fresh_LifetimeRecord\<lparr>lr_ObservedLifetimesSeconds := [42300, 50000]\<rparr>)
     (12 * hour) (5 * hour) \<le> 42300 * second div 2"
  using SafeRefreshInterval_conservative
    [of "fresh_LifetimeRecord\<lparr>lr_ObservedLifetimesSeconds := [42300, 50000]\<rparr>" "5 * hour" "12 * hour"]
  by (simp add: plausible_lifetimes_def minLifetimeAwareRefresh_def)

section \<open>The store keeps what it is told\<close>

lemma lifetime_path_not_temp [simp]: "\<not> temp_path (ls_path (NewLifetimeStore d))"
  by (simp add: NewLifetimeStore_def lifetimeRecordFileName_def temp_path_Join plain_name_def)

lemma Load_quiet [frame]: "quiet w (snd (Load s w))"
  using ReadFile_quiet [of w "ls_path s"]
  by (auto simp: Load_def split: prod.splits res.splits option.splits)

lemma Load_no_panic [simp]: "fst (Load s w) \<noteq> Panic m"
  by (auto simp: Load_def ReadFile_def syscall_def split: prod.splits res.splits option.splits)

lemma calm_Load: "calm_calls w \<Longrightarrow> snd (Load s w) = w"
  using calm_syscall [of w]
  by (auto simp: Load_def ReadFile_def split: option.splits)

text \<open>What a readable file gives: any content that is no record counts as a fresh start.\<close>

definition record_of :: "content \<Rightarrow> world \<Rightarrow> LifetimeRecord" where
  "record_of c w =
     (case Option.bind (json_of c w) dec_LifetimeRecord of
        None \<Rightarrow> fresh_LifetimeRecord
      | Some rec \<Rightarrow> if lr_Version rec = 0 then rec\<lparr>lr_Version := lifetimeRecordVersion\<rparr> else rec)"

lemma Load_result:
  "fst (Load s w) =
     (case shd (w_calls w) of
        Some m \<Rightarrow> Err (errors_New m)
      | None \<Rightarrow> (case w_files w (ls_path s) of
                   None \<Rightarrow> Ok fresh_LifetimeRecord
                 | Some f \<Rightarrow> Ok (record_of (f_content f) w)))"
  by (auto simp: Load_def ReadFile_eq record_of_def json_of_def split: option.splits content.splits)

lemma Load_after_Save:
  assumes ok: "ok_LifetimeRecord r" and p: "\<not> temp_path (ls_path s)"
    and saved: "fst (Save s r w) = Ok ()"
    and readable: "shd (w_calls (snd (Save s r w))) = None"
  shows "fst (Load s (snd (Save s r w))) = Ok (r\<lparr>lr_Version := lifetimeRecordVersion\<rparr>)"
proof -
  let ?r = "r\<lparr>lr_Version := lifetimeRecordVersion\<rparr>"
  have ok': "ok_LifetimeRecord ?r"
    using ok by (simp add: ok_LifetimeRecord_def lifetimeRecordVersion_def in64_def)
  then obtain j where j: "enc_LifetimeRecord ?r = Some j" using lifetime_json.enc_total by blast
  then have save: "Save s r w = atomicWriteState (ls_path s) (Doc j) 420 w" by (simp add: Save_def)
  with saved have "fst (atomicWriteState (ls_path s) (Doc j) 420 w) = Ok ()" by simp
  from p this obtain f where "w_files (snd (Save s r w)) (ls_path s) = Some f" "f_content f = Doc j"
    unfolding save by (rule asw.target_Ok)
  with readable lifetime_json.dec_enc [OF ok' j] show ?thesis
    by (simp add: Load_result record_of_def json_of_def lifetimeRecordVersion_def)
qed

text \<open>
  C29: Saving a record and loading it again gives the record back, with the current version
  number, whenever the save reported success and the read itself succeeds.
\<close>

theorem lifetime_save_load:
  assumes ok: "ok_LifetimeRecord r" and p: "\<not> temp_path (ls_path s)"
    and saved: "fst (Save s r w) = Ok ()"
    and readable: "shd (w_calls (snd (Save s r w))) = None"
  shows "fst (Load s (snd (Save s r w))) = Ok (r\<lparr>lr_Version := lifetimeRecordVersion\<rparr>)"
  using assms by (rule Load_after_Save)

theorem lifetime_save_load_witness:
  "let s = NewLifetimeStore ''/state''; w = calm_world (5 * hour);
       r = fresh_LifetimeRecord\<lparr>lr_CurrentRegistrationUTC := 4 * hour, lr_ObservedLifetimesSeconds := [42300]\<rparr>
   in fst (Load s (snd (Save s r w))) = Ok (r\<lparr>lr_Version := lifetimeRecordVersion\<rparr>)"
proof -
  let ?s = "NewLifetimeStore ''/state''" and ?w = "calm_world (5 * hour)"
  let ?r = "fresh_LifetimeRecord\<lparr>lr_CurrentRegistrationUTC := 4 * hour, lr_ObservedLifetimesSeconds := [42300]\<rparr>"
  have "ok_LifetimeRecord ?r"
    by (simp add: ok_LifetimeRecord_def in64_def json_time_ok_def fresh_LifetimeRecord_def
        zero_LifetimeRecord_def lifetimeRecordVersion_def)
  moreover obtain j where "enc_LifetimeRecord (?r\<lparr>lr_Version := lifetimeRecordVersion\<rparr>) = Some j"
    by (simp add: enc_LifetimeRecord_def enc_time_def json_time_ok_def fresh_LifetimeRecord_def
        zero_LifetimeRecord_def)
  then have save: "Save ?s ?r ?w = atomicWriteState (ls_path ?s) (Doc j) 420 ?w"
    by (simp add: Save_def)
  have "fst (Save ?s ?r ?w) = Ok ()" and "calm_calls (snd (Save ?s ?r ?w))"
    unfolding save by (simp_all add: atomicWriteState_calm)
  ultimately show ?thesis
    unfolding Let_def
    by (intro lifetime_save_load lifetime_path_not_temp) (simp_all add: calm_calls_def)
qed

section \<open>Recording a loss\<close>

text \<open>The newest twenty elements of a list.\<close>

definition newest :: "'a list \<Rightarrow> 'a list" where
  "newest xs = drop (length xs - maxObservedLifetimes) xs"

lemma length_newest: "length (newest xs) \<le> maxObservedLifetimes"
  by (simp add: newest_def)

lemma newest_snoc: "newest (xs @ [x]) \<noteq> [] \<and> last (newest (xs @ [x])) = x"
  by (simp add: newest_def maxObservedLifetimes_def)

lemma note_loss_fields:
  "lr_ObservedLifetimesSeconds (note_loss rec age now) = newest (lr_ObservedLifetimesSeconds rec @ [whole_seconds age])"
  "lr_LastObservedLossUTC (note_loss rec age now) = now"
  "lr_CurrentRegistrationUTC (note_loss rec age now) = lr_CurrentRegistrationUTC rec"
  "lr_Version (note_loss rec age now) = lr_Version rec"
  by (auto simp: note_loss_def newest_def Let_def)

lemma age_positive_iff:
  "(\<exists>age. RegistrationAge birth now = Some age \<and> 0 < age) \<longleftrightarrow> birth \<noteq> 0 \<and> birth < now"
  by (auto simp: RegistrationAge_def time_ops)

lemma Save_calm:
  assumes "ok_LifetimeRecord r" and "calm_calls w" and "no_temps w" and "\<not> temp_path (ls_path s)"
  shows "fst (Save s r w) = Ok ()" and "calm_calls (snd (Save s r w))" and "no_temps (snd (Save s r w))"
proof -
  have "ok_LifetimeRecord (r\<lparr>lr_Version := lifetimeRecordVersion\<rparr>)"
    using assms(1) by (simp add: ok_LifetimeRecord_def lifetimeRecordVersion_def in64_def)
  then obtain j where "enc_LifetimeRecord (r\<lparr>lr_Version := lifetimeRecordVersion\<rparr>) = Some j"
    using lifetime_json.enc_total by blast
  then have "Save s r w = atomicWriteState (ls_path s) (Doc j) 420 w" by (simp add: Save_def)
  with assms(2-4) show "fst (Save s r w) = Ok ()" "calm_calls (snd (Save s r w))" "no_temps (snd (Save s r w))"
    by (simp_all add: atomicWriteState_calm)
qed

lemma RecordObservedLoss_unfold:
  assumes "fst (Load s w) = Ok rec"
  shows "RecordObservedLoss s now w =
    (if lr_CurrentRegistrationUTC rec \<noteq> 0 \<and> lr_CurrentRegistrationUTC rec < now
     then let rec' = note_loss rec (time_Sub now (lr_CurrentRegistrationUTC rec)) now
          in io_try (Save s rec' (snd (Load s w))) (\<lambda>_ w. (Ok rec', w))
     else (Ok rec, snd (Load s w)))"
  by (auto simp: RecordObservedLoss_def io_try_fst_Ok [OF assms] RegistrationAge_def time_ops)

lemma time_Sub_le: "b < a \<Longrightarrow> 0 < time_Sub a b \<and> time_Sub a b \<le> a - b"
  by (auto simp: time_Sub_def sat64_def)

lemma ok_note_loss:
  "ok_LifetimeRecord rec \<Longrightarrow> json_time_ok now \<Longrightarrow> in64 (whole_seconds age) \<Longrightarrow>
     ok_LifetimeRecord (note_loss rec age now)"
  by (auto simp: ok_LifetimeRecord_def note_loss_fields list_all_iff newest_def dest!: in_set_dropD)

lemma in64_whole_seconds: "0 \<le> d \<Longrightarrow> in64 d \<Longrightarrow> in64 (whole_seconds d)"
  using whole_seconds_bounds(1) [of d] whole_seconds_nonneg [of d] by (simp add: in64_def)



end
