(* ===== verification/Redact.thy ===== *)
theory Redact
  imports Go_Strings
begin

text \<open>
  pia/redact.go: removing credentials from texts bound for status.json, logs and alerts.

  The five regular expressions are written as matchers at a position: given the byte
  before the position (for \<^verbatim>\<open>\b\<close>) and the text from there on, the matched text, its
  replacement and the rest. Each expression is deterministic (every repeated class
  excludes what must follow it), so the leftmost-first choice of Go's \<^verbatim>\<open>regexp\<close> is the one
  match there is. \<^verbatim>\<open>ReplaceAllString\<close> tries the matcher at every position from the left and
  continues after a match. Letters are compared without case in ASCII.
\<close>

definition redactedPlaceholder :: string where
  "redactedPlaceholder = ''<redacted>''"

section \<open>Character classes\<close>

abbreviation ord :: "char \<Rightarrow> nat" where "ord c \<equiv> of_char c"

definition is_letter :: "char \<Rightarrow> bool" where
  "is_letter c \<longleftrightarrow> (97 \<le> ord c \<and> ord c \<le> 122) \<or> (65 \<le> ord c \<and> ord c \<le> 90)"

definition re_space :: "char \<Rightarrow> bool" where
  "re_space c \<longleftrightarrow> c \<in> {CHR 0x09, CHR 0x0A, CHR 0x0C, CHR 0x0D, CHR 0x20}"

definition re_word :: "char \<Rightarrow> bool" where
  "re_word c \<longleftrightarrow> is_letter c \<or> is_digit c \<or> c = CHR ''_''"

definition hasLetter :: "string \<Rightarrow> bool" where "hasLetter s \<longleftrightarrow> list_ex is_letter s"
definition hasDigit :: "string \<Rightarrow> bool" where "hasDigit s \<longleftrightarrow> list_ex is_digit s"

text \<open>\<^verbatim>\<open>\b\<close> between the byte before and the text that follows.\<close>

definition word_boundary :: "char option \<Rightarrow> string \<Rightarrow> bool" where
  "word_boundary prev s \<longleftrightarrow>
     (case prev of None \<Rightarrow> False | Some c \<Rightarrow> re_word c) \<noteq> (s \<noteq> [] \<and> re_word (hd s))"

text \<open>The longest run of a class, and what follows it.\<close>

definition run :: "(char \<Rightarrow> bool) \<Rightarrow> string \<Rightarrow> string \<times> string" where
  "run P s = (takeWhile P s, dropWhile P s)"

text \<open>The first of the words (in lower case) that starts the text, in any letter case.\<close>

definition ci_prefix :: "string \<Rightarrow> string \<Rightarrow> bool" where
  "ci_prefix v s \<longleftrightarrow> map ascii_lower (take (length v) s) = v"

definition ci_word :: "string list \<Rightarrow> string \<Rightarrow> string option" where
  "ci_word vs s = find (\<lambda>v. ci_prefix v s) vs"

section \<open>The expressions\<close>

type_synonym matcher = "char option \<Rightarrow> string \<Rightarrow> (string \<times> string \<times> string) option"

text \<open>\<^verbatim>\<open>(?i)([a-z][a-z0-9+.\-]*://)[^/\s@]+@\<close>\<close>

definition reURLUserInfo :: matcher where
  "reURLUserInfo prev s =
     (if s = [] \<or> \<not> is_letter (hd s) then None
      else let (scheme, r) = run (\<lambda>c. is_letter c \<or> is_digit c \<or> c \<in> set ''+.-'') s in
           if \<not> prefix ''://'' r then None
           else let (user, r') = run (\<lambda>c. c \<noteq> CHR ''/'' \<and> \<not> re_space c \<and> c \<noteq> CHR ''@'') (drop 3 r) in
                if user = [] \<or> \<not> prefix ''@'' r' then None
                else Some (scheme @ ''://'' @ user @ ''@'',
                           scheme @ ''://'' @ redactedPlaceholder @ ''@'', drop 1 r'))"

definition query_names :: "string list" where
  "query_names = [''pt'', ''token'', ''payload'', ''signature'', ''password'', ''passwd'', ''username'',
     ''user'', ''privatekey'', ''private_key'', ''key'', ''auth'', ''authorization'']"

text \<open>\<^verbatim>\<open>(?i)([?&;])(pt|token|...|authorization)=([^&\s"'<>]*)\<close>\<close>

definition reQuerySecret :: matcher where
  "reQuerySecret prev s =
     (if s = [] \<or> hd s \<notin> set ''?&;'' then None
      else case find (\<lambda>v. ci_prefix (v @ ''='') (tl s)) query_names of
             None \<Rightarrow> None
           | Some v \<Rightarrow>
               let n = length v + 2;
                   (secret, r) = run (\<lambda>c. c \<noteq> CHR ''&'' \<and> \<not> re_space c \<and> c \<noteq> CHR 0x22 \<and>
                                        c \<noteq> CHR 0x27 \<and> c \<noteq> CHR ''<'' \<and> c \<noteq> CHR ''>'') (drop n s)
               in Some (take n s @ secret, take n s @ redactedPlaceholder, r))"

definition keyed_names :: "string list" where
  "keyed_names = [''privatekey'', ''private_key'', ''token'', ''payload'', ''signature'', ''password'',
     ''passwd'', ''username'']"

text \<open>An optional quote.\<close>

definition opt_quote :: "string \<Rightarrow> string \<times> string" where
  "opt_quote s = (if s \<noteq> [] \<and> hd s \<in> {CHR 0x22, CHR 0x27} then (take 1 s, drop 1 s) else ([], s))"

text \<open>\<^verbatim>\<open>["']?\s*[:=]\s*["']?\<close>\<close>

definition separator :: "string \<Rightarrow> (string \<times> string) option" where
  "separator s =
     (let (q1, r1) = opt_quote s; (w1, r2) = run re_space r1 in
      if r2 = [] \<or> hd r2 \<notin> set '':='' then None
      else let (w2, r3) = run re_space (tl r2); (q2, r4) = opt_quote r3
           in Some (q1 @ w1 @ [hd r2] @ w2 @ q2, r4))"

text \<open>\<^verbatim>\<open>(?i)\b(privatekey|...|username)\b(["']?\s*[:=]\s*["']?)([^\s"',&}\]]+)\<close>\<close>

definition reKeyedSecret :: matcher where
  "reKeyedSecret prev s =
     (if \<not> word_boundary prev s then None
      else case find (\<lambda>v. ci_prefix v s \<and> word_boundary (Some (last v)) (drop (length v) s)) keyed_names of
             None \<Rightarrow> None
           | Some v \<Rightarrow>
               (case separator (drop (length v) s) of
                  None \<Rightarrow> None
                | Some (sep, r) \<Rightarrow>
                    let (secret, r') = run (\<lambda>c. \<not> re_space c \<and> c \<noteq> CHR 0x22 \<and> c \<noteq> CHR 0x27 \<and>
                           c \<notin> set '',&}]'') r
                    in if secret = [] then None
                       else Some (take (length v) s @ sep @ secret,
                                  take (length v) s @ sep @ redactedPlaceholder, r')))"

text \<open>\<^verbatim>\<open>(?i)\b(basic|bearer)\s+[A-Za-z0-9+/=._\-]{8,}\<close>\<close>

definition reAuthHeader :: matcher where
  "reAuthHeader prev s =
     (if \<not> word_boundary prev s then None
      else case ci_word [''basic'', ''bearer''] s of
             None \<Rightarrow> None
           | Some v \<Rightarrow>
               let (sp, r) = run re_space (drop (length v) s);
                   (secret, r') = run (\<lambda>c. is_letter c \<or> is_digit c \<or> c \<in> set ''+/=._-'') r
               in if sp = [] \<or> length secret < 8 then None
                  else Some (take (length v) s @ sp @ secret,
                             take (length v) s @ '' '' @ redactedPlaceholder, r'))"

text \<open>
  \<^verbatim>\<open>[A-Za-z0-9+/_\-]{40,}={0,2}\<close>, replaced only when it has a letter and a digit.
\<close>

definition reLongBlob :: matcher where
  "reLongBlob prev s =
     (let (blob, r) = run (\<lambda>c. is_letter c \<or> is_digit c \<or> c \<in> set ''+/_-'') s;
          pad = take 2 (takeWhile (\<lambda>c. c = CHR ''='') r); m = blob @ pad
      in if length blob < 40 then None
         else Some (m, if hasLetter m \<and> hasDigit m then redactedPlaceholder else m, drop (length pad) r))"

section \<open>Replacing every match\<close>

function replace_matches :: "matcher \<Rightarrow> char option \<Rightarrow> string \<Rightarrow> string" where
  "replace_matches m prev s =
     (case s of
        [] \<Rightarrow> []
      | c # cs \<Rightarrow>
          (case m prev s of
             None \<Rightarrow> c # replace_matches m (Some c) cs
           | Some (t, repl, r) \<Rightarrow>
               if length r < length s then repl @ replace_matches m (Some (last t)) r
               else c # replace_matches m (Some c) cs))"
  by pat_completeness auto
termination
  by (relation "measure (\<lambda>(m, prev, s). length s)") auto

declare replace_matches.simps [simp del]

definition replace_known :: "string list \<Rightarrow> string \<Rightarrow> string" where
  "replace_known known s =
     fold (\<lambda>k s. let k = TrimSpace k in
             if length k \<ge> 4 then ReplaceAll s k redactedPlaceholder else s) known s"

definition Redact :: "string \<Rightarrow> string list \<Rightarrow> string" where
  "Redact s known =
     (if s = [] then s
      else let s = replace_known known s;
               s = replace_matches reURLUserInfo None s;
               s = replace_matches reQuerySecret None s;
               s = replace_matches reKeyedSecret None s;
               s = replace_matches reAuthHeader None s
           in replace_matches reLongBlob None s)"

section \<open>Known secrets do not survive\<close>

text \<open>
  A secret the placeholder cannot bring back: it has neither angle bracket, is no part of
  the word inside them, and has no space at either end.
\<close>

definition scrubbable :: "string \<Rightarrow> bool" where
  "scrubbable k \<longleftrightarrow>
     k \<noteq> [] \<and> CHR ''<'' \<notin> set k \<and> CHR ''>'' \<notin> set k \<and> \<not> contains k ''redacted'' \<and> last k \<noteq> CHR '' ''"

lemma contains_at_bar:
  assumes "c \<notin> set k"
  shows "contains k (a @ c # b) \<longleftrightarrow> contains k a \<or> contains k b"
proof
  assume "contains k (a @ c # b)"
  then obtain x y where xy: "a @ c # b = x @ k @ y" by (auto simp: contains_iff)
  then consider us where "a = x @ us" "us @ c # b = k @ y" | us where "a @ us = x" "c # b = us @ k @ y"
    by (auto simp: append_eq_append_conv2)
  then show "contains k a \<or> contains k b"
  proof cases
    case 1
    from 1(2) consider vs where "us = k @ vs" | v vs where "k = us @ v # vs" "c = v"
      by (auto simp: append_eq_append_conv2 Cons_eq_append_conv)
    then show ?thesis using 1(1) assms by cases (auto simp: contains_iff)
  next
    case 2
    show ?thesis
    proof (cases us)
      case Nil
      then have "k = []" using 2(2) assms by (cases k) auto
      then show ?thesis by (cases a) auto
    next
      case (Cons v vs)
      then have "b = vs @ k @ y" using 2(2) by simp
      then show ?thesis by (auto simp: contains_iff)
    qed
  qed
next
  assume "contains k a \<or> contains k b"
  then show "contains k (a @ c # b)"
    using contains_appendI1 [of k a "c # b"] contains_appendI2 [of k b "a @ [c]"] by auto
qed

lemma contains_placeholder:
  assumes "scrubbable k"
  shows "contains k (a @ redactedPlaceholder @ b) \<longleftrightarrow> contains k a \<or> contains k b"
proof -
  have split: "a @ redactedPlaceholder @ b = a @ CHR ''<'' # (''redacted'' @ CHR ''>'' # b)"
    by (simp add: redactedPlaceholder_def)
  show ?thesis
    using assms unfolding split scrubbable_def
    by (simp only: contains_at_bar not_False_eq_True) blast
qed

lemma contains_snoc_space:
  assumes "scrubbable k" and "contains k (a @ '' '')"
  shows "contains k a"
proof -
  obtain x y where xy: "a @ '' '' = x @ k @ y" using assms(2) by (auto simp: contains_iff)
  show ?thesis
  proof (cases y rule: rev_cases)
    case Nil
    then have "last k = CHR '' ''" using xy assms(1)
      by (metis append.right_neutral append_is_Nil_conv last_append last_snoc scrubbable_def)
    with assms(1) show ?thesis by (simp add: scrubbable_def)
  next
    case (snoc y' c)
    then have "a = x @ k @ y'" using xy by (metis append.assoc butlast_snoc)
    then show ?thesis by (auto simp: contains_iff)
  qed
qed

text \<open>
  What all matchers have in common: the match starts the text, and its replacement is the
  match itself or the match with a middle part replaced by the placeholder.
\<close>

locale redactor =
  fixes m :: matcher
  assumes shape: "m prev s = Some (t, repl, r) \<Longrightarrow> s = t @ r \<and>
    (repl = t \<or> (\<exists>k x u sp. t = k @ x @ u \<and> repl = k @ sp @ redactedPlaceholder @ u \<and> sp \<in> {[], '' ''}))"
begin

lemma match_keeps_absent:
  assumes k: "scrubbable k" and hit: "m prev s = Some (t, repl, r)" and absent: "\<not> contains k (p @ s)"
    and rest: "\<And>q. \<not> contains k (q @ r) \<Longrightarrow> \<not> contains k (q @ out)"
  shows "\<not> contains k (p @ repl @ out)"
proof -
  have sr: "s = t @ r" using shape [OF hit] by simp
  consider "repl = t" | x y u sp where "t = x @ y @ u" "repl = x @ sp @ redactedPlaceholder @ u" "sp \<in> {[], '' ''}"
    using shape [OF hit] by blast
  then show ?thesis
  proof cases
    case 1
    with rest [of "p @ t"] absent sr show ?thesis by simp
  next
    case 2
    have "\<not> contains k (p @ x)"
      using absent sr 2(1) contains_appendI1 [of k "p @ x" "y @ u @ r"] by auto
    then have "\<not> contains k (p @ x @ sp)"
      using 2(3) contains_snoc_space [OF k, of "p @ x"] by auto
    moreover have "\<not> contains k (u @ r)"
      using absent sr 2(1) contains_appendI2 [of k "u @ r" "p @ x @ y"] by auto
    then have "\<not> contains k (u @ out)" by (rule rest)
    ultimately show ?thesis
      using contains_placeholder [OF k, of "p @ x @ sp" "u @ out"] by (simp add: 2(2))
  qed
qed

lemma keeps_absent:
  assumes k: "scrubbable k"
  shows "\<not> contains k (p @ s) \<Longrightarrow> \<not> contains k (p @ replace_matches m prev s)"
proof (induction s arbitrary: p prev rule: length_induct)
  case (1 s)
  note IH = "1.IH" [rule_format] and absent = "1.prems"
  show ?case
  proof (cases s)
    case Nil
    with absent show ?thesis by (simp add: replace_matches.simps)
  next
    case (Cons c cs)
    have skip: "\<not> contains k (p @ c # replace_matches m (Some c) cs)"
      using IH [of cs "p @ [c]" "Some c"] absent Cons by simp
    show ?thesis
    proof (cases "m prev s")
      case None
      with skip Cons show ?thesis by (simp add: replace_matches.simps)
    next
      case (Some q)
      obtain t repl r where q: "q = (t, repl, r)" by (cases q)
      show ?thesis
      proof (cases "length r < length s")
        case False
        with skip Cons Some q show ?thesis by (simp add: replace_matches.simps)
      next
        case True
        then have "replace_matches m prev s = repl @ replace_matches m (Some (last t)) r"
          using Cons Some q by (simp add: replace_matches.simps [of m prev])
        with match_keeps_absent [OF k Some [unfolded q] absent IH [OF True]] show ?thesis by simp
      qed
    qed
  qed
qed

lemma keeps_absent_text: "scrubbable k \<Longrightarrow> \<not> contains k s \<Longrightarrow> \<not> contains k (replace_matches m None s)"
  using keeps_absent [of k "[]"] by simp

end

lemma run_append: "run P s = (a, b) \<Longrightarrow> s = a @ b"
  by (auto simp: run_def)

lemma opt_quote_append: "opt_quote s = (a, b) \<Longrightarrow> s = a @ b"
  by (cases s) (auto simp: opt_quote_def split: if_splits)

lemma separator_append: "separator s = Some (a, b) \<Longrightarrow> s = a @ b"
  by (auto simp: separator_def Let_def neq_Nil_conv split: prod.splits if_splits
      dest!: run_append opt_quote_append)

lemma ci_prefix_length: "ci_prefix v s \<Longrightarrow> length v \<le> length s"
  unfolding ci_prefix_def by (metis length_map length_take min.cobounded1)

interpretation url_redactor: redactor reURLUserInfo
proof
  fix prev s t repl r assume "reURLUserInfo prev s = Some (t, repl, r)"
  then obtain scheme r1 user r2 where
    s: "s = scheme @ r1" "prefix ''://'' r1" "drop 3 r1 = user @ r2" "prefix ''@'' r2"
    and t: "t = scheme @ ''://'' @ user @ ''@''" "repl = scheme @ ''://'' @ redactedPlaceholder @ ''@''"
      "r = drop 1 r2"
    by (auto simp: reURLUserInfo_def Let_def split: prod.splits if_splits dest!: run_append)
  have "r1 = ''://'' @ drop 3 r1" using s(2) by (auto simp: prefix_def)
  moreover have "r2 = ''@'' @ drop 1 r2" using s(4) by (auto simp: prefix_def)
  ultimately have "s = t @ r" using s t by auto
  moreover have "t = (scheme @ ''://'') @ user @ ''@''" using t by simp
  moreover have "repl = (scheme @ ''://'') @ [] @ redactedPlaceholder @ ''@''" using t by simp
  ultimately show "s = t @ r \<and> (repl = t \<or> (\<exists>k x u sp. t = k @ x @ u \<and>
      repl = k @ sp @ redactedPlaceholder @ u \<and> sp \<in> {[], '' ''}))" by blast
qed

interpretation query_redactor: redactor reQuerySecret
proof
  fix prev s t repl r assume "reQuerySecret prev s = Some (t, repl, r)"
  then obtain n secret where s: "drop n s = secret @ r"
    and t: "t = take n s @ secret" "repl = take n s @ redactedPlaceholder"
    by (auto simp: reQuerySecret_def Let_def split: prod.splits if_splits option.splits dest!: run_append)
  have "s = t @ r" using s t by (metis append.assoc append_take_drop_id)
  moreover have "t = take n s @ secret @ []" "repl = take n s @ [] @ redactedPlaceholder @ []"
    using t by simp_all
  ultimately show "s = t @ r \<and> (repl = t \<or> (\<exists>k x u sp. t = k @ x @ u \<and>
      repl = k @ sp @ redactedPlaceholder @ u \<and> sp \<in> {[], '' ''}))" by blast
qed

interpretation keyed_redactor: redactor reKeyedSecret
proof
  fix prev s t repl r assume "reKeyedSecret prev s = Some (t, repl, r)"
  then obtain n sep secret where s: "drop n s = sep @ secret @ r"
    and t: "t = take n s @ sep @ secret" "repl = take n s @ sep @ redactedPlaceholder"
    by (auto simp: reKeyedSecret_def Let_def split: prod.splits if_splits option.splits
        dest!: run_append separator_append)
  have "s = t @ r" using s t by (metis append.assoc append_take_drop_id)
  moreover have "t = (take n s @ sep) @ secret @ []" "repl = (take n s @ sep) @ [] @ redactedPlaceholder @ []"
    using t by simp_all
  ultimately show "s = t @ r \<and> (repl = t \<or> (\<exists>k x u sp. t = k @ x @ u \<and>
      repl = k @ sp @ redactedPlaceholder @ u \<and> sp \<in> {[], '' ''}))" by blast
qed

interpretation auth_redactor: redactor reAuthHeader
proof
  fix prev s t repl r assume "reAuthHeader prev s = Some (t, repl, r)"
  then obtain n sp secret where s: "drop n s = sp @ secret @ r"
    and t: "t = take n s @ sp @ secret" "repl = take n s @ '' '' @ redactedPlaceholder"
    by (auto simp: reAuthHeader_def Let_def split: prod.splits if_splits option.splits dest!: run_append)
  have "s = t @ r" using s t by (metis append.assoc append_take_drop_id)
  moreover have "t = take n s @ (sp @ secret) @ []" "repl = take n s @ '' '' @ redactedPlaceholder @ []"
    using t by simp_all
  ultimately show "s = t @ r \<and> (repl = t \<or> (\<exists>k x u sp. t = k @ x @ u \<and>
      repl = k @ sp @ redactedPlaceholder @ u \<and> sp \<in> {[], '' ''}))" by blast
qed

interpretation blob_redactor: redactor reLongBlob
proof
  fix prev s t repl r assume m: "reLongBlob prev s = Some (t, repl, r)"
  define blob where "blob = takeWhile (\<lambda>c. is_letter c \<or> is_digit c \<or> c \<in> set ''+/_-'') s"
  define rest where "rest = dropWhile (\<lambda>c. is_letter c \<or> is_digit c \<or> c \<in> set ''+/_-'') s"
  define pad where "pad = take 2 (takeWhile (\<lambda>c. c = CHR ''='') rest)"
  have t: "t = blob @ pad" "r = drop (length pad) rest" "repl = t \<or> repl = redactedPlaceholder"
    using m by (auto simp: reLongBlob_def run_def Let_def blob_def rest_def pad_def split: if_splits)
  have "prefix pad rest"
    unfolding pad_def using take_is_prefix takeWhile_is_prefix prefix_order.trans by blast
  then have "rest = pad @ drop (length pad) rest" by (auto simp: prefix_def)
  moreover have "s = blob @ rest" by (simp add: blob_def rest_def)
  ultimately have "s = t @ r" using t by simp
  moreover have "t = [] @ t @ []" by simp
  moreover have "redactedPlaceholder = [] @ [] @ redactedPlaceholder @ []" by simp
  ultimately show "s = t @ r \<and> (repl = t \<or> (\<exists>k x u sp. t = k @ x @ u \<and>
      repl = k @ sp @ redactedPlaceholder @ u \<and> sp \<in> {[], '' ''}))"
    using t(3) by blast
qed

lemma ReplaceAll_keeps_absent:
  assumes k: "scrubbable k"
  shows "\<not> contains k (p @ s) \<Longrightarrow> \<not> contains k (p @ ReplaceAll s old redactedPlaceholder)"
proof (induction s old redactedPlaceholder arbitrary: p rule: ReplaceAll.induct)
  case (1 old)
  then show ?case by simp
next
  case (2 c s old)
  show ?case
  proof (cases "old \<noteq> [] \<and> prefix old (c # s)")
    case True
    have rest: "c # s = take (length old) (c # s) @ drop (length old - 1) s"
      using True by (cases old) (auto simp: prefix_def)
    have "\<not> contains k p" using 2(3) contains_appendI1 by blast
    moreover have "\<not> contains k (drop (length old - 1) s)"
      using 2(3) contains_appendI2 [of k "drop (length old - 1) s" "p @ take (length old) (c # s)"] rest by auto
    then have "\<not> contains k (ReplaceAll (drop (length old - 1) s) old redactedPlaceholder)"
      using 2(1) [OF True, of "[]"] by simp
    ultimately show ?thesis using True contains_placeholder [OF k] by simp
  next
    case False
    then have "ReplaceAll (c # s) old redactedPlaceholder = c # ReplaceAll s old redactedPlaceholder"
      by auto
    with 2(2) [OF False, of "p @ [c]"] 2(3) show ?thesis by simp
  qed
qed

lemma ReplaceAll_removes:
  assumes k: "scrubbable k"
  shows "\<forall>i < length p. \<not> prefix k (drop i (p @ s)) \<Longrightarrow>
    \<not> contains k (p @ ReplaceAll s k redactedPlaceholder)"
proof (induction s arbitrary: p rule: length_induct)
  case (1 s)
  have ne: "k \<noteq> []" using k by (simp add: scrubbable_def)
  have p: "\<not> contains k p"
  proof
    assume "contains k p"
    then obtain a b where "p = a @ k @ b" by (auto simp: contains_iff)
    with 1(2) ne show False by (auto simp: prefix_def dest: spec [of _ "length a"])
  qed
  show ?case
  proof (cases s)
    case Nil
    with p show ?thesis by simp
  next
    case (Cons c cs)
    show ?thesis
    proof (cases "prefix k s")
      case True
      then have eq: "ReplaceAll s k redactedPlaceholder =
          redactedPlaceholder @ ReplaceAll (drop (length k - 1) cs) k redactedPlaceholder"
        using ne Cons by simp
      have "\<not> contains k ([] @ ReplaceAll (drop (length k - 1) cs) k redactedPlaceholder)"
        using Cons by (intro 1(1) [rule_format]) auto
      with p show ?thesis using contains_placeholder [OF k] by (simp add: eq)
    next
      case False
      then have eq: "ReplaceAll s k redactedPlaceholder = c # ReplaceAll cs k redactedPlaceholder"
        using Cons by auto
      have "\<forall>i < length (p @ [c]). \<not> prefix k (drop i ((p @ [c]) @ cs))"
        using 1(2) False Cons by (auto simp: less_Suc_eq)
      then have "\<not> contains k ((p @ [c]) @ ReplaceAll cs k redactedPlaceholder)"
        using Cons by (intro 1(1) [rule_format]) auto
      then show ?thesis by (simp add: eq)
    qed
  qed
qed

lemma replace_known_keeps_absent:
  "scrubbable k \<Longrightarrow> \<not> contains k s \<Longrightarrow> \<not> contains k (replace_known known s)"
proof (induction known arbitrary: s)
  case Nil
  then show ?case by (simp add: replace_known_def)
next
  case (Cons v vs)
  have "\<not> contains k (ReplaceAll s v' redactedPlaceholder)" for v'
    using ReplaceAll_keeps_absent [of k "[]" s] Cons.prems by simp
  with Cons show ?case by (simp add: replace_known_def Let_def)
qed

lemma replace_known_removes:
  assumes "scrubbable (TrimSpace v)" and "length (TrimSpace v) \<ge> 4" and "v \<in> set known"
  shows "\<not> contains (TrimSpace v) (replace_known known s)"
proof -
  obtain us vs where known: "known = us @ v # vs" using assms(3) by (metis split_list)
  have "\<not> contains (TrimSpace v) (ReplaceAll (replace_known us s) (TrimSpace v) redactedPlaceholder)"
    using ReplaceAll_removes [OF assms(1), of "[]"] by simp
  then have "\<not> contains (TrimSpace v)
      (replace_known vs (ReplaceAll (replace_known us s) (TrimSpace v) redactedPlaceholder))"
    by (rule replace_known_keeps_absent [OF assms(1)])
  then show ?thesis using assms(2) by (simp add: known replace_known_def Let_def)
qed

lemmas redactors_keep_absent = url_redactor.keeps_absent_text query_redactor.keeps_absent_text
  keyed_redactor.keeps_absent_text auth_redactor.keeps_absent_text blob_redactor.keeps_absent_text

lemma Redact_removes:
  assumes "v \<in> set known" and "length (TrimSpace v) \<ge> 4" and k: "scrubbable (TrimSpace v)"
  shows "\<not> contains (TrimSpace v) (Redact s known)"
proof (cases "s = []")
  case True
  then show ?thesis using k by (simp add: Redact_def scrubbable_def)
next
  case False
  have "\<not> contains (TrimSpace v) (replace_known known s)"
    by (rule replace_known_removes [OF k assms(2,1)])
  with False show ?thesis by (simp add: Redact_def Let_def redactors_keep_absent k)
qed

text \<open>
  C18: A known secret never survives redaction. For every value in the list of known
  secrets that, trimmed, is at least four bytes long, has no angle bracket and is no part
  of the word "redacted", the redacted text does not contain it anywhere, whatever the
  text was and whatever the other secrets and patterns replaced.
\<close>

theorem Redact_no_known_secret:
  assumes "v \<in> set known" and "length (TrimSpace v) \<ge> 4" and "scrubbable (TrimSpace v)"
  shows "\<not> contains (TrimSpace v) (Redact s known)"
  using assms by (rule Redact_removes)

theorem Redact_no_known_secret_witness:
  "\<not> contains ''hunter2'' (Redact ''login p1234567 with hunter2 failed'' [''p1234567'', '' hunter2 ''])"
proof -
  have t: "TrimSpace '' hunter2 '' = ''hunter2''" by code_simp
  have "scrubbable (TrimSpace '' hunter2 '')" unfolding t by code_simp
  with Redact_no_known_secret [of "'' hunter2 ''" "[''p1234567'', '' hunter2 '']"
      "''login p1234567 with hunter2 failed''"]
  show ?thesis unfolding t by simp
qed

end
