(* ===== verification/Alert.thy ===== *)
theory Alert
  imports World Redact
begin

text \<open>
  alert.go: the policy that decides when a failure alert is due, and the dispatcher that
  hands alerts to hook commands from a bounded queue.
\<close>

section \<open>The policy\<close>

record outagePolicy =
  op_threshold :: int
  op_failures :: int
  op_alerted :: bool
  op_outageStart :: time

definition newOutagePolicy :: "int \<Rightarrow> outagePolicy" where
  "newOutagePolicy threshold =
     \<lparr>op_threshold = threshold, op_failures = 0, op_alerted = False, op_outageStart = 0\<rparr>"

text \<open>The methods accept a nil policy (\<open>None\<close>). The result comes with the policy after it.\<close>

definition policy_failure :: "time \<Rightarrow> outagePolicy option \<Rightarrow> (bool \<times> int) \<times> outagePolicy option" where
  "policy_failure now po =
     (case po of
        None \<Rightarrow> ((False, 0), None)
      | Some p \<Rightarrow>
          let p = (if time_IsZero (op_outageStart p) then p\<lparr>op_outageStart := now\<rparr> else p);
              p = p\<lparr>op_failures := op_failures p + 1\<rparr>
          in if op_threshold p \<le> 0 \<or> op_alerted p \<or> op_failures p < op_threshold p
             then ((False, op_failures p), Some p)
             else ((True, op_failures p), Some (p\<lparr>op_alerted := True\<rparr>)))"

definition policy_healthy :: "time \<Rightarrow> outagePolicy option \<Rightarrow> (bool \<times> duration \<times> int) \<times> outagePolicy option" where
  "policy_healthy now po =
     (case po of
        None \<Rightarrow> ((False, 0, 0), None)
      | Some p \<Rightarrow>
          let outage = (if time_IsZero (op_outageStart p) then 0 else time_Sub now (op_outageStart p))
          in ((op_alerted p, outage, op_failures p),
              Some (p\<lparr>op_failures := 0, op_alerted := False, op_outageStart := 0\<rparr>)))"

definition policy_snapshot :: "outagePolicy option \<Rightarrow> int \<times> bool" where
  "policy_snapshot po = (case po of None \<Rightarrow> (0, False) | Some p \<Rightarrow> (op_failures p, op_alerted p))"

subsection \<open>What the policy promises\<close>

text \<open>
  The history of a policy is a list of failed attempts and healthy samples. The notices it
  gives are the alerts and the recovery notices, in order.
\<close>

datatype policy_event = Failed time | Healthy time

datatype notice = FailureNotice int | RecoveredNotice duration int

fun policy_step :: "outagePolicy option \<Rightarrow> policy_event \<Rightarrow> notice list \<times> outagePolicy option" where
  "policy_step po (Failed t) =
     (case policy_failure t po of ((fire, n), po') \<Rightarrow> (if fire then [FailureNotice n] else [], po'))"
| "policy_step po (Healthy t) =
     (case policy_healthy t po of ((rec, d, n), po') \<Rightarrow> (if rec then [RecoveredNotice d n] else [], po'))"

fun policy_run :: "outagePolicy option \<Rightarrow> policy_event list \<Rightarrow> notice list \<times> outagePolicy option" where
  "policy_run po [] = ([], po)"
| "policy_run po (e # es) =
     (case policy_step po e of (ns, po') \<Rightarrow>
        (case policy_run po' es of (ns', po'') \<Rightarrow> (ns @ ns', po'')))"

text \<open>
  The specification looks at whole outages: the failures up to the next healthy sample.
  An outage is alerted when it has at least \<open>threshold\<close> failures, once, with that count; its
  end is announced exactly when it was alerted, with its length and its failures.
\<close>

definition alerted_outage :: "int \<Rightarrow> time list \<Rightarrow> bool" where
  "alerted_outage threshold fails \<longleftrightarrow> 0 < threshold \<and> threshold \<le> int (length fails)"

definition open_notices :: "int \<Rightarrow> time list \<Rightarrow> notice list" where
  "open_notices threshold fails =
     (if alerted_outage threshold fails then [FailureNotice threshold] else [])"

definition outage_start :: "time list \<Rightarrow> time" where
  "outage_start fails = (case filter (\<lambda>t. \<not> time_IsZero t) fails of [] \<Rightarrow> 0 | t # _ \<Rightarrow> t)"

definition outage_length :: "time list \<Rightarrow> time \<Rightarrow> duration" where
  "outage_length fails t =
     (if time_IsZero (outage_start fails) then 0 else time_Sub t (outage_start fails))"

fun notices :: "int \<Rightarrow> time list \<Rightarrow> policy_event list \<Rightarrow> notice list" where
  "notices threshold fails [] = []"
| "notices threshold fails (Failed t # es) =
     (if alerted_outage threshold (fails @ [t]) \<and> \<not> alerted_outage threshold fails
      then [FailureNotice threshold] else []) @ notices threshold (fails @ [t]) es"
| "notices threshold fails (Healthy t # es) =
     (if alerted_outage threshold fails then [RecoveredNotice (outage_length fails t) (int (length fails))] else [])
     @ notices threshold [] es"

text \<open>The state of a policy that has seen the failures \<open>fails\<close> since the last healthy sample.\<close>

definition policy_of :: "int \<Rightarrow> time list \<Rightarrow> outagePolicy" where
  "policy_of threshold fails =
     \<lparr>op_threshold = threshold, op_failures = int (length fails),
      op_alerted = alerted_outage threshold fails, op_outageStart = outage_start fails\<rparr>"

lemma policy_of_Nil: "policy_of threshold [] = newOutagePolicy threshold"
  by (auto simp: policy_of_def newOutagePolicy_def alerted_outage_def outage_start_def)

lemma outage_start_snoc:
  "outage_start (fails @ [t]) = (if time_IsZero (outage_start fails) then t else outage_start fails)"
  by (auto simp: outage_start_def time_IsZero_def filter_eq_Cons_iff split: list.splits)

lemma policy_failure_of:
  "policy_failure t (Some (policy_of threshold fails)) =
     ((alerted_outage threshold (fails @ [t]) \<and> \<not> alerted_outage threshold fails, int (length fails) + 1),
      Some (policy_of threshold (fails @ [t])))"
  by (auto simp: policy_failure_def policy_of_def Let_def alerted_outage_def outage_start_snoc)

lemma policy_healthy_of:
  "policy_healthy t (Some (policy_of threshold fails)) =
     ((alerted_outage threshold fails, outage_length fails t, int (length fails)),
      Some (policy_of threshold []))"
  by (auto simp: policy_healthy_def policy_of_def Let_def outage_length_def alerted_outage_def outage_start_def)

lemma policy_run_notices:
  "fst (policy_run (Some (policy_of threshold fails)) es) = notices threshold fails es"
proof (induction threshold fails es rule: notices.induct)
  case (2 threshold fails t es)
  have "int (length fails) + 1 = threshold"
    if "alerted_outage threshold (fails @ [t])" "\<not> alerted_outage threshold fails"
    using that by (auto simp: alerted_outage_def)
  with 2 show ?case
    by (auto simp: policy_failure_of split: prod.splits)
qed (auto simp: policy_healthy_of split: prod.splits)

text \<open>Within one outage, the notices are at most one alert.\<close>

lemma notices_failures:
  "notices threshold fails (map Failed ts @ es) =
     (if alerted_outage threshold (fails @ ts) \<and> \<not> alerted_outage threshold fails
      then [FailureNotice threshold] else []) @ notices threshold (fails @ ts) es"
proof (induction ts arbitrary: fails)
  case Nil
  then show ?case by simp
next
  case (Cons t ts)
  have "alerted_outage threshold fails \<Longrightarrow> alerted_outage threshold (fails @ xs)" for fails xs
    by (auto simp: alerted_outage_def)
  from this [of "fails @ [t]" ts] this [of fails "[t]"] show ?case by (auto simp: Cons.IH)
qed

text \<open>
  C10: The alert policy fires once per outage. A history that consists of outages, each a
  list of failed attempts ended by a healthy sample, followed by the failures of an outage
  still open, makes the policy give exactly: for each outage with at least \<open>threshold\<close>
  failures (and a positive threshold) one failure alert carrying the threshold as its count
  and then one recovery notice carrying the length of the outage and its number of
  failures; nothing for the other outages; and one failure alert, with no recovery notice,
  for the open one if it has reached the threshold.
\<close>

theorem alert_once_per_outage:
  "fst (policy_run (Some (newOutagePolicy threshold))
      (concat (map (\<lambda>(fails, t). map Failed fails @ [Healthy t]) outages) @ map Failed fails')) =
   concat (map (\<lambda>(fails, t).
     if alerted_outage threshold fails
     then [FailureNotice threshold, RecoveredNotice (outage_length fails t) (int (length fails))]
     else []) outages) @ open_notices threshold fails'"
proof -
  have start: "\<not> alerted_outage threshold []" by (simp add: alerted_outage_def)
  have "notices threshold [] (concat (map (\<lambda>(fails, t). map Failed fails @ [Healthy t]) outages) @ map Failed fails')
    = concat (map (\<lambda>(fails, t).
        if alerted_outage threshold fails
        then [FailureNotice threshold, RecoveredNotice (outage_length fails t) (int (length fails))]
        else []) outages) @ open_notices threshold fails'"
  proof (induction outages)
    case Nil
    then show ?case
      using notices_failures [of threshold "[]" fails' "[]"] start by (simp add: open_notices_def)
  next
    case (Cons o os)
    then show ?case
      using start by (auto simp: notices_failures split: prod.splits)
  qed
  then show ?thesis
    using policy_run_notices [of threshold "[]"] by (simp add: policy_of_Nil)
qed

section \<open>The dispatcher\<close>

definition alertEventFailure :: string where "alertEventFailure = ''failure''"
definition alertEventRecovered :: string where "alertEventRecovered = ''recovered''"
definition alertQueueSize :: nat where "alertQueueSize = 8"

record alertEvent =
  ae_Kind :: string
  ae_Message :: string
  ae_Attempts :: int
  ae_Outage :: duration

text \<open>A hook runner gets the command and its environment; it gives the output and an error.\<close>

type_synonym hookRunner = "string \<Rightarrow> string list \<Rightarrow> world \<Rightarrow> (string \<times> goerr option) \<times> world"

record alertDispatcher =
  ad_failureCmd :: string
  ad_recoveredCmd :: string
  ad_region :: string
  ad_timeout :: duration
  ad_secrets :: "string list"
  ad_verbose :: bool
  ad_run :: hookRunner
  ad_queue :: "alertEvent list"
  ad_done :: bool

text \<open>\<^verbatim>\<open>cappedBuffer.Write\<close>: keep at most 2 KiB and claim that everything was written.\<close>

definition capped_Write :: "string \<Rightarrow> string \<Rightarrow> nat \<times> string" where
  "capped_Write buf p =
     (let remaining = 2048 - int (length buf) in
      (length p,
       if remaining > 0
       then (if int (length p) > remaining then buf @ take (nat remaining) p else buf @ p)
       else buf))"

definition capped_all :: "string list \<Rightarrow> string" where
  "capped_all chunks = foldl (\<lambda>buf p. snd (capped_Write buf p)) [] chunks"

definition runHookProcess :: hookRunner where
  "runHookProcess command env w =
     (case exec_Run [''sh'', ''-c'', command] (Some env) w of (r, w) \<Rightarrow>
        let out = capped_all (ex_chunks r) in
        case ex_timeout r of
          Some e \<Rightarrow> ((out, Some (errors_Wrap ''hook timed out'' e)), w)
        | None \<Rightarrow> ((out, ex_err r), w))"

definition newAlertDispatcher ::
  "string \<Rightarrow> string \<Rightarrow> string \<Rightarrow> duration \<Rightarrow> string list \<Rightarrow> bool \<Rightarrow> alertDispatcher" where
  "newAlertDispatcher failureCmd recoveredCmd region timeout secrets verbose =
     \<lparr>ad_failureCmd = TrimSpace failureCmd, ad_recoveredCmd = TrimSpace recoveredCmd,
      ad_region = region, ad_timeout = (if timeout \<le> 0 then 15 * second else timeout),
      ad_secrets = secrets, ad_verbose = verbose, ad_run = runHookProcess,
      ad_queue = [], ad_done = False\<rparr>"

text \<open>\<^verbatim>\<open>send\<close> never blocks: with a full queue the event is dropped. A nil dispatcher drops all.\<close>

definition dispatcher_send :: "alertEvent \<Rightarrow> alertDispatcher option \<Rightarrow> alertDispatcher option" where
  "dispatcher_send ev d0 =
     (case d0 of
        None \<Rightarrow> None
      | Some d \<Rightarrow> if length (ad_queue d) < alertQueueSize then Some (d\<lparr>ad_queue := ad_queue d @ [ev]\<rparr>)
                  else Some d)"

definition inherited_names :: "string list" where
  "inherited_names = [''PATH'', ''HOME'', ''TZ'', ''LANG'', ''SSL_CERT_FILE'', ''SSL_CERT_DIR'']"

definition environ_entry :: "string \<times> string \<Rightarrow> string" where
  "environ_entry kv = fst kv @ ''='' @ snd kv"

definition hookEnv :: "alertDispatcher \<Rightarrow> alertEvent \<Rightarrow> world \<Rightarrow> string list" where
  "hookEnv d ev w =
     [''PIA_WG_EVENT='' @ ae_Kind ev, ''PIA_WG_MESSAGE='' @ ae_Message ev,
      ''PIA_WG_REGION='' @ ad_region d, ''PIA_WG_ATTEMPTS='' @ Itoa (ae_Attempts ev),
      ''PIA_WG_OUTAGE_SECONDS='' @ Itoa (whole_seconds (ae_Outage ev))]
     @ List.map_filter (\<lambda>key. map_option (\<lambda>v. key @ ''='' @ v) (map_of (w_environ w) key)) inherited_names
     @ filter (prefix ''PIA_WG_ALERT_'') (map environ_entry (w_environ w))"

definition redactErr :: "goerr option \<Rightarrow> string list \<Rightarrow> string" where
  "redactErr e secrets = (case e of None \<Rightarrow> [] | Some e \<Rightarrow> Redact (emsg e) secrets)"

text \<open>Delivering an event: run the hook of its kind, if there is one; the line it logs.\<close>

definition deliver :: "alertDispatcher \<Rightarrow> alertEvent \<Rightarrow> world \<Rightarrow> string option \<times> world" where
  "deliver d ev w =
     (let cmd = (if ae_Kind ev = alertEventRecovered then ad_recoveredCmd d else ad_failureCmd d) in
      if cmd = [] then (None, w)
      else case ad_run d cmd (hookEnv d ev w) w of ((out, err), w) \<Rightarrow>
        let out = TrimSpace (Redact out (ad_secrets d)) in
        case err of
          Some e \<Rightarrow> (Some (''alert hook ('' @ ae_Kind ev @ '') failed: '' @ redactErr err (ad_secrets d)
                          @ '' '' @ out), w)
        | None \<Rightarrow> ((if ad_verbose d then Some (''alert hook ('' @ ae_Kind ev @ '') delivered '' @ out)
                   else None), w))"

subsection \<open>The hook's environment is an allow-list\<close>

definition hook_allowed :: "string \<Rightarrow> bool" where
  "hook_allowed name \<longleftrightarrow> name \<in> set inherited_names \<or> prefix ''PIA_WG_ALERT_'' name"

lemma prefix_environ_entry:
  assumes "CHR ''='' \<notin> set p"
  shows "prefix p (environ_entry kv) \<longleftrightarrow> prefix p (fst kv)"
proof
  assume "prefix p (environ_entry kv)"
  then obtain z where "p @ z = fst kv @ ''='' @ snd kv" by (auto simp: prefix_def environ_entry_def)
  then consider us where "fst kv = p @ us" | us where "p = fst kv @ us" "us @ z = ''='' @ snd kv"
    by (metis append_eq_append_conv2)
  then show "prefix p (fst kv)"
  proof cases
    case 2
    then show ?thesis using assms by (cases us) auto
  qed auto
qed (auto simp: environ_entry_def prefix_def)

lemma map_of_filter_key: "P key \<Longrightarrow> map_of (filter (P \<circ> fst) xs) key = map_of xs key"
  by (induction xs) auto

lemma hookEnv_filter:
  "hookEnv d ev w = hookEnv d ev (w\<lparr>w_environ := filter (hook_allowed \<circ> fst) (w_environ w)\<rparr>)"
proof -
  have inh: "map_of (filter (hook_allowed \<circ> fst) (w_environ w)) key = map_of (w_environ w) key"
    if "key \<in> set inherited_names" for key
    using that by (intro map_of_filter_key) (simp add: hook_allowed_def)
  have alert: "filter (prefix ''PIA_WG_ALERT_'') (map environ_entry (filter (hook_allowed \<circ> fst) kvs)) =
      filter (prefix ''PIA_WG_ALERT_'') (map environ_entry kvs)" for kvs
    by (induction kvs) (auto simp: prefix_environ_entry hook_allowed_def)
  have "List.map_filter (\<lambda>key. f key (map_of (filter (hook_allowed \<circ> fst) (w_environ w)) key)) ks =
      List.map_filter (\<lambda>key. f key (map_of (w_environ w) key)) ks"
    if "set ks \<subseteq> set inherited_names" for ks and f :: "string \<Rightarrow> string option \<Rightarrow> string option"
    using that by (induction ks) (simp_all only: map_filter_simps inh list.set insert_subset)
  from this [of inherited_names "\<lambda>key. map_option (\<lambda>v. key @ ''='' @ v)"] alert show ?thesis
    unfolding hookEnv_def by simp
qed

text \<open>
  C35: A hook never sees the account. The environment a hook runs with depends only on the
  variables on the allow-list (PATH, HOME, TZ, LANG, SSL_CERT_FILE, SSL_CERT_DIR and names
  starting with PIA_WG_ALERT_): two processes whose environments agree on those give their
  hooks the same environment, and PIA_USERNAME and PIA_PASSWORD are not among them.
\<close>

theorem hookEnv_hides_credentials:
  assumes "filter (hook_allowed \<circ> fst) (w_environ w) = filter (hook_allowed \<circ> fst) (w_environ w')"
  shows "hookEnv d ev w = hookEnv d ev w' \<and>
    \<not> hook_allowed ''PIA_USERNAME'' \<and> \<not> hook_allowed ''PIA_PASSWORD''"
proof (intro conjI)
  have "hookEnv d ev w = hookEnv d ev (w\<lparr>w_environ := filter (hook_allowed \<circ> fst) (w_environ w')\<rparr>)"
    using hookEnv_filter [of d ev w] assms by simp
  also have "\<dots> = hookEnv d ev (w'\<lparr>w_environ := filter (hook_allowed \<circ> fst) (w_environ w')\<rparr>)"
    by (simp add: hookEnv_def)
  also have "\<dots> = hookEnv d ev w'" by (rule hookEnv_filter [symmetric])
  finally show "hookEnv d ev w = hookEnv d ev w'" .
qed (simp_all add: hook_allowed_def inherited_names_def)

theorem hookEnv_hides_credentials_witness:
  "hookEnv (newAlertDispatcher ''notify'' [] ''nl'' 0 [] False)
      \<lparr>ae_Kind = alertEventFailure, ae_Message = ''down'', ae_Attempts = 3, ae_Outage = 0\<rparr>
      ((calm_world 1)\<lparr>w_environ := [(''PATH'', ''/bin''), (''PIA_PASSWORD'', ''secret'')]\<rparr>) =
   hookEnv (newAlertDispatcher ''notify'' [] ''nl'' 0 [] False)
      \<lparr>ae_Kind = alertEventFailure, ae_Message = ''down'', ae_Attempts = 3, ae_Outage = 0\<rparr>
      ((calm_world 1)\<lparr>w_environ := [(''PIA_PASSWORD'', ''other''), (''PATH'', ''/bin'')]\<rparr>)"
  by (rule hookEnv_hides_credentials [THEN conjunct1]) (simp add: hook_allowed_def inherited_names_def)

subsection \<open>The buffer of a hook's output\<close>

lemma capped_Write_take: "length buf \<le> 2048 \<Longrightarrow> snd (capped_Write buf p) = take 2048 (buf @ p)"
  by (auto simp: capped_Write_def Let_def nat_diff_distrib)

text \<open>
  The output kept of a hook is exactly the first 2048 bytes of what it wrote, in
  however many pieces it wrote them.
\<close>

theorem capped_all_take: "capped_all chunks = take 2048 (concat chunks)"
proof -
  have "foldl (\<lambda>buf p. snd (capped_Write buf p)) (take 2048 buf) chunks = take 2048 (buf @ concat chunks)" for buf
  proof (induction chunks arbitrary: buf)
    case Nil
    then show ?case by simp
  next
    case (Cons c cs)
    have "snd (capped_Write (take 2048 buf) c) = take 2048 (buf @ c)"
      by (simp add: capped_Write_take take_append min_def)
    with Cons.IH [of "buf @ c"] show ?case by simp
  qed
  from this [of "[]"] show ?thesis by (simp add: capped_all_def)
qed

subsection \<open>The queue\<close>

text \<open>
  The daemon's goroutine sends; one worker goroutine takes events and delivers them, until
  it was told to stop and the queue is empty. The steps interleave in any order.
\<close>

record alert_sys =
  as_d :: alertDispatcher
  as_running :: bool
  as_sent :: "alertEvent list"
  as_delivered :: "alertEvent list"
  as_world :: world

inductive alert_step :: "alert_sys \<Rightarrow> alert_sys \<Rightarrow> bool" where
  send: "dispatcher_send ev (Some (as_d s)) = Some d \<Longrightarrow>
     alert_step s (s\<lparr>as_d := d, as_sent := as_sent s @ [ev]\<rparr>)"
| deliver_one: "as_running s \<Longrightarrow> ad_queue (as_d s) = ev # q \<Longrightarrow>
     alert_step s (s\<lparr>as_d := (as_d s)\<lparr>ad_queue := q\<rparr>, as_delivered := as_delivered s @ [ev],
                    as_world := snd (deliver (as_d s) ev (as_world s))\<rparr>)"
| stop: "alert_step s (s\<lparr>as_d := (as_d s)\<lparr>ad_done := True\<rparr>\<rparr>)"
| worker_exit: "as_running s \<Longrightarrow> ad_done (as_d s) \<Longrightarrow> ad_queue (as_d s) = [] \<Longrightarrow>
     alert_step s (s\<lparr>as_running := False\<rparr>)"

inductive_cases alert_stepE: "alert_step s t"

definition alert_init :: "alertDispatcher \<Rightarrow> world \<Rightarrow> alert_sys" where
  "alert_init d w = \<lparr>as_d = d\<lparr>ad_queue := []\<rparr>, as_running = True, as_sent = [], as_delivered = [], as_world = w\<rparr>"

definition alert_inv :: "alert_sys \<Rightarrow> bool" where
  "alert_inv s \<longleftrightarrow>
     length (ad_queue (as_d s)) \<le> alertQueueSize \<and>
     subseq (as_delivered s @ ad_queue (as_d s)) (as_sent s)"

interpretation alert_run: step_invariant alert_step alert_inv
proof
  fix s t assume "alert_step s t" and inv: "alert_inv s"
  then show "alert_inv t"
  proof (induction rule: alert_step.induct)
    case (send ev s d)
    from send(2) have "subseq ((as_delivered s @ ad_queue (as_d s)) @ [ev]) (as_sent s @ [ev])"
      unfolding alert_inv_def by (intro list_emb_append_mono) auto
    moreover from send(2) have "subseq (as_delivered s @ ad_queue (as_d s)) (as_sent s @ [ev])"
      unfolding alert_inv_def by (auto intro: subseq_order.trans)
    ultimately show ?case
      using send by (auto simp: alert_inv_def dispatcher_send_def split: if_splits)
  qed (auto simp: alert_inv_def)
qed



end
