(* ===== verification/Refresh.thy ===== *)
theory Refresh
  imports Cli Status Timing Lifetime Alert
begin

text \<open>
  refresh.go, the daemon that runs outside the tunnel's network namespace: it renews the
  registration on a lifetime-aware schedule and when the tunnel is lost, writes the
  configuration and the status file, restarts the VPN container and alerts.

  The struct \<^verbatim>\<open>refreshRuntime\<close> is one record in two layers, the resolved options
  (\<open>refreshConfig\<close>, which no operation changes) and the mutable state. An operation takes
  the runtime and the world and returns both. Everything here runs in the goroutine of the
  loop, one operation after the other, so the two mutexes are always free; the only other
  goroutine is the alert worker, which takes events from the queue between the operations.
  Log lines are not modelled, reads made only for a log line are.
\<close>

section \<open>State\<close>

record refreshConfig =
  rt_username :: string
  rt_password :: string
  rt_region :: string
  rt_stateDir :: string
  rt_verbose :: bool
  rt_serverName :: bool
  rt_portForwarding :: bool
  rt_ipv6Mode :: IPv6Mode
  rt_ipv6ModeStr :: string
  rt_fallbackInterval :: duration
  rt_jitterMax :: duration
  rt_maxRegistrationAge :: duration
  rt_adoptHealthy :: bool
  rt_healthInterval :: duration
  rt_unhealthyThreshold :: int
  rt_controlURL :: string
  rt_controlTimeout :: duration
  rt_backoffMin :: duration
  rt_backoffMax :: duration
  rt_restartContainer :: string
  rt_dockerSocket :: string
  rt_dockerHost :: string
  rt_configHookCmd :: string
  rt_configPath :: string
  rt_statusPath :: string
  rt_forwardedPortPath :: string
  rt_pendingPFPath :: string
  rt_lifetime :: LifetimeStore
  rt_generateFn :: "(world \<Rightarrow> GenerateResult res \<times> world) option"
  rt_restartFn :: "(string \<Rightarrow> world \<Rightarrow> unit res \<times> world) option"
  rt_recoveryCooldown :: duration

record refreshRuntime = refreshConfig +
  rt_policy :: "outagePolicy option"
  rt_alerts :: "alertDispatcher option"
  rt_lastGenerateUTC :: time
  rt_nextRefreshUTC :: time
  rt_lastRecoveryUTC :: time
  rt_recoveryCount :: int
  rt_tunnelHealthy :: bool
  rt_controlStatus :: string
  rt_publicIPKnown :: bool
  rt_publicIPPresent :: bool
  rt_lastHealthCheckUTC :: time
  rt_lastHealthyUTC :: time
  rt_unhealthySinceUTC :: time
  rt_consecutiveUnhealth :: int
  rt_confirmedHealthy :: bool
  rt_healthySinceRecovery :: bool
  rt_ineffectiveRecoveries :: int
  rt_regenError :: string
  rt_healthError :: string
  rt_ipSignalWarn :: bool

definition recoveryCooldownCap :: duration where "recoveryCooldownCap = 30 * minute"
definition maxRegenAttempts :: nat where "maxRegenAttempts = 6"

definition rt_secrets :: "('a refreshConfig_scheme) \<Rightarrow> string list" where
  "rt_secrets rt = [rt_username rt, rt_password rt]"

definition rt_redact :: "('a refreshConfig_scheme) \<Rightarrow> string \<Rightarrow> string" where
  "rt_redact rt s = Redact s (rt_secrets rt)"

section \<open>Status\<close>

definition buildStatus :: "refreshRuntime \<Rightarrow> world \<Rightarrow> daemonStatus \<times> world" where
  "buildStatus rt w =
     (let (r, w) = Load (rt_lifetime rt) w;
          rec = (case r of Ok rec \<Rightarrow> rec | _ \<Rightarrow> zero_LifetimeRecord);
          (now, w) = time_Now w;
          (expiry, source) = ExpectedExpiry rec (rt_fallbackInterval rt) (rt_maxRegistrationAge rt);
          (failures, _) = policy_snapshot (rt_policy rt);
          st = zero_daemonStatus
            \<lparr>ds_Region := rt_region rt, ds_Mode := ''refresh'', ds_PortForwarding := rt_portForwarding rt,
             ds_ServerNameEnabled := rt_serverName rt, ds_IPv6Mode := rt_ipv6ModeStr rt,
             ds_LastGenerateUTC := rt_lastGenerateUTC rt, ds_NextRefreshUTC := rt_nextRefreshUTC rt,
             ds_RegistrationUTC := lr_CurrentRegistrationUTC rec, ds_ExpectedExpiryUTC := expiry,
             ds_LifetimeSource := source, ds_TunnelHealthy := rt_tunnelHealthy rt,
             ds_ControlStatus := rt_controlStatus rt, ds_LastHealthCheckUTC := rt_lastHealthCheckUTC rt,
             ds_LastHealthyUTC := rt_lastHealthyUTC rt, ds_UnhealthySinceUTC := rt_unhealthySinceUTC rt,
             ds_LastRecoveryUTC := rt_lastRecoveryUTC rt, ds_RecoveryCount := rt_recoveryCount rt,
             ds_FailedAttempts := failures\<rparr>;
          st = (case RegistrationAge (lr_CurrentRegistrationUTC rec) now of
                  Some age \<Rightarrow> st\<lparr>ds_RegistrationAgeSecs := whole_seconds age\<rparr> | None \<Rightarrow> st);
          st = (case MeasuredLifetime rec of
                  Some life \<Rightarrow> st\<lparr>ds_MeasuredLifetimeSecs := whole_seconds life\<rparr> | None \<Rightarrow> st);
          st = (if rt_publicIPKnown rt then st\<lparr>ds_PublicIPPresent := Some (rt_publicIPPresent rt)\<rparr> else st);
          st = (if rt_regenError rt \<noteq> [] then st\<lparr>ds_LastError := rt_regenError rt\<rparr>
                else if rt_healthError rt \<noteq> [] then st\<lparr>ds_LastError := rt_healthError rt\<rparr>
                else st)
      in (st, w))"

definition flushStatus :: "refreshRuntime \<Rightarrow> world \<Rightarrow> world" where
  "flushStatus rt w =
     (let (st, w) = buildStatus rt w; (_, w) = writeStatus (rt_statusPath rt) st w in w)"

section \<open>Schedule\<close>

definition nextProactiveDelay :: "refreshRuntime \<Rightarrow> world \<Rightarrow> duration \<times> world" where
  "nextProactiveDelay rt w =
     (case Load (rt_lifetime rt) w of
        (Ok rec, w) \<Rightarrow>
          (let (interval, w) = applyJitter (SafeRefreshInterval rec (rt_fallbackInterval rt) (rt_maxRegistrationAge rt))
                 (rt_jitterMax rt) w in
           if time_IsZero (lr_CurrentRegistrationUTC rec) then (interval, w)
           else let (now, w) = time_Now w;
                    delay = time_Sub (time_Add (lr_CurrentRegistrationUTC rec) interval) now
                in (if delay < minute then minute else delay, w))
      | (_, w) \<Rightarrow> applyJitter (rt_fallbackInterval rt) (rt_jitterMax rt) w)"

definition armNextRefresh :: "refreshRuntime \<times> world \<Rightarrow> duration \<times> refreshRuntime \<times> world" where
  "armNextRefresh s =
     (let (rt, w) = s; (delay, w) = nextProactiveDelay rt w; (now, w) = time_Now w;
          rt = rt\<lparr>rt_nextRefreshUTC := time_Add now delay\<rparr>
      in (delay, rt, flushStatus rt w))"

text \<open>
  \<open>rearm\<close> gives the duration the proactive timer is reset to, or \<open>None\<close> when it is left
  alone. Stopping and draining the timer first makes sure that the old deadline is gone.
\<close>

definition rearm :: "refreshRuntime \<times> world \<Rightarrow> duration option \<times> refreshRuntime \<times> world" where
  "rearm s =
     (let (rt, w) = s; due = rt_nextRefreshUTC rt in
      case Load (rt_lifetime rt) w of
        (Ok rec, w) \<Rightarrow>
          (if time_IsZero (lr_CurrentRegistrationUTC rec) then (None, rt, w)
           else if time_After due (time_Add (lr_CurrentRegistrationUTC rec) minute) then
             (let (now, w) = time_Now w in
              if time_Sub now (lr_CurrentRegistrationUTC rec) > wrap64 (rt_healthInterval rt * 2) then (None, rt, w)
              else let (delay, rt, w) = armNextRefresh (rt, w) in (Some delay, rt, w))
           else let (delay, rt, w) = armNextRefresh (rt, w) in (Some delay, rt, w))
      | (_, w) \<Rightarrow> (None, rt, w))"

section \<open>Observing the tunnel\<close>

definition note_sample :: "TunnelState \<Rightarrow> time \<Rightarrow> refreshRuntime \<Rightarrow> refreshRuntime" where
  "note_sample state now rt =
     (let rt = rt\<lparr>rt_controlStatus := ts_Status state, rt_publicIPKnown := ts_PublicIPKnown state,
                  rt_publicIPPresent := ts_PublicIPPresent state, rt_lastHealthCheckUTC := now,
                  rt_tunnelHealthy := ts_Healthy state\<rparr>;
          rt = (if ts_Healthy state
                then rt\<lparr>rt_lastHealthyUTC := now, rt_confirmedHealthy := True, rt_healthySinceRecovery := True,
                        rt_ineffectiveRecoveries := 0, rt_consecutiveUnhealth := 0,
                        rt_unhealthySinceUTC := 0, rt_healthError := []\<rparr>
                else let rt = rt\<lparr>rt_consecutiveUnhealth := rt_consecutiveUnhealth rt + 1\<rparr>;
                         rt = (if time_IsZero (rt_unhealthySinceUTC rt) then rt\<lparr>rt_unhealthySinceUTC := now\<rparr> else rt)
                     in case ts_Err state of
                          Some e \<Rightarrow> rt\<lparr>rt_healthError := rt_redact rt (emsg e)\<rparr>
                        | None \<Rightarrow> rt)
      in if \<not> ts_PublicIPKnown state \<and> ts_Healthy state \<and> \<not> rt_ipSignalWarn rt
         then rt\<lparr>rt_ipSignalWarn := True\<rparr> else rt)"

definition recovered_event :: "duration \<Rightarrow> int \<Rightarrow> alertEvent" where
  "recovered_event outage attempts =
     \<lparr>ae_Kind = alertEventRecovered,
      ae_Message = ''tunnel is healthy again after an outage of '' @ duration_String (round_second outage) @
        '' ('' @ Itoa attempts @ '' failed attempts)'',
      ae_Attempts = attempts, ae_Outage = outage\<rparr>"

definition observe :: "TunnelState \<Rightarrow> time \<Rightarrow> refreshRuntime \<times> world \<Rightarrow> refreshRuntime \<times> world" where
  "observe state now s =
     (let (rt, w) = s; rt = note_sample state now rt;
          rt = (if ts_Healthy state then
                  let ((recovered, outage, attempts), po) = policy_healthy now (rt_policy rt);
                      rt = rt\<lparr>rt_policy := po\<rparr>
                  in if recovered
                     then rt\<lparr>rt_alerts := dispatcher_send (recovered_event outage attempts) (rt_alerts rt)\<rparr>
                     else rt
                else rt)
      in (rt, flushStatus rt w))"

section \<open>Keeping a registration\<close>

definition tryAdopt :: "refreshRuntime \<times> world \<Rightarrow> bool \<times> refreshRuntime \<times> world" where
  "tryAdopt s =
     (let (rt, w) = s in
      case ParseEndpointFromConfig (rt_configPath rt) w of
        (Ok cfg, w) \<Rightarrow>
          if cfg = [] then (False, rt, w)
          else (case Load (rt_lifetime rt) w of
            (Ok rec, w) \<Rightarrow>
              if time_IsZero (lr_CurrentRegistrationUTC rec) then (False, rt, w)
              else let (prev, w) = readPreviousRegion (rt_statusPath rt) w in
                if prev \<noteq> Some (rt_region rt) then (False, rt, w)
                else let (now, w) = time_Now w;
                         age = time_Sub now (lr_CurrentRegistrationUTC rec) in
                  if age \<ge> wrap64 (SafeRefreshInterval rec (rt_fallbackInterval rt) (rt_maxRegistrationAge rt)
                                   - rt_healthInterval rt)
                  then (False, rt, w)
                  else let (state, w) = CheckTunnelViaControlServer (rt_controlURL rt) (rt_controlTimeout rt) w in
                    if \<not> ts_Healthy state then (False, rt, w)
                    else let (now, w) = time_Now w;
                             rt = rt\<lparr>rt_lastGenerateUTC := lr_CurrentRegistrationUTC rec,
                                     rt_confirmedHealthy := True, rt_healthySinceRecovery := True\<rparr>;
                             (rt, w) = observe state now (rt, w)
                         in (True, rt, w)
          | (_, w) \<Rightarrow> (False, rt, w))
      | (_, w) \<Rightarrow> (False, rt, w))"

section \<open>Regeneration\<close>

definition generate :: "('a refreshConfig_scheme) \<Rightarrow> world \<Rightarrow> GenerateResult res \<times> world" where
  "generate rt w =
     (case rt_generateFn rt of
        Some f \<Rightarrow> f w
      | None \<Rightarrow>
          io_try (io_wrap (errors_Wrap ''client setup'')
            (NewPIAClient (rt_username rt) (rt_password rt) (rt_region rt) (rt_verbose rt) (rt_portForwarding rt) w))
            (\<lambda>piaClient w.
             let g = NewPIAWgGenerator pia_methods
                   \<lparr>gc_Verbose = rt_verbose rt, gc_ServerName = rt_serverName rt, gc_PrivateKey = [],
                    gc_PublicKey = [], gc_IPv6Mode = rt_ipv6Mode rt\<rparr>;
                 (r, _, w) = GenerateWithMetadata g (piaClient, w)
             in (r, w)))"

definition restartGluetun :: "('a refreshConfig_scheme) \<Rightarrow> world \<Rightarrow> unit res \<times> world" where
  "restartGluetun rt w =
     (if rt_restartContainer rt = [] then (Ok (), w)
      else case rt_restartFn rt of
             Some f \<Rightarrow> f (rt_restartContainer rt) w
           | None \<Rightarrow> restartDockerContainerVia (rt_dockerHost rt) (rt_dockerSocket rt) (rt_restartContainer rt) w)"

text \<open>
  Everything of \<open>regenerateOnce\<close> up to and including the restart: it depends on the options
  only. The errors of recording the birth and of the configuration hook are ignored.
\<close>

definition apply_config :: "('a refreshConfig_scheme) \<Rightarrow> time \<Rightarrow> GenerateResult \<Rightarrow> world \<Rightarrow> unit res \<times> world" where
  "apply_config rt now gen w =
     io_try (io_wrap (errors_Wrap ''config write'') (atomicWriteFile (rt_configPath rt) (Text (gr_Config gen)) 420 w)) (\<lambda>_ w.
     let (_, w) = RecordNewRegistration (rt_lifetime rt) now w in
     io_try (if rt_portForwarding rt
             then io_wrap (errors_Wrap ''pending PF write'') (writePendingPortForward (rt_pendingPFPath rt) (gr_Key gen) w)
             else (Ok (), w)) (\<lambda>_ w.
     let (_, w) = runConfigHook (rt_configHookCmd rt) (rt_stateDir rt) (rt_configPath rt) (rt_forwardedPortPath rt) [] w in
     io_wrap (errors_Wrap ''gluetun restart'') (restartGluetun rt w)))"

definition regenerateOnce :: "refreshRuntime \<times> world \<Rightarrow> unit res \<times> refreshRuntime \<times> world" where
  "regenerateOnce s =
     (let (rt, w) = s; (now, w) = time_Now w;
          (r, w) = io_try (io_wrap (errors_Wrap ''config generation'') (generate rt w)) (apply_config rt now)
      in io_try (r, rt, w) (\<lambda>_ (rt, w).
         let rt = rt\<lparr>rt_lastGenerateUTC := now, rt_regenError := []\<rparr>;
             (_, rt, w) = armNextRefresh (rt, w);
             w = (if rt_verbose rt then snd (ParseEndpointFromConfig (rt_configPath rt) w) else w)
         in (Ok (), rt, w)))"

definition failure_event :: "string \<Rightarrow> int \<Rightarrow> string \<Rightarrow> alertEvent" where
  "failure_event region attempts cause =
     \<lparr>ae_Kind = alertEventFailure,
      ae_Message = ''PIA WireGuard recovery has FAILED after '' @ Itoa attempts @
        '' consecutive attempts (region '' @ region @ ''): '' @ cause,
      ae_Attempts = attempts, ae_Outage = 0\<rparr>"

definition noteFailedAttempt :: "time \<Rightarrow> string \<Rightarrow> refreshRuntime \<Rightarrow> refreshRuntime" where
  "noteFailedAttempt now cause rt =
     (let ((fire, attempts), po) = policy_failure now (rt_policy rt); rt = rt\<lparr>rt_policy := po\<rparr> in
      if fire then rt\<lparr>rt_alerts := dispatcher_send (failure_event (rt_region rt) attempts cause) (rt_alerts rt)\<rparr>
      else rt)"

definition note_recovery :: "time \<Rightarrow> refreshRuntime \<Rightarrow> refreshRuntime" where
  "note_recovery now rt =
     rt\<lparr>rt_lastRecoveryUTC := now, rt_recoveryCount := rt_recoveryCount rt + 1,
        rt_healthySinceRecovery := False, rt_confirmedHealthy := False, rt_consecutiveUnhealth := 0\<rparr>"

definition note_regen_error :: "goerr \<Rightarrow> refreshRuntime \<times> world \<Rightarrow> refreshRuntime \<times> world" where
  "note_regen_error err s =
     (let (rt, w) = s; cause = rt_redact rt (emsg err);
          rt = rt\<lparr>rt_regenError := cause\<rparr>;
          w = flushStatus rt w;
          (now, w) = time_Now w
      in (noteFailedAttempt now cause rt, w))"

definition regen_failed :: "goerr option \<Rightarrow> goerr" where
  "regen_failed lastErr =
     (let m = ''regeneration failed after '' @ Itoa (int maxRegenAttempts) @ '' attempts'' in
      case lastErr of Some e \<Rightarrow> errors_Wrap m e | None \<Rightarrow> errors_New m)"

definition reactive :: string where "reactive = ''reactive-recovery''"

text \<open>The loop of \<open>regenerateWithBackoff\<close>, with the number of attempts that are left.\<close>

fun regen_attempts :: "string \<Rightarrow> nat \<Rightarrow> duration \<Rightarrow> goerr option \<Rightarrow> refreshRuntime \<times> world \<Rightarrow> unit res \<times> refreshRuntime \<times> world" where
  "regen_attempts trigger 0 backoff lastErr s = (Err (regen_failed lastErr), s)"
| "regen_attempts trigger (Suc n) backoff lastErr s =
     (case regenerateOnce s of
        (Ok _, rt, w) \<Rightarrow>
          (if trigger = reactive then
             let (now, w) = time_Now w; rt = note_recovery now rt in (Ok (), rt, flushStatus rt w)
           else (Ok (), rt, w))
      | (Panic m, s) \<Rightarrow> (Panic m, s)
      | (Err err, s) \<Rightarrow>
          (let (rt, w) = note_regen_error err s;
               w = time_Sleep backoff w;
               backoff = wrap64 (backoff * 2);
               backoff = (if backoff > rt_backoffMax rt then rt_backoffMax rt else backoff)
           in regen_attempts trigger n backoff (Some err) (rt, w)))"

definition regenerateWithBackoff :: "string \<Rightarrow> refreshRuntime \<times> world \<Rightarrow> unit res \<times> refreshRuntime \<times> world" where
  "regenerateWithBackoff trigger s = regen_attempts trigger maxRegenAttempts (rt_backoffMin (fst s)) None s"

section \<open>Reacting to a lost tunnel\<close>

fun cooldown_loop :: "nat \<Rightarrow> duration \<Rightarrow> duration" where
  "cooldown_loop 0 cooldown = cooldown"
| "cooldown_loop (Suc n) cooldown =
     (if cooldown < recoveryCooldownCap then cooldown_loop n (wrap64 (cooldown * 2)) else cooldown)"

definition effectiveCooldownLocked :: "refreshRuntime \<Rightarrow> duration" where
  "effectiveCooldownLocked rt =
     (let cooldown = (if rt_recoveryCooldown rt \<le> 0 then defaultRecoveryCooldown else rt_recoveryCooldown rt);
          cooldown = cooldown_loop (nat (rt_ineffectiveRecoveries rt)) cooldown
      in if cooldown > recoveryCooldownCap then recoveryCooldownCap else cooldown)"

definition ineffective_cause :: string where
  "ineffective_cause = ''the previous recovery applied a new config but the tunnel did not come back''"

definition accountForPreviousRecovery :: "time \<Rightarrow> refreshRuntime \<Rightarrow> refreshRuntime" where
  "accountForPreviousRecovery now rt =
     (if rt_recoveryCount rt > 0 \<and> \<not> rt_healthySinceRecovery rt
      then noteFailedAttempt now ineffective_cause
             (rt\<lparr>rt_ineffectiveRecoveries := rt_ineffectiveRecoveries rt + 1\<rparr>)
      else rt)"

definition recordLossIfMeasurable :: "refreshRuntime \<Rightarrow> world \<Rightarrow> world" where
  "recordLossIfMeasurable rt w =
     (if \<not> rt_confirmedHealthy rt \<or> time_IsZero (rt_lastHealthyUTC rt) then w
      else snd (RecordObservedLoss (rt_lifetime rt) (rt_lastHealthyUTC rt) w))"

text \<open>\<^verbatim>\<open>!rt.lastRecoveryUTC.IsZero() && time.Since(rt.lastRecoveryUTC) < cooldown\<close>\<close>

definition in_cooldown :: "refreshRuntime \<Rightarrow> world \<Rightarrow> bool \<times> world" where
  "in_cooldown rt w =
     (if time_IsZero (rt_lastRecoveryUTC rt) then (False, w)
      else let (now, w) = time_Now w in
           (time_Sub now (rt_lastRecoveryUTC rt) < effectiveCooldownLocked rt, w))"

definition onHealthTick :: "refreshRuntime \<times> world \<Rightarrow> unit res \<times> refreshRuntime \<times> world" where
  "onHealthTick s =
     (let (rt, w) = s;
          (state, w) = CheckTunnelViaControlServer (rt_controlURL rt) (rt_controlTimeout rt) w;
          (now, w) = time_Now w;
          (rt, w) = observe state now (rt, w) in
      if ts_Healthy state then (Ok (), rt, w)
      else
      let consecutive = rt_consecutiveUnhealth rt;
          threshold = (if rt_unhealthyThreshold rt < 1 then 1 else rt_unhealthyThreshold rt);
          (inCooldown, w) = in_cooldown rt w in
      if consecutive < threshold then (Ok (), rt, w)
      else if inCooldown then (Ok (), rt, w)
      else
      let rt = accountForPreviousRecovery now rt;
          w = recordLossIfMeasurable rt w in
      case regenerateWithBackoff reactive (rt, w) of
        (Panic m, s) \<Rightarrow> (Panic m, s)
      | (_, s) \<Rightarrow> (Ok (), s))"

section \<open>The command\<close>

definition envOrEmpty :: "string \<Rightarrow> world \<Rightarrow> string" where
  "envOrEmpty key w = Getenv key w"

definition alertSecretsFromEnv :: "world \<Rightarrow> string list" where
  "alertSecretsFromEnv w = [envOrEmpty ''PIA_WG_ALERT_WEBHOOK'' w]"

definition new_refreshRuntime :: "cli_context \<Rightarrow> string \<Rightarrow> string \<Rightarrow> IPv6Mode \<Rightarrow> world \<Rightarrow> refreshRuntime" where
  "new_refreshRuntime c username password ipv6Mode w =
     (let stateDir = TrimSpace (c_String c ''state-dir''); region = region_option c in
      \<lparr>rt_username = username, rt_password = password, rt_region = region, rt_stateDir = stateDir,
       rt_verbose = c_Bool c ''verbose'', rt_serverName = c_Bool c ''server'',
       rt_portForwarding = c_Bool c ''port-forwarding'', rt_ipv6Mode = ipv6Mode,
       rt_ipv6ModeStr = c_String c ''ipv6-mode'', rt_fallbackInterval = c_Duration c ''refresh-interval'',
       rt_jitterMax = c_Duration c ''refresh-jitter'', rt_maxRegistrationAge = c_Duration c ''max-registration-age'',
       rt_adoptHealthy = c_Bool c ''adopt-healthy-registration'',
       rt_healthInterval = c_Duration c ''health-check-interval'',
       rt_unhealthyThreshold = c_Int c ''unhealthy-threshold'',
       rt_controlURL = TrimSpace (c_String c ''control-server-url''),
       rt_controlTimeout = c_Duration c ''control-timeout'',
       rt_backoffMin = c_Duration c ''recovery-backoff-min'', rt_backoffMax = c_Duration c ''recovery-backoff-max'',
       rt_restartContainer = TrimSpace (c_String c ''restart-container''),
       rt_dockerSocket = TrimSpace (c_String c ''docker-socket''),
       rt_dockerHost = TrimSpace (c_String c ''docker-host''), rt_configHookCmd = c_String c ''on-config-change'',
       rt_configPath = mustStatePath stateDir defaultConfigFileName,
       rt_statusPath = mustStatePath stateDir defaultStatusFileName,
       rt_forwardedPortPath = mustStatePath stateDir defaultForwardedPortOut,
       rt_pendingPFPath = mustStatePath stateDir defaultPendingPFName,
       rt_lifetime = NewLifetimeStore stateDir, rt_generateFn = None, rt_restartFn = None,
       rt_recoveryCooldown = c_Duration c ''recovery-cooldown'',
       rt_policy = Some (newOutagePolicy (c_Int c ''alert-after'')),
       rt_alerts = Some (newAlertDispatcher (c_String c ''on-failure'') (c_String c ''on-recovered'') region
         (c_Duration c ''hook-timeout'') ([username, password] @ alertSecretsFromEnv w) (c_Bool c ''verbose'')),
       rt_lastGenerateUTC = 0, rt_nextRefreshUTC = 0, rt_lastRecoveryUTC = 0, rt_recoveryCount = 0,
       rt_tunnelHealthy = False, rt_controlStatus = [], rt_publicIPKnown = False, rt_publicIPPresent = False,
       rt_lastHealthCheckUTC = 0, rt_lastHealthyUTC = 0, rt_unhealthySinceUTC = 0, rt_consecutiveUnhealth = 0,
       rt_confirmedHealthy = False, rt_healthySinceRecovery = False, rt_ineffectiveRecoveries = 0,
       rt_regenError = [], rt_healthError = [], rt_ipSignalWarn = False\<rparr>)"

text \<open>
  The loop waits for two channels: the health ticker, whose next tick is due at \<open>lp_tick\<close>,
  and the proactive timer, due at \<open>lp_timer\<close>.
\<close>

record refresh_loop =
  lp_rt :: refreshRuntime
  lp_world :: world
  lp_tick :: time
  lp_timer :: time

definition check_docker_host :: "string \<Rightarrow> unit res" where
  "check_docker_host dockerHost =
     (if dockerHost \<noteq> []
      then case dockerEndpoint dockerHost [] of Ok _ \<Rightarrow> Ok () | Err e \<Rightarrow> Err e | Panic m \<Rightarrow> Panic m
      else Ok ())"

text \<open>\<^verbatim>\<open>runRefresh\<close> up to its endless loop.\<close>

definition runRefresh :: "cli_context \<Rightarrow> world \<Rightarrow> refresh_loop res \<times> world" where
  "runRefresh c w =
     io_try (resolveCredentials c, w) (\<lambda>(username, password) w.
     io_try (parseIPv6Mode (c_String c ''ipv6-mode''), w) (\<lambda>ipv6Mode w.
     let dockerHost = TrimSpace (c_String c ''docker-host'') in
     io_try (check_docker_host dockerHost, w) (\<lambda>_ w.
     let rt = new_refreshRuntime c username password ipv6Mode w;
         (adopted, rt, w) = (if rt_adoptHealthy rt then tryAdopt (rt, w) else (False, rt, w));
         (r, rt, w) = (if adopted then (Ok (), rt, w) else regenerateWithBackoff ''startup'' (rt, w)) in
     case r of
       Panic m \<Rightarrow> (Panic m, w)
     | _ \<Rightarrow>
         if rt_healthInterval rt \<le> 0 then (Panic ticker_panic, w)
         else let tick = w_clock w + rt_healthInterval rt; (delay, rt, w) = armNextRefresh (rt, w)
              in (Ok \<lparr>lp_rt = rt, lp_world = w, lp_tick = tick, lp_timer = w_clock w + delay\<rparr>, w))))"

datatype refresh_state = Running refresh_loop | Crashed string world

definition after_tick :: "refresh_loop \<Rightarrow> refreshRuntime \<times> world \<Rightarrow> refresh_loop" where
  "after_tick l s =
     (let (delay, rt, w) = rearm s in
      \<lparr>lp_rt = rt, lp_world = w,
       lp_tick = next_tick (rt_healthInterval (lp_rt l)) (lp_tick l) (w_clock (lp_world l)),
       lp_timer = (case delay of Some d \<Rightarrow> w_clock w + d | None \<Rightarrow> lp_timer l)\<rparr>)"

definition after_refresh :: "refresh_loop \<Rightarrow> refreshRuntime \<times> world \<Rightarrow> refresh_loop" where
  "after_refresh l s =
     (let (delay, rt, w) = armNextRefresh s in
      l\<lparr>lp_rt := rt, lp_world := w, lp_timer := w_clock w + delay\<rparr>)"

inductive refresh_step :: "refresh_state \<Rightarrow> refresh_state \<Rightarrow> bool" where
  tick: "lp_tick l \<le> w_clock (lp_world l) \<Longrightarrow> onHealthTick (lp_rt l, lp_world l) = (Ok (), s) \<Longrightarrow>
     refresh_step (Running l) (Running (after_tick l s))"
| tick_panic: "lp_tick l \<le> w_clock (lp_world l) \<Longrightarrow> onHealthTick (lp_rt l, lp_world l) = (Panic m, rt, w) \<Longrightarrow>
     refresh_step (Running l) (Crashed m w)"
| proactive: "lp_timer l \<le> w_clock (lp_world l) \<Longrightarrow>
     regenerateWithBackoff ''proactive'' (lp_rt l, lp_world l) = (r, s) \<Longrightarrow> \<forall>m. r \<noteq> Panic m \<Longrightarrow>
     refresh_step (Running l) (Running (after_refresh l s))"
| proactive_panic: "lp_timer l \<le> w_clock (lp_world l) \<Longrightarrow>
     regenerateWithBackoff ''proactive'' (lp_rt l, lp_world l) = (Panic m, rt, w) \<Longrightarrow>
     refresh_step (Running l) (Crashed m w)"
| alert: "rt_alerts (lp_rt l) = Some d \<Longrightarrow> ad_queue d = ev # q \<Longrightarrow>
     refresh_step (Running l)
       (Running (l\<lparr>lp_rt := (lp_rt l)\<lparr>rt_alerts := Some (d\<lparr>ad_queue := q\<rparr>)\<rparr>,
                   lp_world := snd (deliver d ev (lp_world l))\<rparr>))"
| wait: "0 \<le> d \<Longrightarrow>
     refresh_step (Running l)
       (Running (l\<lparr>lp_world := (lp_world l)\<lparr>w_clock := w_clock (lp_world l) + d\<rparr>\<rparr>))"

inductive_cases refresh_stepE: "refresh_step s t"
inductive_cases running_stepE: "refresh_step (Running l) (Running l')"

end
