(* ===== verification/Refresh_Safety.thy ===== *)
theory Refresh_Safety
  imports Refresh
begin

text \<open>
  What the operations of the refresh daemon leave alone, and from it the safety properties of
  refresh.go: when a recovery is allowed and how often, what is in place before the container
  is restarted, what the status file may show, and when the next refresh is due.
\<close>

section \<open>Effects of the operations\<close>

lemma writeStatus_writes [frame]: "runs (writes_only {path}) w (snd (writeStatus path st w))"
  by (auto simp: writeStatus_def aw.writes split: option.splits)

lemma buildStatus_quiet [frame]: "quiet w (snd (buildStatus rt w))"
proof -
  have "quiet w (snd (time_Now (snd (Load (rt_lifetime rt) w))))"
    using Load_quiet time_Now_quiet by (rule quiet_trans)
  moreover have "snd (buildStatus rt w) = snd (time_Now (snd (Load (rt_lifetime rt) w)))"
    by (simp add: buildStatus_def Let_def split_beta)
  ultimately show ?thesis by simp
qed

lemma flushStatus_writes [frame]: "runs (writes_only {rt_statusPath rt}) w (flushStatus rt w)"
proof -
  have "flushStatus rt w = snd (writeStatus (rt_statusPath rt) (fst (buildStatus rt w)) (snd (buildStatus rt w)))"
    by (simp add: flushStatus_def Let_def split_beta)
  with runs_trans [OF quiet_runs [OF buildStatus_quiet] writeStatus_writes] show ?thesis by simp
qed

lemma nextProactiveDelay_quiet [frame]: "quiet w (snd (nextProactiveDelay rt w))"
proof -
  obtain r v where l: "Load (rt_lifetime rt) w = (r, v)" by (cases "Load (rt_lifetime rt) w")
  then have v: "quiet w v" using Load_quiet [of w "rt_lifetime rt"] by simp
  have j: "quiet w (snd (applyJitter i (rt_jitterMax rt) v))" for i
    using v applyJitter_quiet by (rule quiet_trans)
  then have "quiet w (snd (time_Now (snd (applyJitter i (rt_jitterMax rt) v))))" for i
    using time_Now_quiet by (rule quiet_trans)
  with j l show ?thesis
    by (cases r) (simp_all add: nextProactiveDelay_def Let_def split_beta)
qed

lemma armNextRefresh_result:
  assumes "armNextRefresh (rt, w) = (delay, rt', w')"
  shows "\<exists>t. rt' = rt\<lparr>rt_nextRefreshUTC := t\<rparr>" and "runs (writes_only {rt_statusPath rt}) w w'"
proof -
  let ?v = "snd (nextProactiveDelay rt w)"
  have rt': "rt' = rt\<lparr>rt_nextRefreshUTC := time_Add (fst (time_Now ?v)) delay\<rparr>"
    and w': "w' = flushStatus rt' (snd (time_Now ?v))"
    using assms by (auto simp: armNextRefresh_def Let_def split_beta)
  from rt' show "\<exists>t. rt' = rt\<lparr>rt_nextRefreshUTC := t\<rparr>" by blast
  have "quiet w (snd (time_Now ?v))" using nextProactiveDelay_quiet time_Now_quiet by (rule quiet_trans)
  from runs_trans [OF quiet_runs [OF this] flushStatus_writes [of rt']]
  show "runs (writes_only {rt_statusPath rt}) w w'" by (simp add: w' rt')
qed

lemma rearm_result:
  assumes "rearm (rt, w) = (delay, rt', w')"
  shows "\<exists>t. rt' = rt\<lparr>rt_nextRefreshUTC := t\<rparr>" and "runs (writes_only {rt_statusPath rt}) w w'"
proof -
  obtain r v where l: "Load (rt_lifetime rt) w = (r, v)" by (cases "Load (rt_lifetime rt) w")
  then have v: "quiet w v" using Load_quiet [of w "rt_lifetime rt"] by simp
  then have n: "quiet w (snd (time_Now v))" using time_Now_quiet by (rule quiet_trans)
  have same: "\<exists>t. rt = rt\<lparr>rt_nextRefreshUTC := t\<rparr>" by (rule exI [of _ "rt_nextRefreshUTC rt"]) simp
  consider "rt' = rt" "w' \<in> {v, snd (time_Now v)}"
    | u d where "u \<in> {v, snd (time_Now v)}" "armNextRefresh (rt, u) = (d, rt', w')"
    using assms l by (cases r) (auto simp: rearm_def Let_def split_beta prod_eq_iff split: if_splits)
  then have "(\<exists>t. rt' = rt\<lparr>rt_nextRefreshUTC := t\<rparr>) \<and> runs (writes_only {rt_statusPath rt}) w w'"
  proof cases
    case 1
    with v n same show ?thesis by (auto intro: quiet_runs)
  next
    case 2
    then have "runs (writes_only {rt_statusPath rt}) w u" using v n by (auto intro: quiet_runs)
    with armNextRefresh_result [OF 2(2)] show ?thesis by (auto intro: runs_trans)
  qed
  then show "\<exists>t. rt' = rt\<lparr>rt_nextRefreshUTC := t\<rparr>" and "runs (writes_only {rt_statusPath rt}) w w'" by auto
qed

text \<open>
  The injectable seams behave like the functions they replace: they move the world on.
  Without seams, as in production, this holds.
\<close>

definition seams_ok :: "('a refreshConfig_scheme) \<Rightarrow> bool" where
  "seams_ok rt \<longleftrightarrow>
     (case rt_generateFn rt of None \<Rightarrow> True | Some f \<Rightarrow> (\<forall>w. evolves w (snd (f w)))) \<and>
     (case rt_restartFn rt of None \<Rightarrow> True | Some f \<Rightarrow> (\<forall>c w. evolves w (snd (f c w))))"

lemma generate_runs:
  assumes "rt_generateFn rt = None" and "permits P"
  shows "runs P w (snd (generate rt w))"
proof -
  let ?g = "NewPIAWgGenerator pia_methods
    \<lparr>gc_Verbose = rt_verbose rt, gc_ServerName = rt_serverName rt, gc_PrivateKey = [],
     gc_PublicKey = [], gc_IPv6Mode = rt_ipv6Mode rt\<rparr>"
  have "generate rt w =
    io_try (io_wrap (errors_Wrap ''client setup'')
      (NewPIAClient (rt_username rt) (rt_password rt) (rt_region rt) (rt_verbose rt) (rt_portForwarding rt) w))
      (\<lambda>p w. (fst (GenerateWithMetadata ?g (p, w)), snd (snd (GenerateWithMetadata ?g (p, w)))))"
    by (simp add: generate_def assms(1) Let_def split_beta)
  also have "runs P w (snd \<dots>)"
    by (rule runs_io_try) (use NewPIAClient_runs [OF assms(2)] GenerateWithMetadata_runs [OF assms(2)] in
      \<open>simp_all, metis snd_conv\<close>)
  finally show ?thesis .
qed

lemma generate_evolves [frame]:
  assumes "seams_ok rt"
  shows "evolves w (snd (generate rt w))"
proof (cases "rt_generateFn rt")
  case None
  from runs_evolves [OF generate_runs [OF None permits_True]] show ?thesis .
qed (use assms in \<open>simp add: seams_ok_def generate_def\<close>)

lemma restartGluetun_evolves [frame]:
  assumes "seams_ok rt"
  shows "evolves w (snd (restartGluetun rt w))"
  using assms net_run_evolves [OF restartVia_net_run]
  by (auto simp: restartGluetun_def seams_ok_def split: option.splits)

lemma Save_writes [frame]: "runs (writes_only {ls_path s}) w (snd (Save s rec w))"
  by (auto simp: Save_def asw.writes split: option.splits)

lemma RecordNewRegistration_writes [frame]:
  "runs (writes_only {ls_path s}) w (snd (RecordNewRegistration s now w))"
  unfolding RecordNewRegistration_def Let_def
  by (intro runs_io_try quiet_runs Load_quiet Save_writes) simp

lemma RecordObservedLoss_writes [frame]:
  "runs (writes_only {ls_path s}) w (snd (RecordObservedLoss s now w))"
  unfolding RecordObservedLoss_def Let_def
  by (rule runs_io_try [OF quiet_runs [OF Load_quiet]])
    (auto split: option.splits intro!: runs_io_try Save_writes)

lemma writePending_writes [frame]:
  "runs (writes_only {path}) w (snd (writePendingPortForward path key w))"
proof -
  obtain now v where n: "time_Now w = (now, v)" by (cases "time_Now w")
  then have "runs (writes_only {path}) w v" using quiet_runs [OF time_Now_quiet [of w]] by simp
  with n show ?thesis
    by (auto simp: writePendingPortForward_def intro: runs_trans [OF _ aw.writes] split: option.splits)
qed

lemma evolves_io_try:
  assumes "evolves w (snd r)" and "\<And>x v. evolves v (snd (f x v))"
  shows "evolves w (snd (io_try r f))"
  using assms io_try_snd_cases [of r f] evolves_trans by metis

lemma apply_config_evolves [frame]:
  assumes "seams_ok rt"
  shows "evolves w (snd (apply_config rt now gen w))"
proof -
  let ?hook = "runConfigHook (rt_configHookCmd rt) (rt_stateDir rt) (rt_configPath rt) (rt_forwardedPortPath rt) []"
  have hook: "evolves v (snd (io_wrap h (restartGluetun rt (snd (?hook v)))))" for v h
    using evolves_trans [OF net_run_evolves [OF runConfigHook_net_run] restartGluetun_evolves [OF assms]] by simp
  have pend: "evolves v (snd (if rt_portForwarding rt
      then io_wrap h (writePendingPortForward (rt_pendingPFPath rt) (gr_Key gen) v) else (Ok (), v)))" for v h
    using runs_evolves [OF writePending_writes] by simp
  have "evolves v (snd (io_try (if rt_portForwarding rt
      then io_wrap h (writePendingPortForward (rt_pendingPFPath rt) (gr_Key gen) v) else (Ok (), v))
      (\<lambda>_ v. io_wrap h' (restartGluetun rt (snd (?hook v))))))" for v h h'
    using pend hook by (rule evolves_io_try)
  note rest = evolves_trans [OF runs_evolves [OF RecordNewRegistration_writes] this]
  show ?thesis
    unfolding apply_config_def Let_def split_beta
    by (rule evolves_io_try) (simp_all add: aw.evolution rest)
qed

text \<open>A daemon on a machine where every request fails at once, for examples.\<close>

definition sample_cli :: cli_context where
  "sample_cli = \<lparr>c_args = [''p1234567'', ''hunter22''], c_String = (\<lambda>_. []), c_Bool = (\<lambda>_. False),
     c_Duration = (\<lambda>_. minute), c_Int = (\<lambda>_. 2)\<rparr>"

definition offline_world :: world where
  "offline_world = (calm_world hour)\<lparr>w_url_error := (\<lambda>_. Some (errors_New ''no route''))\<rparr>"

definition sample_rt :: refreshRuntime where
  "sample_rt = new_refreshRuntime sample_cli ''p1234567'' ''hunter22'' IPv6ModeOn offline_world"

lemma forward_offline: "forward_clock offline_world" "w_clock offline_world = hour"
  by (simp_all add: offline_world_def forward_clock_def calm_world_def del: snth.simps)

section \<open>State changes of a regeneration\<close>

text \<open>The state without what a regeneration may change: what the health checks maintain.\<close>

definition life :: "refreshRuntime \<Rightarrow> refreshRuntime" where
  "life rt = rt\<lparr>rt_policy := None, rt_alerts := None, rt_lastGenerateUTC := 0,
     rt_nextRefreshUTC := 0, rt_regenError := []\<rparr>"

lemma life_simps [simp]:
  "life (rt\<lparr>rt_policy := po\<rparr>) = life rt" "life (rt\<lparr>rt_alerts := al\<rparr>) = life rt"
  "life (rt\<lparr>rt_lastGenerateUTC := t\<rparr>) = life rt" "life (rt\<lparr>rt_nextRefreshUTC := t\<rparr>) = life rt"
  "life (rt\<lparr>rt_regenError := m\<rparr>) = life rt"
  by (simp_all add: life_def)

lemma lifeE:
  assumes "life rt' = life rt"
  obtains po al t t' m where "rt' = rt\<lparr>rt_policy := po, rt_alerts := al, rt_lastGenerateUTC := t,
    rt_nextRefreshUTC := t', rt_regenError := m\<rparr>"
proof -
  let ?u = "\<lambda>s. s\<lparr>rt_policy := rt_policy rt', rt_alerts := rt_alerts rt', rt_lastGenerateUTC := rt_lastGenerateUTC rt',
    rt_nextRefreshUTC := rt_nextRefreshUTC rt', rt_regenError := rt_regenError rt'\<rparr>"
  have "rt' = ?u (life rt')" by (simp add: life_def)
  also have "\<dots> = ?u rt" by (simp only: assms) (simp add: life_def)
  finally show thesis by (rule that)
qed

lemma life_eqD:
  assumes "life rt' = life rt"
  shows "rt_username rt' = rt_username rt" "rt_password rt' = rt_password rt"
    "rt_statusPath rt' = rt_statusPath rt" "rt_healthInterval rt' = rt_healthInterval rt"
    "rt_recoveryCooldown rt' = rt_recoveryCooldown rt" "rt_lastRecoveryUTC rt' = rt_lastRecoveryUTC rt"
    "rt_generateFn rt' = rt_generateFn rt" "rt_restartFn rt' = rt_restartFn rt"
    "rt_recoveryCount rt' = rt_recoveryCount rt" "rt_tunnelHealthy rt' = rt_tunnelHealthy rt"
    "rt_lastHealthCheckUTC rt' = rt_lastHealthCheckUTC rt" "rt_lastHealthyUTC rt' = rt_lastHealthyUTC rt"
    "rt_unhealthySinceUTC rt' = rt_unhealthySinceUTC rt"
    "rt_consecutiveUnhealth rt' = rt_consecutiveUnhealth rt"
    "rt_confirmedHealthy rt' = rt_confirmedHealthy rt"
    "rt_healthySinceRecovery rt' = rt_healthySinceRecovery rt"
    "rt_ineffectiveRecoveries rt' = rt_ineffectiveRecoveries rt"
    "rt_healthError rt' = rt_healthError rt"
  by (rule lifeE [OF assms], simp)+

text \<open>The error texts kept in the state have passed through \<open>redact\<close>.\<close>

definition redacted :: "refreshRuntime \<Rightarrow> string \<Rightarrow> bool" where
  "redacted rt m \<longleftrightarrow> (\<exists>text. m = Redact text (rt_secrets rt))"

lemma redacted_Nil [simp]: "redacted rt []"
  unfolding redacted_def by (rule exI [of _ "[]"]) (simp add: Redact_def)

lemma redacted_redact [simp]: "rt_secrets rt' = rt_secrets rt \<Longrightarrow> redacted rt (rt_redact rt' m)"
  by (auto simp: redacted_def rt_redact_def)

lemma life_secrets:
  assumes "life rt' = life rt"
  shows "rt_secrets rt' = rt_secrets rt"
  unfolding rt_secrets_def life_eqD [OF assms] ..

lemma life_redacted:
  assumes "life rt' = life rt"
  shows "redacted rt' = redacted rt"
  unfolding redacted_def fun_eq_iff life_secrets [OF assms] by simp

text \<open>The runner of alert hooks moves the world on, as \<^verbatim>\<open>runHookProcess\<close> does.\<close>

definition hooks_ok :: "alertDispatcher option \<Rightarrow> bool" where
  "hooks_ok al \<longleftrightarrow> (\<forall>d. al = Some d \<longrightarrow> (\<forall>cmd env w. evolves w (snd (ad_run d cmd env w))))"

lemma hooks_ok_send [simp]: "hooks_ok al \<Longrightarrow> hooks_ok (dispatcher_send ev al)"
  by (auto simp: hooks_ok_def dispatcher_send_def split: option.splits if_splits)

definition regen_rel :: "refreshRuntime \<Rightarrow> refreshRuntime \<Rightarrow> bool" where
  "regen_rel rt rt' \<longleftrightarrow>
     life rt' = life rt \<and> (redacted rt (rt_regenError rt) \<longrightarrow> redacted rt (rt_regenError rt')) \<and>
     (hooks_ok (rt_alerts rt) \<longrightarrow> hooks_ok (rt_alerts rt'))"

lemma regen_rel_refl [simp]: "regen_rel rt rt"
  by (simp add: regen_rel_def)

lemma regen_rel_next [simp]: "regen_rel rt (rt\<lparr>rt_nextRefreshUTC := t\<rparr>)"
  by (simp add: regen_rel_def)

lemma regen_rel_trans: "regen_rel a b \<Longrightarrow> regen_rel b c \<Longrightarrow> regen_rel a c"
  unfolding regen_rel_def using life_redacted by metis

lemma regen_rel_life: "regen_rel rt rt' \<Longrightarrow> life rt' = life rt"
  by (simp add: regen_rel_def)

lemma seams_ok_life:
  assumes "life rt' = life rt"
  shows "seams_ok rt' = seams_ok rt"
  unfolding seams_ok_def life_eqD [OF assms] ..

lemma noteFailedAttempt_updates:
  "\<exists>po al. noteFailedAttempt now cause rt = rt\<lparr>rt_policy := po, rt_alerts := al\<rparr> \<and>
     (hooks_ok (rt_alerts rt) \<longrightarrow> hooks_ok al)"
proof -
  obtain fire n po where "policy_failure now (rt_policy rt) = ((fire, n), po)" by (metis prod.exhaust)
  then have "noteFailedAttempt now cause rt = rt\<lparr>rt_policy := po,
      rt_alerts := if fire then dispatcher_send (failure_event (rt_region rt) n cause) (rt_alerts rt) else rt_alerts rt\<rparr>"
    by (simp add: noteFailedAttempt_def)
  then show ?thesis by (intro exI conjI) auto
qed

lemma note_regen_error_result:
  assumes "note_regen_error err (rt, w) = (rt', w')"
  shows "regen_rel rt rt'" and "evolves w w'"
proof -
  let ?rt = "rt\<lparr>rt_regenError := rt_redact rt (emsg err)\<rparr>"
  obtain now v where v: "time_Now (flushStatus ?rt w) = (now, v)" by (cases "time_Now (flushStatus ?rt w)")
  have rt': "rt' = noteFailedAttempt now (rt_redact rt (emsg err)) ?rt" and w': "w' = v"
    using assms v by (auto simp: note_regen_error_def Let_def)
  show "regen_rel rt rt'"
    unfolding rt' using noteFailedAttempt_updates [of now "rt_redact rt (emsg err)" ?rt]
    by (auto simp: regen_rel_def)
  have "evolves w (flushStatus ?rt w)" by (rule runs_evolves [OF flushStatus_writes])
  then show "evolves w w'"
    unfolding w' using emits_evolves [OF time_Now_quiet [of "flushStatus ?rt w"]] v evolves_trans by fastforce
qed

lemma ParseEndpoint_quiet [frame]: "quiet w (snd (ParseEndpointFromConfig p w))"
  unfolding ParseEndpointFromConfig_def by (rule io_try_keeps) (simp_all add: frame)

lemma regenerateOnce_result:
  assumes "regenerateOnce (rt, w) = (r, rt', w')"
  shows "regen_rel rt rt'" and "seams_ok rt \<Longrightarrow> evolves w w'"
proof -
  obtain now v where n: "time_Now w = (now, v)" by (cases "time_Now w")
  obtain q u where q: "io_try (io_wrap (errors_Wrap ''config generation'') (generate rt v)) (apply_config rt now) = (q, u)"
    by (cases "io_try (io_wrap (errors_Wrap ''config generation'') (generate rt v)) (apply_config rt now)")
  have u: "evolves w u" if ok: "seams_ok rt"
  proof -
    have "evolves w v" using emits_evolves [OF time_Now_quiet [of w]] n by simp
    also have "evolves v u"
      using evolves_io_try [of v "io_wrap (errors_Wrap ''config generation'') (generate rt v)" "apply_config rt now"]
        generate_evolves [OF ok] apply_config_evolves [OF ok] q by simp
    finally show ?thesis .
  qed
  let ?rt = "rt\<lparr>rt_lastGenerateUTC := now, rt_regenError := []\<rparr>"
  obtain d rt1 w1 where a: "armNextRefresh (?rt, u) = (d, rt1, w1)" by (cases "armNextRefresh (?rt, u)")
  note arm = armNextRefresh_result [OF a]
  have run: "rt' = rt \<and> w' = u \<or> rt' = rt1 \<and>
      w' = (if rt_verbose rt1 then snd (ParseEndpointFromConfig (rt_configPath rt1) w1) else w1)"
    using assms n q a by (cases q) (auto simp: regenerateOnce_def Let_def)
  have w1: "evolves u (if b then snd (ParseEndpointFromConfig p w1) else w1)" for b p
    using runs_evolves [OF arm(2)] emits_evolves [OF ParseEndpoint_quiet] by (auto intro: evolves_trans)
  show "regen_rel rt rt'" using run arm(1) by (auto simp: regen_rel_def)
  show "evolves w w'" if "seams_ok rt"
    using run u [OF that] w1 by (auto intro: evolves_trans)
qed

lemma time_Now_clock: "time_Now w = (now, v) \<Longrightarrow> now = w_clock v \<and> quiet w v"
  using time_Now_quiet [of w] by (auto simp: time_Now_def)

text \<open>A clock reading in the middle of a run.\<close>

definition read_between :: "world \<Rightarrow> time \<Rightarrow> world \<Rightarrow> bool" where
  "read_between w now w' \<longleftrightarrow> (\<exists>v. now = w_clock v \<and> evolves w v \<and> evolves v w')"

lemma read_between_clock:
  assumes "read_between w now w'" and "forward_clock w"
  shows "w_clock w \<le> now" and "now \<le> w_clock w'"
  using assms evolves_clock unfolding read_between_def clock_ahead_def by blast+

lemma read_between_before: "evolves u w \<Longrightarrow> read_between w now w' \<Longrightarrow> read_between u now w'"
  unfolding read_between_def using evolves_trans by blast

lemma read_between_after: "read_between w now w' \<Longrightarrow> evolves w' u \<Longrightarrow> read_between w now u"
  unfolding read_between_def using evolves_trans by blast

text \<open>
  A regeneration leaves the health state alone, except that a successful reactive one is noted
  as a recovery at a time read during the run.
\<close>

definition regen_outcome :: "string \<Rightarrow> refreshRuntime \<Rightarrow> world \<Rightarrow> unit res \<Rightarrow> refreshRuntime \<Rightarrow> world \<Rightarrow> bool" where
  "regen_outcome trigger rt w r rt' w' \<longleftrightarrow>
     (seams_ok rt \<longrightarrow> evolves w w') \<and>
     (if trigger = reactive \<and> is_Ok r
      then \<exists>rt1 now. regen_rel rt rt1 \<and> rt' = note_recovery now rt1 \<and> (seams_ok rt \<longrightarrow> read_between w now w')
      else regen_rel rt rt')"

lemma regen_outcome_later:
  assumes "regen_rel rt rt1" and "seams_ok rt \<longrightarrow> evolves w w1" and "regen_outcome trigger rt1 w1 r rt' w'"
  shows "regen_outcome trigger rt w r rt' w'"
proof -
  have s: "seams_ok rt1 = seams_ok rt" using assms(1) by (intro seams_ok_life regen_rel_life)
  show ?thesis
    using assms unfolding regen_outcome_def s
    by (auto split: if_splits intro: evolves_trans regen_rel_trans read_between_before)
qed

lemma regen_attempts_outcome:
  "regen_attempts trigger n backoff lastErr (rt, w) = (r, rt', w') \<Longrightarrow> regen_outcome trigger rt w r rt' w'"
proof (induction n arbitrary: backoff lastErr rt w)
  case 0
  then show ?case by (auto simp: regen_outcome_def)
next
  case (Suc n)
  obtain q rt1 w1 where q: "regenerateOnce (rt, w) = (q, rt1, w1)" by (cases "regenerateOnce (rt, w)")
  note one = regenerateOnce_result [OF q]
  show ?case
  proof (cases q)
    case (Ok x)
    obtain now v where v: "time_Now w1 = (now, v)" by (cases "time_Now w1")
    let ?v' = "flushStatus (note_recovery now rt1) v"
    have v': "evolves w1 v" "now = w_clock v" "evolves v ?v'"
      using time_Now_clock [OF v] emits_evolves runs_evolves [OF flushStatus_writes] by auto
    show ?thesis
    proof (cases "trigger = reactive")
      case True
      then have r: "r = Ok ()" "rt' = note_recovery now rt1" "w' = ?v'"
        using Suc.prems q Ok v by (auto simp: Let_def)
      have "seams_ok rt \<longrightarrow> read_between w now w'"
        unfolding r read_between_def using one(2) v' evolves_trans by blast
      moreover have "seams_ok rt \<longrightarrow> evolves w w'" unfolding r using one(2) v' evolves_trans by blast
      ultimately show ?thesis using one(1) r True by (auto simp: regen_outcome_def)
    next
      case False
      with one Suc.prems q Ok show ?thesis by (auto simp: regen_outcome_def)
    qed
  next
    case (Panic m)
    with one Suc.prems q show ?thesis by (auto simp: regen_outcome_def)
  next
    case (Err err)
    obtain rt2 w2 where e: "note_regen_error err (rt1, w1) = (rt2, w2)" by (cases "note_regen_error err (rt1, w1)")
    note err = note_regen_error_result [OF e]
    have "evolves w2 (time_Sleep backoff w2)" by (rule emits_evolves [OF time_Sleep_emits])
    with one err have "seams_ok rt \<longrightarrow> evolves w (time_Sleep backoff w2)" by (blast intro: evolves_trans)
    moreover have "regen_rel rt rt2" using one(1) err(1) by (rule regen_rel_trans)
    moreover obtain b where "regen_attempts trigger n b (Some err) (rt2, time_Sleep backoff w2) = (r, rt', w')"
      using Suc.prems q Err e by (auto simp: Let_def)
    ultimately show ?thesis by (blast intro: regen_outcome_later Suc.IH)
  qed
qed

lemma regenerateWithBackoff_outcome:
  "regenerateWithBackoff trigger (rt, w) = (r, rt', w') \<Longrightarrow> regen_outcome trigger rt w r rt' w'"
  unfolding regenerateWithBackoff_def by (rule regen_attempts_outcome)

section \<open>The cooldown\<close>

lemma cooldown_loop_min:
  assumes "0 < c"
  shows "min recoveryCooldownCap (cooldown_loop n c) = min recoveryCooldownCap (c * 2 ^ n)"
  using assms
proof (induction n arbitrary: c)
  case (Suc n)
  show ?case
  proof (cases "c < recoveryCooldownCap")
    case True
    then have "in64 (c * 2)" using Suc.prems by (simp add: in64_def recoveryCooldownCap_def)
    with True Suc.IH [of "c * 2"] Suc.prems show ?thesis by (simp add: algebra_simps)
  next
    case False
    have "c * 1 \<le> c * 2 ^ Suc n" using Suc.prems by (intro mult_left_mono) (simp_all del: power_Suc)
    with False show ?thesis by simp
  qed
qed simp

definition base_cooldown :: "('a refreshConfig_scheme) \<Rightarrow> duration" where
  "base_cooldown rt = (if rt_recoveryCooldown rt \<le> 0 then defaultRecoveryCooldown else rt_recoveryCooldown rt)"

lemma base_cooldown_pos [simp]: "0 < base_cooldown rt"
  by (simp add: base_cooldown_def defaultRecoveryCooldown_def)

lemma effectiveCooldown_min:
  "effectiveCooldownLocked rt = min recoveryCooldownCap (base_cooldown rt * 2 ^ nat (rt_ineffectiveRecoveries rt))"
proof -
  have "effectiveCooldownLocked rt =
      min recoveryCooldownCap (cooldown_loop (nat (rt_ineffectiveRecoveries rt)) (base_cooldown rt))"
    by (simp add: effectiveCooldownLocked_def base_cooldown_def Let_def min_def)
  also have "\<dots> = min recoveryCooldownCap (base_cooldown rt * 2 ^ nat (rt_ineffectiveRecoveries rt))"
    by (rule cooldown_loop_min) simp
  finally show ?thesis .
qed

lemma effectiveCooldown_bounds:
  "min recoveryCooldownCap (base_cooldown rt) \<le> effectiveCooldownLocked rt"
  "0 < effectiveCooldownLocked rt" "effectiveCooldownLocked rt \<le> recoveryCooldownCap"
proof -
  have "base_cooldown rt * 1 \<le> base_cooldown rt * 2 ^ nat (rt_ineffectiveRecoveries rt)"
    by (rule mult_left_mono) (simp_all add: less_imp_le)
  then have le: "base_cooldown rt \<le> base_cooldown rt * 2 ^ nat (rt_ineffectiveRecoveries rt)"
    by (simp only: mult_1_right)
  show "min recoveryCooldownCap (base_cooldown rt) \<le> effectiveCooldownLocked rt"
    unfolding effectiveCooldown_min by (rule min.mono [OF order_refl le])
  show "0 < effectiveCooldownLocked rt"
    unfolding effectiveCooldown_min using order_less_le_trans [OF base_cooldown_pos le]
    by (simp add: recoveryCooldownCap_def)
  show "effectiveCooldownLocked rt \<le> recoveryCooldownCap"
    unfolding effectiveCooldown_min by simp
qed

text \<open>
  C20: The escalating cooldown. Between two reactive recoveries the daemon waits for the base
  cooldown (three minutes if none is configured) doubled once for every recovery in a row that
  did not bring the tunnel back, and never more than thirty minutes; the doubling loop computes
  exactly that, for every number of failed recoveries and every configured duration, without
  overflow.
\<close>

theorem cooldown_doubles_up_to_cap:
  "effectiveCooldownLocked rt =
     min (30 * minute)
       ((if 0 < rt_recoveryCooldown rt then rt_recoveryCooldown rt else 3 * minute) *
        2 ^ nat (rt_ineffectiveRecoveries rt))"
  by (simp add: effectiveCooldown_min base_cooldown_def recoveryCooldownCap_def defaultRecoveryCooldown_def)

section \<open>A health tick\<close>

lemma observe_result:
  assumes "observe state now (rt, w) = (rt', w')"
  shows "\<exists>po al. rt' = (note_sample state now rt)\<lparr>rt_policy := po, rt_alerts := al\<rparr> \<and>
      (hooks_ok (rt_alerts rt) \<longrightarrow> hooks_ok al)"
    and "runs (writes_only {rt_statusPath rt}) w w'"
proof -
  let ?n = "note_sample state now rt"
  have al: "rt_alerts ?n = rt_alerts rt" by (auto simp: note_sample_def Let_def split: option.splits)
  obtain b d k po where h: "policy_healthy now (rt_policy ?n) = ((b, d, k), po)" by (metis prod.exhaust)
  have w': "w' = flushStatus rt' w" using assms by (auto simp: observe_def Let_def split_beta)
  have keep: "n\<lparr>rt_policy := po\<rparr> = n\<lparr>rt_policy := po, rt_alerts := rt_alerts n\<rparr>"
    "n = n\<lparr>rt_policy := rt_policy n, rt_alerts := rt_alerts n\<rparr>" for n :: refreshRuntime and po by simp_all
  have "rt' = (if ts_Healthy state
      then if b then ?n\<lparr>rt_policy := po, rt_alerts := dispatcher_send (recovered_event d k) (rt_alerts ?n)\<rparr>
           else ?n\<lparr>rt_policy := po\<rparr> else ?n)"
    using assms h by (auto simp: observe_def Let_def)
  then show rt': "\<exists>po al. rt' = ?n\<lparr>rt_policy := po, rt_alerts := al\<rparr> \<and> (hooks_ok (rt_alerts rt) \<longrightarrow> hooks_ok al)"
    using keep [where n = ?n] hooks_ok_send [of "rt_alerts ?n"] unfolding al [symmetric] by metis
  have "rt_statusPath ?n = rt_statusPath rt" by (auto simp: note_sample_def Let_def split: option.splits)
  with rt' have "rt_statusPath rt' = rt_statusPath rt" by auto
  with flushStatus_writes [of rt' w] w' show "runs (writes_only {rt_statusPath rt}) w w'" by simp
qed

lemma note_sample_unhealthy:
  assumes "\<not> ts_Healthy state"
  obtains since he where "note_sample state now rt =
    rt\<lparr>rt_controlStatus := ts_Status state, rt_publicIPKnown := ts_PublicIPKnown state,
       rt_publicIPPresent := ts_PublicIPPresent state, rt_lastHealthCheckUTC := now, rt_tunnelHealthy := False,
       rt_consecutiveUnhealth := rt_consecutiveUnhealth rt + 1, rt_unhealthySinceUTC := since, rt_healthError := he\<rparr>"
    and "since = (if rt_unhealthySinceUTC rt = 0 then now else rt_unhealthySinceUTC rt)"
    and "he = (case ts_Err state of Some e \<Rightarrow> rt_redact rt (emsg e) | None \<Rightarrow> rt_healthError rt)"
  by (rule that, cases "ts_Err state") (use assms in \<open>auto simp: note_sample_def Let_def time_IsZero_def rt_redact_def rt_secrets_def\<close>)

text \<open>The requests of the tunnel check: GET requests to the control server, without credentials.\<close>

fun control_get :: "string \<Rightarrow> effect \<Rightarrow> bool" where
  "control_get base (EvHttp client req) =
     (hc_transport client = DefaultTransport \<and> hq_method req = ''GET'' \<and> hq_auth req = None \<and>
      prefix base (hq_url req))"
| "control_get base _ = False"

definition control_base :: "('a refreshConfig_scheme) \<Rightarrow> string" where
  "control_base rt = trim_right ''/'' (TrimSpace (rt_controlURL rt))"

lemma getJSON_runs:
  "hc_transport client = DefaultTransport \<Longrightarrow> runs (control_get base) w (snd (getJSON dec client (base @ path) w))"
  unfolding getJSON_def
  by (intro runs_io_try) (auto simp: http_NewRequest_Ok intro!: emits_runs [OF http_Do_emits])

lemma judge_status_runs:
  assumes "hc_transport client = DefaultTransport"
  shows "runs (control_get base) w (snd (judge_status client base status w))"
proof -
  have "runs (control_get base) w (snd (fetchGluetunPublicIP client (base @ ''/v1/publicip/ip'') w))"
    unfolding fetchGluetunPublicIP_def by (rule runs_io_try [OF getJSON_runs [OF assms]]) simp
  then show ?thesis by (auto simp: judge_status_def Let_def split: res.splits prod.splits)
qed

lemma try_status_paths_runs:
  assumes "hc_transport client = DefaultTransport"
  shows "runs (control_get base) w (snd (try_status_paths client base paths w))"
proof (induction paths arbitrary: w)
  case (Cons path paths)
  obtain r v where f: "fetchGluetunStatus client (base @ path) w = (r, v)" by force
  have "runs (control_get base) w (snd (fetchGluetunStatus client (base @ path) w))"
    unfolding fetchGluetunStatus_def by (rule runs_io_try [OF getJSON_runs [OF assms]]) (simp add: Let_def)
  with f have "runs (control_get base) w v" by simp
  with f Cons.IH [of v] judge_status_runs [OF assms, of base v] show ?case
    by (cases r) (auto intro: runs_trans)
qed simp

lemma CheckTunnel_runs:
  "runs (control_get (control_base rt)) w
     (snd (CheckTunnelViaControlServer (rt_controlURL rt) timeout w))"
  by (simp add: CheckTunnelViaControlServer_def control_base_def Let_def try_status_paths_runs)

definition tick_effect :: "('a refreshConfig_scheme) \<Rightarrow> effect \<Rightarrow> bool" where
  "tick_effect rt e \<longleftrightarrow> control_get (control_base rt) e \<or> writes_only {rt_statusPath rt} e"

text \<open>A tick in stages: the sample, and then nothing or a recovery.\<close>

definition sampled :: "refreshRuntime \<Rightarrow> world \<Rightarrow> TunnelState \<Rightarrow> time \<Rightarrow> refreshRuntime \<Rightarrow> world \<Rightarrow> bool" where
  "sampled rt w state now rt1 w1 \<longleftrightarrow>
     (\<exists>v v1. CheckTunnelViaControlServer (rt_controlURL rt) (rt_controlTimeout rt) w = (state, v) \<and>
        time_Now v = (now, v1) \<and> observe state now (rt, v1) = (rt1, w1))"

lemma sampled_runs:
  assumes "sampled rt w state now rt1 w1"
  shows "runs (tick_effect rt) w w1" and "read_between w now w1"
proof -
  obtain v v1 where c: "CheckTunnelViaControlServer (rt_controlURL rt) (rt_controlTimeout rt) w = (state, v)"
    and n: "time_Now v = (now, v1)" and o: "observe state now (rt, v1) = (rt1, w1)"
    using assms by (auto simp: sampled_def)
  have "runs (control_get (control_base rt)) w v"
    using CheckTunnel_runs [of rt w "rt_controlTimeout rt"] c by simp
  then have v: "runs (tick_effect rt) w v" by (rule runs_mono) (simp add: tick_effect_def)
  have w1: "runs (tick_effect rt) v1 w1"
    by (rule runs_mono [OF observe_result(2) [OF o]]) (simp add: tick_effect_def)
  have "runs (tick_effect rt) v v1" using time_Now_clock [OF n] by (blast intro: quiet_runs)
  with v w1 show "runs (tick_effect rt) w w1" by (blast intro: runs_trans)
  show "read_between w now w1"
    unfolding read_between_def using time_Now_clock [OF n] v w1
    by (blast intro: evolves_trans runs_evolves emits_evolves)
qed

lemma in_cooldown_result:
  assumes "in_cooldown rt w = (b, w')"
  shows "quiet w w'" and "b \<longleftrightarrow> rt_lastRecoveryUTC rt \<noteq> 0 \<and>
    w_clock w' - rt_lastRecoveryUTC rt < effectiveCooldownLocked rt"
proof -
  have "in64 (effectiveCooldownLocked rt)" "- (2 ^ 63) < effectiveCooldownLocked rt"
    using effectiveCooldown_bounds [of rt] by (auto simp: in64_def recoveryCooldownCap_def)
  note sat = sat64_less_iff [OF this]
  show "quiet w w'" and "b \<longleftrightarrow> rt_lastRecoveryUTC rt \<noteq> 0 \<and>
    w_clock w' - rt_lastRecoveryUTC rt < effectiveCooldownLocked rt"
    using assms time_Now_quiet [of w]
    by (auto simp: in_cooldown_def time_Now_def time_ops sat split: if_splits)
qed

definition threshold_of :: "('a refreshConfig_scheme) \<Rightarrow> int" where
  "threshold_of rt = max 1 (rt_unhealthyThreshold rt)"

lemma onHealthTick_stages:
  assumes "onHealthTick (rt, w) = (r, rt', w')"
  obtains
    (idle) state now w1 where "sampled rt w state now rt' w1" "r = Ok ()" "quiet w1 w'"
      "ts_Healthy state \<or> rt_consecutiveUnhealth rt' < threshold_of rt' \<or>
       rt_lastRecoveryUTC rt' \<noteq> 0 \<and> w_clock w' - rt_lastRecoveryUTC rt' < effectiveCooldownLocked rt'"
  | (recovery) state now rt1 w1 w2 q where "sampled rt w state now rt1 w1" "\<not> ts_Healthy state"
      "threshold_of rt1 \<le> rt_consecutiveUnhealth rt1" "quiet w1 w2"
      "rt_lastRecoveryUTC rt1 = 0 \<or> effectiveCooldownLocked rt1 \<le> w_clock w2 - rt_lastRecoveryUTC rt1"
      "regenerateWithBackoff reactive (accountForPreviousRecovery now rt1,
         recordLossIfMeasurable (accountForPreviousRecovery now rt1) w2) = (q, rt', w')"
      "r = (case q of Panic m \<Rightarrow> Panic m | _ \<Rightarrow> Ok ())"
proof -
  obtain state v where c: "CheckTunnelViaControlServer (rt_controlURL rt) (rt_controlTimeout rt) w = (state, v)"
    by (cases "CheckTunnelViaControlServer (rt_controlURL rt) (rt_controlTimeout rt) w")
  obtain now v1 where n: "time_Now v = (now, v1)" by (cases "time_Now v")
  obtain rt1 w1 where o: "observe state now (rt, v1) = (rt1, w1)" by (cases "observe state now (rt, v1)")
  obtain b w2 where i: "in_cooldown rt1 w1 = (b, w2)" by (cases "in_cooldown rt1 w1")
  note cd = in_cooldown_result [OF i]
  have s: "sampled rt w state now rt1 w1" using c n o by (auto simp: sampled_def)
  have thr: "(if rt_unhealthyThreshold rt1 < 1 then 1 else rt_unhealthyThreshold rt1) = threshold_of rt1"
    by (simp add: threshold_of_def)
  obtain q rt3 w3 where q: "regenerateWithBackoff reactive (accountForPreviousRecovery now rt1,
      recordLossIfMeasurable (accountForPreviousRecovery now rt1) w2) = (q, rt3, w3)"
    by (cases "regenerateWithBackoff reactive (accountForPreviousRecovery now rt1,
      recordLossIfMeasurable (accountForPreviousRecovery now rt1) w2)")
  have run: "(r, rt', w') = (if ts_Healthy state then (Ok (), rt1, w1)
     else if rt_consecutiveUnhealth rt1 < threshold_of rt1 then (Ok (), rt1, w2)
     else if b then (Ok (), rt1, w2)
     else case q of Panic m \<Rightarrow> (Panic m, rt3, w3) | _ \<Rightarrow> (Ok (), rt3, w3))"
    using assms unfolding onHealthTick_def
    by (cases q) (simp_all add: c n o i q thr Let_def split: if_splits)
  show thesis
  proof (cases "ts_Healthy state \<or> rt_consecutiveUnhealth rt1 < threshold_of rt1 \<or> b")
    case True
    with run cd(1) have "r = Ok ()" "rt' = rt1" "quiet w1 w'" by (auto split: if_splits)
    moreover have "w' = w2" if "\<not> ts_Healthy state" "\<not> rt_consecutiveUnhealth rt1 < threshold_of rt1"
      using that run True by (auto split: if_splits)
    ultimately show thesis using idle [of state now w1] s True cd(2) by auto
  next
    case False
    with run q have "regenerateWithBackoff reactive (accountForPreviousRecovery now rt1,
         recordLossIfMeasurable (accountForPreviousRecovery now rt1) w2) = (q, rt', w')"
      "r = (case q of Panic m \<Rightarrow> Panic m | _ \<Rightarrow> Ok ())" by (cases q; simp)+
    with recovery [OF s] False cd show thesis by (auto simp: not_less)
  qed
qed

lemma note_sample_keeps:
  "rt_recoveryCount (note_sample st now rt) = rt_recoveryCount rt"
  "rt_lastRecoveryUTC (note_sample st now rt) = rt_lastRecoveryUTC rt"
  "rt_unhealthyThreshold (note_sample st now rt) = rt_unhealthyThreshold rt"
  "rt_recoveryCooldown (note_sample st now rt) = rt_recoveryCooldown rt"
  "rt_statusPath (note_sample st now rt) = rt_statusPath rt"
  "rt_lifetime (note_sample st now rt) = rt_lifetime rt"
  "rt_generateFn (note_sample st now rt) = rt_generateFn rt"
  "rt_restartFn (note_sample st now rt) = rt_restartFn rt"
  "rt_username (note_sample st now rt) = rt_username rt"
  "rt_password (note_sample st now rt) = rt_password rt"
  "rt_regenError (note_sample st now rt) = rt_regenError rt"
  by (simp_all add: note_sample_def Let_def rt_secrets_def split: option.split)

lemma sampled_state:
  assumes "sampled rt w state now rt1 w1"
  shows "state = fst (CheckTunnelViaControlServer (rt_controlURL rt) (rt_controlTimeout rt) w)"
    and "\<exists>po al. rt1 = (note_sample state now rt)\<lparr>rt_policy := po, rt_alerts := al\<rparr> \<and>
      (hooks_ok (rt_alerts rt) \<longrightarrow> hooks_ok al)"
  using assms observe_result(1) by (auto simp: sampled_def)

lemma effectiveCooldown_cong:
  "rt_recoveryCooldown rt' = rt_recoveryCooldown rt \<Longrightarrow> rt_ineffectiveRecoveries rt' = rt_ineffectiveRecoveries rt \<Longrightarrow>
     effectiveCooldownLocked rt' = effectiveCooldownLocked rt"
  by (simp add: effectiveCooldownLocked_def)

lemma sampled_keeps:
  assumes "sampled rt w state now rt1 w1"
  shows "rt_recoveryCount rt1 = rt_recoveryCount rt" "rt_lastRecoveryUTC rt1 = rt_lastRecoveryUTC rt"
    "threshold_of rt1 = threshold_of rt" "base_cooldown rt1 = base_cooldown rt"
    "rt_lifetime rt1 = rt_lifetime rt" "seams_ok rt1 = seams_ok rt" "rt_statusPath rt1 = rt_statusPath rt"
    "rt_secrets rt1 = rt_secrets rt" "rt_regenError rt1 = rt_regenError rt"
  using sampled_state(2) [OF assms]
  by (auto simp: note_sample_keeps threshold_of_def base_cooldown_def seams_ok_def rt_secrets_def)

lemma sampled_unhealthy:
  assumes "sampled rt w state now rt1 w1" and "\<not> ts_Healthy state"
  shows "rt_consecutiveUnhealth rt1 = rt_consecutiveUnhealth rt + 1"
    "effectiveCooldownLocked rt1 = effectiveCooldownLocked rt"
    "rt_ineffectiveRecoveries rt1 = rt_ineffectiveRecoveries rt"
proof -
  obtain po al where rt1: "rt1 = (note_sample state now rt)\<lparr>rt_policy := po, rt_alerts := al\<rparr>"
    using sampled_state(2) [OF assms(1)] by blast
  from assms(2) obtain since he where n: "note_sample state now rt =
    rt\<lparr>rt_controlStatus := ts_Status state, rt_publicIPKnown := ts_PublicIPKnown state,
       rt_publicIPPresent := ts_PublicIPPresent state, rt_lastHealthCheckUTC := now, rt_tunnelHealthy := False,
       rt_consecutiveUnhealth := rt_consecutiveUnhealth rt + 1, rt_unhealthySinceUTC := since, rt_healthError := he\<rparr>"
    by (rule note_sample_unhealthy)
  show "rt_consecutiveUnhealth rt1 = rt_consecutiveUnhealth rt + 1"
    "rt_ineffectiveRecoveries rt1 = rt_ineffectiveRecoveries rt"
    by (simp_all add: rt1 n)
  show "effectiveCooldownLocked rt1 = effectiveCooldownLocked rt"
    by (rule effectiveCooldown_cong) (simp_all add: rt1 n)
qed

lemma accountForPreviousRecovery_updates:
  "\<exists>n po al. accountForPreviousRecovery now rt = rt\<lparr>rt_ineffectiveRecoveries := n, rt_policy := po, rt_alerts := al\<rparr> \<and>
     (hooks_ok (rt_alerts rt) \<longrightarrow> hooks_ok al) \<and>
     n = (if rt_recoveryCount rt > 0 \<and> \<not> rt_healthySinceRecovery rt then rt_ineffectiveRecoveries rt + 1
          else rt_ineffectiveRecoveries rt)"
proof (cases "rt_recoveryCount rt > 0 \<and> \<not> rt_healthySinceRecovery rt")
  case True
  with noteFailedAttempt_updates [of now ineffective_cause "rt\<lparr>rt_ineffectiveRecoveries := rt_ineffectiveRecoveries rt + 1\<rparr>"]
  show ?thesis by (auto simp: accountForPreviousRecovery_def)
next
  case False
  then show ?thesis
    by (intro exI [of _ "rt_ineffectiveRecoveries rt"] exI [of _ "rt_policy rt"] exI [of _ "rt_alerts rt"])
      (auto simp: accountForPreviousRecovery_def)
qed

lemma account_keeps:
  fixes now rt
  defines "rt' \<equiv> accountForPreviousRecovery now rt"
  shows "rt_recoveryCount rt' = rt_recoveryCount rt" "rt_lastRecoveryUTC rt' = rt_lastRecoveryUTC rt"
    "base_cooldown rt' = base_cooldown rt" "rt_secrets rt' = rt_secrets rt"
    "rt_regenError rt' = rt_regenError rt" "rt_healthError rt' = rt_healthError rt"
    "rt_tunnelHealthy rt' = rt_tunnelHealthy rt" "rt_consecutiveUnhealth rt' = rt_consecutiveUnhealth rt"
    "rt_unhealthySinceUTC rt' = rt_unhealthySinceUTC rt" "rt_lastHealthyUTC rt' = rt_lastHealthyUTC rt"
    "rt_lastHealthCheckUTC rt' = rt_lastHealthCheckUTC rt" "rt_confirmedHealthy rt' = rt_confirmedHealthy rt"
    "rt_healthySinceRecovery rt' = rt_healthySinceRecovery rt"
    "rt_ineffectiveRecoveries rt' = rt_ineffectiveRecoveries rt +
       (if rt_recoveryCount rt > 0 \<and> \<not> rt_healthySinceRecovery rt then 1 else 0)"
proof -
  obtain n po al where "rt' = rt\<lparr>rt_ineffectiveRecoveries := n, rt_policy := po, rt_alerts := al\<rparr>"
    and "n = (if rt_recoveryCount rt > 0 \<and> \<not> rt_healthySinceRecovery rt then rt_ineffectiveRecoveries rt + 1
          else rt_ineffectiveRecoveries rt)"
    unfolding rt'_def using accountForPreviousRecovery_updates by blast
  then show "rt_recoveryCount rt' = rt_recoveryCount rt" "rt_lastRecoveryUTC rt' = rt_lastRecoveryUTC rt"
    "base_cooldown rt' = base_cooldown rt" "rt_secrets rt' = rt_secrets rt"
    "rt_regenError rt' = rt_regenError rt" "rt_healthError rt' = rt_healthError rt"
    "rt_tunnelHealthy rt' = rt_tunnelHealthy rt" "rt_consecutiveUnhealth rt' = rt_consecutiveUnhealth rt"
    "rt_unhealthySinceUTC rt' = rt_unhealthySinceUTC rt" "rt_lastHealthyUTC rt' = rt_lastHealthyUTC rt"
    "rt_lastHealthCheckUTC rt' = rt_lastHealthCheckUTC rt" "rt_confirmedHealthy rt' = rt_confirmedHealthy rt"
    "rt_healthySinceRecovery rt' = rt_healthySinceRecovery rt"
    "rt_ineffectiveRecoveries rt' = rt_ineffectiveRecoveries rt +
       (if rt_recoveryCount rt > 0 \<and> \<not> rt_healthySinceRecovery rt then 1 else 0)"
    by (simp_all add: base_cooldown_def rt_secrets_def)
qed

lemma recordLoss_writes [frame]:
  "runs (writes_only {ls_path (rt_lifetime rt)}) w (recordLossIfMeasurable rt w)"
  by (simp add: recordLossIfMeasurable_def frame)

text \<open>A successful recovery is counted and dated; a failed one leaves no mark.\<close>

definition counted :: "refreshRuntime \<Rightarrow> world \<Rightarrow> unit res \<Rightarrow> refreshRuntime \<Rightarrow> world \<Rightarrow> bool" where
  "counted rt w q rt' w' \<longleftrightarrow>
     (if is_Ok q
      then rt_recoveryCount rt' = rt_recoveryCount rt + 1 \<and>
           w_clock w \<le> rt_lastRecoveryUTC rt' \<and> rt_lastRecoveryUTC rt' \<le> w_clock w'
      else rt_recoveryCount rt' = rt_recoveryCount rt \<and> rt_lastRecoveryUTC rt' = rt_lastRecoveryUTC rt)"

lemma recovery_counted:
  assumes "regen_outcome reactive rt w q rt' w'" and "seams_ok rt" and "forward_clock w"
  shows "counted rt w q rt' w'"
proof (cases "is_Ok q")
  case True
  then obtain rt1 now where l: "life rt1 = life rt" and "rt' = note_recovery now rt1" "read_between w now w'"
    using assms unfolding regen_outcome_def regen_rel_def by auto
  with True read_between_clock [OF this(3) assms(3)] life_eqD(9) [OF l] show ?thesis
    by (simp add: counted_def note_recovery_def)
next
  case False
  then have "life rt' = life rt" using assms(1) by (simp add: regen_outcome_def regen_rel_def)
  from False life_eqD(6,9) [OF this] show ?thesis by (simp add: counted_def)
qed

text \<open>A recovery starts from the sampled state and no earlier than it was allowed.\<close>

lemma recovery_start:
  assumes "sampled rt w state now rt1 w1" and "quiet w1 w2"
  defines "rt2 \<equiv> accountForPreviousRecovery now rt1"
  shows "runs (\<lambda>e. tick_effect rt e \<or> writes_only {ls_path (rt_lifetime rt)} e) w (recordLossIfMeasurable rt2 w2)"
    and "seams_ok rt2 = seams_ok rt"
    and "rt_recoveryCount rt2 = rt_recoveryCount rt" and "rt_lastRecoveryUTC rt2 = rt_lastRecoveryUTC rt"
proof -
  obtain n po al where rt2: "rt2 = rt1\<lparr>rt_ineffectiveRecoveries := n, rt_policy := po, rt_alerts := al\<rparr>"
    unfolding rt2_def using accountForPreviousRecovery_updates by blast
  let ?P = "\<lambda>e. tick_effect rt e \<or> writes_only {ls_path (rt_lifetime rt)} e"
  have "runs ?P w w1" by (rule runs_mono [OF sampled_runs(1) [OF assms(1)]]) simp
  moreover have "runs ?P w1 w2" by (rule quiet_runs [OF assms(2)])
  moreover have "runs ?P w2 (recordLossIfMeasurable rt2 w2)"
    by (rule runs_mono [OF recordLoss_writes]) (simp add: rt2 sampled_keeps [OF assms(1)])
  ultimately show "runs ?P w (recordLossIfMeasurable rt2 w2)" by (blast intro: runs_trans)
  show "seams_ok rt2 = seams_ok rt" using sampled_keeps(6) [OF assms(1)] by (simp add: rt2 seams_ok_def)
  show "rt_recoveryCount rt2 = rt_recoveryCount rt" and "rt_lastRecoveryUTC rt2 = rt_lastRecoveryUTC rt"
    by (simp_all add: rt2 sampled_keeps(1,2) [OF assms(1)])
qed

text \<open>
  C1: When a lost tunnel is recovered. A health tick that finds the tunnel healthy, or that has
  not yet seen the configured number of bad samples in a row, or that comes before the cooldown
  of the last recovery is over, registers nothing, restarts nothing and runs no hook: all it does
  is ask the control server (GET requests without credentials) and replace the status file, and
  no recovery is counted. A tick that finds the tunnel unhealthy often enough and out of cooldown
  does run a recovery, after nothing but the sample, the status and the lifetime record; if it
  succeeds it is counted and dated, which starts the next cooldown, and if all its attempts fail
  there is no mark of it and no cooldown.
\<close>

theorem health_tick_decides:
  assumes tick: "onHealthTick (rt, w) = (r, rt', w')" and clock: "forward_clock w" and seams: "seams_ok rt"
  defines "healthy \<equiv> ts_Healthy (fst (CheckTunnelViaControlServer (rt_controlURL rt) (rt_controlTimeout rt) w))"
  shows "(healthy \<or> rt_consecutiveUnhealth rt + 1 < max 1 (rt_unhealthyThreshold rt) \<or>
      rt_lastRecoveryUTC rt \<noteq> 0 \<and> w_clock w' < rt_lastRecoveryUTC rt + effectiveCooldownLocked rt \<longrightarrow>
        r = Ok () \<and> runs (tick_effect rt) w w' \<and> rt_recoveryCount rt' = rt_recoveryCount rt) \<and>
    (\<not> healthy \<and> max 1 (rt_unhealthyThreshold rt) \<le> rt_consecutiveUnhealth rt + 1 \<and>
      (rt_lastRecoveryUTC rt = 0 \<or> rt_lastRecoveryUTC rt + effectiveCooldownLocked rt \<le> w_clock w) \<longrightarrow>
        (\<exists>rt1 w1 q. regenerateWithBackoff reactive (rt1, w1) = (q, rt', w') \<and>
           runs (\<lambda>e. tick_effect rt e \<or> writes_only {ls_path (rt_lifetime rt)} e) w w1 \<and>
           counted rt w q rt' w'))"
  using tick
proof (cases rule: onHealthTick_stages)
  case (idle state now w1)
  note keeps = sampled_keeps [OF idle(1)]
  have h: "healthy = ts_Healthy state" using sampled_state(1) [OF idle(1)] by (simp add: healthy_def)
  have "runs (tick_effect rt) w w'"
    using sampled_runs(1) [OF idle(1)] quiet_runs [OF idle(3)] by (rule runs_trans)
  moreover have "w_clock w \<le> w_clock w'"
    using evolves_clock [OF runs_evolves [OF \<open>runs (tick_effect rt) w w'\<close>]] clock by (simp add: clock_ahead_def)
  moreover have "rt_consecutiveUnhealth rt + 1 < max 1 (rt_unhealthyThreshold rt) \<or>
      rt_lastRecoveryUTC rt \<noteq> 0 \<and> w_clock w' < rt_lastRecoveryUTC rt + effectiveCooldownLocked rt" if "\<not> healthy"
    using idle(4) that sampled_unhealthy [OF idle(1)] keeps by (auto simp: h threshold_of_def)
  ultimately show ?thesis using idle(2) keeps(1) by fastforce
next
  case (recovery state now rt1 w1 w2 q)
  note keeps = sampled_keeps [OF recovery(1)] sampled_unhealthy [OF recovery(1,2)]
  have h: "\<not> healthy" using sampled_state(1) [OF recovery(1)] recovery(2) by (simp add: healthy_def)
  let ?rt2 = "accountForPreviousRecovery now rt1" and ?P = "\<lambda>e. tick_effect rt e \<or> writes_only {ls_path (rt_lifetime rt)} e"
  let ?w3 = "recordLossIfMeasurable ?rt2 w2"
  note start = recovery_start [OF recovery(1,4)] and out = regenerateWithBackoff_outcome [OF recovery(6)]
  have "evolves w w2"
    using runs_evolves [OF sampled_runs(1) [OF recovery(1)]] emits_evolves [OF recovery(4)] by (rule evolves_trans)
  note 2 = evolves_clock [OF this] evolves_clock [OF runs_evolves [OF recordLoss_writes [of ?rt2 w2]]]
  have "evolves ?w3 w'" using out start(2) seams by (simp add: regen_outcome_def)
  note 3 = evolves_clock [OF this]
  have "counted ?rt2 ?w3 q rt' w'"
    using out start(2) seams clock 2 by (intro recovery_counted) (auto simp: clock_ahead_def)
  then have "counted rt w q rt' w'"
    using start(3,4) clock 2 by (auto simp: counted_def clock_ahead_def split: if_splits)
  moreover have "w_clock w2 \<le> w_clock w'" using 2 3 clock by (auto simp: clock_ahead_def)
  with recovery(3,5) keeps have "max 1 (rt_unhealthyThreshold rt) \<le> rt_consecutiveUnhealth rt + 1 \<and>
      (rt_lastRecoveryUTC rt = 0 \<or> rt_lastRecoveryUTC rt + effectiveCooldownLocked rt \<le> w_clock w')"
    by (auto simp: threshold_of_def)
  ultimately show ?thesis using h start(1) recovery(6) by auto
qed

theorem health_tick_decides_witness:
  "case onHealthTick (sample_rt, offline_world) of (r, rt', w') \<Rightarrow>
     r = Ok () \<and> runs (tick_effect sample_rt) offline_world w' \<and> rt_recoveryCount rt' = 0"
proof -
  obtain r rt' w' where t: "onHealthTick (sample_rt, offline_world) = (r, rt', w')"
    by (cases "onHealthTick (sample_rt, offline_world)")
  have rt: "seams_ok sample_rt" "rt_consecutiveUnhealth sample_rt = 0" "rt_unhealthyThreshold sample_rt = 2"
    "rt_recoveryCount sample_rt = 0"
    by (simp_all add: sample_rt_def new_refreshRuntime_def sample_cli_def seams_ok_def Let_def)
  from health_tick_decides [OF t forward_offline(1) rt(1)] show ?thesis by (simp add: t rt)
qed

section \<open>Keeping a registration\<close>

lemma readPreviousRegion_quiet [frame]: "quiet w (snd (readPreviousRegion path w))"
  using ReadFile_quiet [of w path]
  by (auto simp: readPreviousRegion_def split: prod.splits res.splits option.splits)

definition adopted :: "refreshRuntime \<Rightarrow> time \<Rightarrow> refreshRuntime" where
  "adopted rt birth = rt\<lparr>rt_lastGenerateUTC := birth, rt_confirmedHealthy := True, rt_healthySinceRecovery := True\<rparr>"

lemma tryAdopt_cases:
  assumes "tryAdopt (rt, w) = (b, rt', w')"
  obtains
    (refused) "\<not> b" "rt' = rt" "runs (control_get (control_base rt)) w w'"
  | (kept) cfg v1 rec v2 v3 now v4 state v5 v6 where
      "b" "ParseEndpointFromConfig (rt_configPath rt) w = (Ok cfg, v1)" "cfg \<noteq> []"
      "Load (rt_lifetime rt) v1 = (Ok rec, v2)" "lr_CurrentRegistrationUTC rec \<noteq> 0"
      "readPreviousRegion (rt_statusPath rt) v2 = (Some (rt_region rt), v3)" "time_Now v3 = (now, v4)"
      "time_Sub now (lr_CurrentRegistrationUTC rec) <
         wrap64 (SafeRefreshInterval rec (rt_fallbackInterval rt) (rt_maxRegistrationAge rt) - rt_healthInterval rt)"
      "CheckTunnelViaControlServer (rt_controlURL rt) (rt_controlTimeout rt) v4 = (state, v5)"
      "ts_Healthy state" "quiet v5 v6"
      "observe state (w_clock v6) (adopted rt (lr_CurrentRegistrationUTC rec), v6) = (rt', w')"
      "quiet w v4" "runs (control_get (control_base rt)) w v6"
proof -
  let ?C = "control_get (control_base rt)"
  obtain r1 v1 where 1: "ParseEndpointFromConfig (rt_configPath rt) w = (r1, v1)"
    by (cases "ParseEndpointFromConfig (rt_configPath rt) w")
  obtain r2 v2 where 2: "Load (rt_lifetime rt) v1 = (r2, v2)" by (cases "Load (rt_lifetime rt) v1")
  obtain prev v3 where 3: "readPreviousRegion (rt_statusPath rt) v2 = (prev, v3)"
    by (cases "readPreviousRegion (rt_statusPath rt) v2")
  obtain now v4 where 4: "time_Now v3 = (now, v4)" by (cases "time_Now v3")
  obtain state v5 where 5: "CheckTunnelViaControlServer (rt_controlURL rt) (rt_controlTimeout rt) v4 = (state, v5)"
    by (cases "CheckTunnelViaControlServer (rt_controlURL rt) (rt_controlTimeout rt) v4")
  obtain now' v6 where 6: "time_Now v5 = (now', v6)" by (cases "time_Now v5")
  have q1: "quiet w v1" using ParseEndpoint_quiet [of w "rt_configPath rt"] 1 by simp
  have q2: "quiet w v2" using quiet_trans [OF q1] Load_quiet [of v1 "rt_lifetime rt"] 2 by simp
  have q3: "quiet w v3" using quiet_trans [OF q2] readPreviousRegion_quiet [of v2 "rt_statusPath rt"] 3 by simp
  have q4: "quiet w v4" using quiet_trans [OF q3] time_Now_clock [OF 4] by blast
  have c5: "runs ?C w v5"
    using runs_trans [OF quiet_runs [OF q4]] CheckTunnel_runs [of rt v4 "rt_controlTimeout rt"] 5 by simp
  have c6: "runs ?C w v6" using runs_trans [OF c5 quiet_runs] time_Now_clock [OF 6] by blast
  note stages = tryAdopt_def Let_def 1 2 3 4 5 6
  show thesis
  proof (cases "\<exists>cfg rec. r1 = Ok cfg \<and> cfg \<noteq> [] \<and> r2 = Ok rec \<and> lr_CurrentRegistrationUTC rec \<noteq> 0 \<and>
      prev = Some (rt_region rt) \<and> \<not> time_Sub now (lr_CurrentRegistrationUTC rec) \<ge>
         wrap64 (SafeRefreshInterval rec (rt_fallbackInterval rt) (rt_maxRegistrationAge rt) - rt_healthInterval rt) \<and>
      ts_Healthy state")
    case True
    then obtain cfg rec where t: "r1 = Ok cfg" "cfg \<noteq> []" "r2 = Ok rec" "lr_CurrentRegistrationUTC rec \<noteq> 0"
      "prev = Some (rt_region rt)" "\<not> time_Sub now (lr_CurrentRegistrationUTC rec) \<ge>
         wrap64 (SafeRefreshInterval rec (rt_fallbackInterval rt) (rt_maxRegistrationAge rt) - rt_healthInterval rt)"
      "ts_Healthy state" by blast
    have "(b, rt', w') = (case observe state now' (adopted rt (lr_CurrentRegistrationUTC rec), v6) of (rt, w) \<Rightarrow> (True, rt, w))"
      using assms t by (simp add: stages time_IsZero_def adopted_def)
    then have "b" "observe state now' (adopted rt (lr_CurrentRegistrationUTC rec), v6) = (rt', w')"
      by (simp_all split: prod.splits)
    then show thesis
      using kept [of cfg v1 rec v2 v3 now v4 state v5 v6] 1 2 3 4 5 t q4 c6 time_Now_clock [OF 6]
      by (simp add: not_le)
  next
    case False
    have "\<not> b \<and> rt' = rt \<and> w' \<in> {v1, v2, v3, v4, v5}"
      using assms False
      by (cases r1; cases r2) (auto simp: stages time_IsZero_def split: if_splits prod.splits)
    moreover have "runs ?C w v" if "v \<in> {v1, v2, v3, v4, v5}" for v
      using that q1 q2 q3 q4 c5 by (auto intro: quiet_runs)
    ultimately show thesis using refused by blast
  qed
qed

lemma adopted_healthy:
  "ts_Healthy state \<Longrightarrow> note_sample state now (adopted rt birth) = note_sample state now (rt\<lparr>rt_lastGenerateUTC := birth\<rparr>)"
  by (simp add: note_sample_def adopted_def Let_def)

lemma observe_adopted:
  "ts_Healthy state \<Longrightarrow> observe state now (adopted rt birth, w) = observe state now (rt\<lparr>rt_lastGenerateUTC := birth\<rparr>, w)"
  by (simp add: observe_def adopted_healthy)

lemma observe_healthy:
  assumes "observe state now (rt, w) = (rt', w')" and "ts_Healthy state"
  shows "rt_tunnelHealthy rt'" "rt_lastGenerateUTC rt' = rt_lastGenerateUTC rt" "rt_lastHealthyUTC rt' = now"
  using observe_result(1) [OF assms(1)] assms(2) by (auto simp: note_sample_def Let_def)

lemma ParseEndpoint_file:
  "ParseEndpointFromConfig path w = (Ok cfg, w') \<Longrightarrow>
     \<exists>f. w_files w path = Some f \<and> cfg = (case f_content f of Text s \<Rightarrow> find_endpoint (split_on (CHR 0x0A) s) | Doc _ \<Rightarrow> [])"
  by (auto simp: ParseEndpointFromConfig_def ReadFile_eq split: option.splits)

lemma Load_file:
  assumes "Load s w = (Ok rec, w')" and "lr_CurrentRegistrationUTC rec \<noteq> 0"
  shows "\<exists>f. w_files w (ls_path s) = Some f \<and> rec = record_of (f_content f) w"
proof -
  have "fst (Load s w) = Ok rec" using assms(1) by simp
  then show ?thesis
    using assms(2) by (auto simp: Load_result fresh_LifetimeRecord_def zero_LifetimeRecord_def split: option.splits)
qed

lemma record_of_static: "static w' = static w \<Longrightarrow> record_of c w' = record_of c w"
  by (simp add: record_of_def json_of_def static_def split: content.splits)

text \<open>
  C14: Keeping a registration across a restart of the daemon. Whatever the outcome, the check only
  reads files, asks the control server and replaces the status file: nothing is registered and
  the container is not restarted. It keeps the registration only when a configuration with an
  endpoint is on disk, the lifetime record knows when the registration was made, that is less
  than the safe refresh interval minus one health interval ago, and the tunnel is healthy now;
  the status then shows the time of the registration as the time of the last configuration.
\<close>

theorem adoption_is_safe:
  assumes adopt: "tryAdopt (rt, w) = (b, rt', w')" and clock: "forward_clock w"
  shows "runs (tick_effect rt) w w' \<and> (\<not> b \<longrightarrow> rt' = rt) \<and>
    (b \<longrightarrow> rt_tunnelHealthy rt' \<and>
      (\<exists>f s. w_files w (rt_configPath rt) = Some f \<and> f_content f = Text s \<and>
         find_endpoint (split_on (CHR 0x0A) s) \<noteq> []) \<and>
      (\<exists>f rec. w_files w (ls_path (rt_lifetime rt)) = Some f \<and> rec = record_of (f_content f) w \<and>
         lr_CurrentRegistrationUTC rec \<noteq> 0 \<and> rt_lastGenerateUTC rt' = lr_CurrentRegistrationUTC rec \<and>
         w_clock w - lr_CurrentRegistrationUTC rec <
           wrap64 (SafeRefreshInterval rec (rt_fallbackInterval rt) (rt_maxRegistrationAge rt) - rt_healthInterval rt)))"
  using adopt
proof (cases rule: tryAdopt_cases)
  case refused
  then show ?thesis by (auto simp: tick_effect_def intro: runs_mono)
next
  case (kept cfg v1 rec v2 v3 now v4 state v5 v6)
  let ?bound = "wrap64 (SafeRefreshInterval rec (rt_fallbackInterval rt) (rt_maxRegistrationAge rt) - rt_healthInterval rt)"
  have "runs (tick_effect rt) w v6" using kept(14) by (rule runs_mono) (simp add: tick_effect_def)
  moreover have "runs (tick_effect rt) v6 w'"
    by (rule runs_mono [OF observe_result(2) [OF kept(12)]]) (simp add: tick_effect_def adopted_def)
  ultimately have "runs (tick_effect rt) w w'" by (rule runs_trans)
  moreover have "\<exists>f s. w_files w (rt_configPath rt) = Some f \<and> f_content f = Text s \<and>
      find_endpoint (split_on (CHR 0x0A) s) \<noteq> []"
  proof -
    obtain f where "w_files w (rt_configPath rt) = Some f" and
      "cfg = (case f_content f of Text s \<Rightarrow> find_endpoint (split_on (CHR 0x0A) s) | Doc _ \<Rightarrow> [])"
      using ParseEndpoint_file [OF kept(2)] by blast
    with kept(3) show ?thesis by (cases "f_content f") auto
  qed
  moreover have "quiet w v1" using ParseEndpoint_quiet [of w "rt_configPath rt"] kept(2) by simp
  then have "w_files v1 = w_files w" "static v1 = static w" by (simp_all add: emits_def)
  then have "\<exists>f. w_files w (ls_path (rt_lifetime rt)) = Some f \<and> rec = record_of (f_content f) w"
    using Load_file [OF kept(4,5)] record_of_static [of v1 w] by auto
  moreover have "rt_lastGenerateUTC rt' = lr_CurrentRegistrationUTC rec" "rt_tunnelHealthy rt'"
    using observe_healthy [OF kept(12,10)] by (simp_all add: adopted_def)
  moreover have "w_clock w \<le> now"
    using kept(13) time_Now_clock [OF kept(7)] clock by (auto simp: emits_def clock_ahead_def)
  then have "sat64 (w_clock w - lr_CurrentRegistrationUTC rec) < ?bound"
    using kept(8) sat64_mono [of "w_clock w - lr_CurrentRegistrationUTC rec" "now - lr_CurrentRegistrationUTC rec"]
    by (simp add: time_Sub_def)
  then have "w_clock w - lr_CurrentRegistrationUTC rec < ?bound"
    using in64_wrap64 [of "SafeRefreshInterval rec (rt_fallbackInterval rt) (rt_maxRegistrationAge rt) - rt_healthInterval rt"]
    by (simp add: sat64_def in64_def min_def max_def split: if_splits)
  ultimately show ?thesis using kept(1,5) by blast
qed

theorem adoption_is_safe_witness:
  "runs (tick_effect sample_rt) offline_world (snd (snd (tryAdopt (sample_rt, offline_world))))"
proof -
  obtain b rt' w' where t: "tryAdopt (sample_rt, offline_world) = (b, rt', w')"
    by (cases "tryAdopt (sample_rt, offline_world)")
  from adoption_is_safe [OF t forward_offline(1)] show ?thesis by (simp add: t)
qed

end
