(* ===== verification/Refresh_Runs.thy ===== *)
theory Refresh_Runs
  imports Refresh_Safety
begin

text \<open>
  Runs of the refresh daemon, from the command line through any number of iterations of its
  loop. The locale \<open>loop_invariant\<close> says what a property of runtime and world has to survive
  to hold in every reachable state: regenerations, samples, the bookkeeping before a recovery
  and a successful recovery. It is interpreted for the spacing of recoveries, for the
  consistency of the health state and for the redaction of the error texts.
\<close>

section \<open>The interface of an invariant\<close>

text \<open>What the environment of the loop keeps.\<close>

definition loop_env :: "refreshRuntime \<Rightarrow> world \<Rightarrow> bool" where
  "loop_env rt w \<longleftrightarrow> seams_ok rt \<and> hooks_ok (rt_alerts rt) \<and> forward_clock w"

lemma loop_env_evolves:
  assumes "loop_env rt w" and "regen_rel rt rt'" and "evolves w w'"
  shows "loop_env rt' w'"
  using assms seams_ok_life [OF regen_rel_life [OF assms(2)]] evolves_clock [OF assms(3)]
  by (auto simp: loop_env_def regen_rel_def clock_ahead_def)

lemma observe_env:
  assumes "loop_env rt w" and "observe state now (rt, w) = (rt', w')"
  shows "loop_env rt' w'"
  using assms(1) observe_result(1) [OF assms(2)] evolves_clock [OF runs_evolves [OF observe_result(2) [OF assms(2)]]]
  by (auto simp: loop_env_def clock_ahead_def seams_ok_def note_sample_keeps)

lemma account_env: "loop_env rt w \<Longrightarrow> loop_env (accountForPreviousRecovery now rt) w"
  using accountForPreviousRecovery_updates [of now rt] by (auto simp: loop_env_def seams_ok_def)

lemma note_recovery_env: "loop_env rt w \<Longrightarrow> loop_env (note_recovery now rt) w"
  by (simp add: loop_env_def note_recovery_def seams_ok_def)

definition out_of_cooldown :: "refreshRuntime \<Rightarrow> world \<Rightarrow> bool" where
  "out_of_cooldown rt w \<longleftrightarrow>
     rt_lastRecoveryUTC rt = 0 \<or> rt_lastRecoveryUTC rt + min recoveryCooldownCap (base_cooldown rt) \<le> w_clock w"

locale loop_invariant =
  fixes I :: "refreshRuntime \<Rightarrow> world \<Rightarrow> bool"
  assumes regen: "I rt w \<Longrightarrow> loop_env rt w \<Longrightarrow> regen_rel rt rt' \<Longrightarrow> evolves w w' \<Longrightarrow> I rt' w'"
    and sample: "I rt w \<Longrightarrow> loop_env rt w \<Longrightarrow> observe state (w_clock w) (rt, w) = (rt', w') \<Longrightarrow> I rt' w'"
    and account: "I rt w \<Longrightarrow> loop_env rt w \<Longrightarrow> I (accountForPreviousRecovery now rt) w"
    and recover: "I rt w \<Longrightarrow> loop_env rt w \<Longrightarrow> out_of_cooldown rt w \<Longrightarrow> read_between w now w' \<Longrightarrow>
      I (note_recovery now rt) w'"
begin

definition holds :: "refreshRuntime \<Rightarrow> world \<Rightarrow> bool" where
  "holds rt w \<longleftrightarrow> I rt w \<and> loop_env rt w"

lemma holds_regen: "holds rt w \<Longrightarrow> regen_rel rt rt' \<Longrightarrow> evolves w w' \<Longrightarrow> holds rt' w'"
  unfolding holds_def using regen loop_env_evolves by blast

lemma holds_evolves: "holds rt w \<Longrightarrow> evolves w w' \<Longrightarrow> holds rt w'"
  by (erule holds_regen) simp_all

lemma holds_sampled:
  assumes "holds rt w" and "sampled rt w state now rt1 w1"
  shows "holds rt1 w1"
proof -
  obtain v v1 where c: "CheckTunnelViaControlServer (rt_controlURL rt) (rt_controlTimeout rt) w = (state, v)"
    and n: "time_Now v = (now, v1)" and o: "observe state now (rt, v1) = (rt1, w1)"
    using assms(2) by (auto simp: sampled_def)
  have "evolves w v" using runs_evolves [OF CheckTunnel_runs [of rt w "rt_controlTimeout rt"]] c by simp
  with time_Now_clock [OF n] have "evolves w v1" "now = w_clock v1" by (auto intro: evolves_trans emits_evolves)
  with holds_evolves [OF assms(1)] sample observe_env o show ?thesis unfolding holds_def by blast
qed

lemma holds_recovery:
  assumes "holds rt w" and "out_of_cooldown rt w" and "regenerateWithBackoff reactive (rt, w) = (q, rt', w')"
  shows "holds rt' w'"
proof -
  note out = regenerateWithBackoff_outcome [OF assms(3), unfolded regen_outcome_def]
  have s: "seams_ok rt" and ev: "evolves w w'" using assms(1) out by (auto simp: holds_def loop_env_def)
  show ?thesis
  proof (cases "is_Ok q")
    case True
    then obtain rt1 now where r: "regen_rel rt rt1" "rt' = note_recovery now rt1" "read_between w now w'"
      using out s by auto
    have h: "holds rt1 w" "holds rt1 w'" using holds_regen [OF assms(1) r(1)] ev by auto
    have "out_of_cooldown rt1 w"
      using assms(2) life_eqD(5,6) [OF regen_rel_life [OF r(1)]]
      by (auto simp: out_of_cooldown_def base_cooldown_def split: if_splits)
    then have "I rt' w'" unfolding r(2) using recover h(1) r(3) unfolding holds_def by blast
    then show ?thesis using note_recovery_env h(2) r(2) by (simp add: holds_def)
  next
    case False
    then show ?thesis using out ev holds_regen [OF assms(1)] by simp
  qed
qed

lemma holds_tick:
  assumes "holds rt w" and "onHealthTick (rt, w) = (Ok (), rt', w')"
  shows "holds rt' w'"
  using assms(2)
proof (cases rule: onHealthTick_stages)
  case (idle state now w1)
  from holds_sampled [OF assms(1) idle(1)] idle(3) show ?thesis by (blast intro: holds_evolves emits_evolves)
next
  case (recovery state now rt1 w1 w2 q)
  let ?rt2 = "accountForPreviousRecovery now rt1"
  have "holds rt1 w2"
    using holds_sampled [OF assms(1) recovery(1)] recovery(4) by (blast intro: holds_evolves emits_evolves)
  then have h: "holds ?rt2 w2" unfolding holds_def using account account_env by blast
  have "evolves w2 (recordLossIfMeasurable ?rt2 w2)" by (rule runs_evolves [OF recordLoss_writes])
  then have h3: "holds ?rt2 (recordLossIfMeasurable ?rt2 w2)" "w_clock w2 \<le> w_clock (recordLossIfMeasurable ?rt2 w2)"
    using holds_evolves [OF h] evolves_clock h by (auto simp: holds_def loop_env_def clock_ahead_def)
  have "rt_lastRecoveryUTC ?rt2 = rt_lastRecoveryUTC rt1" "base_cooldown ?rt2 = base_cooldown rt1"
    using accountForPreviousRecovery_updates [of now rt1] by (auto simp: base_cooldown_def)
  then have "out_of_cooldown ?rt2 (recordLossIfMeasurable ?rt2 w2)"
    using recovery(5) h3(2) effectiveCooldown_bounds(1) [of rt1] by (auto simp: out_of_cooldown_def)
  from holds_recovery [OF h3(1) this recovery(6)] show ?thesis .
qed

lemma holds_rearm:
  assumes "holds rt w" and "rearm (rt, w) = (d, rt', w')"
  shows "holds rt' w'"
proof -
  obtain t where "rt' = rt\<lparr>rt_nextRefreshUTC := t\<rparr>" using rearm_result(1) [OF assms(2)] by blast
  with holds_regen [OF assms(1) regen_rel_next runs_evolves [OF rearm_result(2) [OF assms(2)]]]
  show ?thesis by simp
qed

lemma holds_arm:
  assumes "holds rt w" and "armNextRefresh (rt, w) = (d, rt', w')"
  shows "holds rt' w'"
proof -
  obtain t where "rt' = rt\<lparr>rt_nextRefreshUTC := t\<rparr>" using armNextRefresh_result(1) [OF assms(2)] by blast
  with holds_regen [OF assms(1) regen_rel_next runs_evolves [OF armNextRefresh_result(2) [OF assms(2)]]]
  show ?thesis by simp
qed

lemma holds_regenerate:
  assumes h: "holds rt w" and "trigger \<noteq> reactive" and run: "regenerateWithBackoff trigger (rt, w) = (r, rt', w')"
  shows "holds rt' w'"
proof -
  have "seams_ok rt" using h by (simp add: holds_def loop_env_def)
  with regenerateWithBackoff_outcome [OF run] assms(2) have "regen_rel rt rt'" "evolves w w'"
    by (simp_all add: regen_outcome_def)
  with h show ?thesis by (rule holds_regen)
qed

lemma holds_alert:
  assumes h: "holds rt w" and "rt_alerts rt = Some d"
  shows "holds (rt\<lparr>rt_alerts := Some (d\<lparr>ad_queue := q\<rparr>)\<rparr>) (snd (deliver d ev w))"
proof -
  have run: "evolves w (snd (ad_run d cmd env w))" for cmd env
    using h assms(2) by (simp add: holds_def loop_env_def hooks_ok_def)
  have "evolves w (snd (deliver d ev w))"
    unfolding deliver_def Let_def using run
    by (auto split: prod.splits option.splits) (metis snd_conv)+
  moreover have "regen_rel rt (rt\<lparr>rt_alerts := Some (d\<lparr>ad_queue := q\<rparr>)\<rparr>)"
    using assms(2) by (simp add: regen_rel_def hooks_ok_def)
  ultimately show ?thesis using holds_regen [OF h] by blast
qed

lemma holds_wait:
  assumes "holds rt w" and "0 \<le> d"
  shows "holds rt (w\<lparr>w_clock := w_clock w + d\<rparr>)"
proof -
  have "quiet w (w\<lparr>w_clock := w_clock w + d\<rparr>)" using assms(2) by (simp add: emits_def static_def)
  with assms(1) show ?thesis by (blast intro: holds_evolves emits_evolves)
qed

definition loop_holds :: "refresh_state \<Rightarrow> bool" where
  "loop_holds s = (case s of Running l \<Rightarrow> holds (lp_rt l) (lp_world l) | Crashed _ _ \<Rightarrow> True)"

lemma step_holds: "refresh_step s t \<Longrightarrow> loop_holds s \<Longrightarrow> loop_holds t"
proof (induction rule: refresh_step.induct)
  case (tick l s)
  obtain rt w where s: "s = (rt, w)" by (cases s)
  obtain d rt' w' where a: "rearm (rt, w) = (d, rt', w')" by (cases "rearm (rt, w)")
  have "holds (lp_rt l) (lp_world l)" using tick(3) by (simp add: loop_holds_def)
  then have "holds rt w" using tick(2) [unfolded s] by (rule holds_tick)
  from holds_rearm [OF this a] show ?case by (simp add: loop_holds_def after_tick_def s a)
next
  case (proactive l r s)
  obtain rt w where s: "s = (rt, w)" by (cases s)
  obtain d rt' w' where a: "armNextRefresh (rt, w) = (d, rt', w')" by (cases "armNextRefresh (rt, w)")
  have "holds (lp_rt l) (lp_world l)" using proactive(4) by (simp add: loop_holds_def)
  moreover have "''proactive'' \<noteq> reactive" by (simp add: reactive_def)
  ultimately have "holds rt w" using proactive(2) [unfolded s] by (rule holds_regenerate)
  from holds_arm [OF this a] show ?case by (simp add: loop_holds_def after_refresh_def s a)
qed (simp_all add: loop_holds_def holds_alert holds_wait)

lemma holds_adopt:
  assumes h: "holds rt w" and run: "tryAdopt (rt, w) = (b, rt', w')"
  shows "holds rt' w'"
  using run
proof (cases rule: tryAdopt_cases)
  case refused
  with h show ?thesis by (auto intro: holds_evolves runs_evolves)
next
  case (kept cfg v1 rec v2 v3 now v4 state v5 v6)
  let ?rt = "rt\<lparr>rt_lastGenerateUTC := lr_CurrentRegistrationUTC rec\<rparr>"
  have "regen_rel rt ?rt" by (simp add: regen_rel_def)
  with h have "holds ?rt v6" using runs_evolves [OF kept(14)] by (rule holds_regen)
  moreover have "observe state (w_clock v6) (?rt, v6) = (rt', w')"
    using kept(12) unfolding observe_adopted [OF kept(10)] .
  ultimately show ?thesis unfolding holds_def using sample observe_env by blast
qed

text \<open>A loop that was started from a runtime with the property has it.\<close>

lemma started:
  assumes start: "runRefresh c w = (Ok l, w')" and clock: "forward_clock w"
    and init: "\<And>u p m. I (new_refreshRuntime c u p m w) w"
  shows "loop_holds (Running l)"
proof -
  obtain u p m rt0 where rt0: "rt0 = new_refreshRuntime c u p m w" and
    run: "(let (adopted, rt, w) = (if rt_adoptHealthy rt0 then tryAdopt (rt0, w) else (False, rt0, w));
         (r, rt, w) = (if adopted then (Ok (), rt, w) else regenerateWithBackoff ''startup'' (rt, w)) in
     case r of
       Panic m \<Rightarrow> (Panic m, w)
     | _ \<Rightarrow>
         if rt_healthInterval rt \<le> 0 then (Panic ticker_panic, w)
         else let tick = w_clock w + rt_healthInterval rt; (delay, rt, w) = armNextRefresh (rt, w)
              in (Ok \<lparr>lp_rt = rt, lp_world = w, lp_tick = tick, lp_timer = w_clock w + delay\<rparr>, w)) = (Ok l, w')"
    using start unfolding runRefresh_def Let_def
    by (cases "resolveCredentials c"; cases "parseIPv6Mode (c_String c ''ipv6-mode'')";
        cases "check_docker_host (TrimSpace (c_String c ''docker-host''))") auto
  have "seams_ok rt0" "hooks_ok (rt_alerts rt0)"
    using net_run_evolves [OF exec_Run_net_run]
    by (auto simp: rt0 new_refreshRuntime_def seams_ok_def hooks_ok_def newAlertDispatcher_def runHookProcess_def
        Let_def split_beta split: option.splits)
  then have h0: "holds rt0 w" using init clock by (simp add: holds_def loop_env_def rt0)
  obtain a rt1 w1 where 1: "(if rt_adoptHealthy rt0 then tryAdopt (rt0, w) else (False, rt0, w)) = (a, rt1, w1)"
    by (cases "if rt_adoptHealthy rt0 then tryAdopt (rt0, w) else (False, rt0, w)")
  have h1: "holds rt1 w1" using h0 holds_adopt 1 by (auto split: if_splits)
  obtain r rt2 w2 where 2: "(if a then (Ok (), rt1, w1) else regenerateWithBackoff ''startup'' (rt1, w1)) = (r, rt2, w2)"
    by (cases "if a then (Ok (), rt1, w1) else regenerateWithBackoff ''startup'' (rt1, w1)")
  have "''startup'' \<noteq> reactive" by (simp add: reactive_def)
  then have h2: "holds rt2 w2" using h1 holds_regenerate 2 by (auto split: if_splits)
  obtain d rt3 w3 where 3: "armNextRefresh (rt2, w2) = (d, rt3, w3)" by (cases "armNextRefresh (rt2, w2)")
  have "lp_rt l = rt3 \<and> lp_world l = w3"
    using run unfolding 1 Let_def prod.case 2 by (auto simp: 3 split: res.splits if_splits)
  with holds_arm [OF h2 3] show ?thesis by (simp add: loop_holds_def)
qed

sublocale step_invariant refresh_step loop_holds
  by unfold_locales (rule step_holds)

end

section \<open>An example\<close>

definition offline :: "world \<Rightarrow> bool" where
  "offline w \<longleftrightarrow> w_url_error w = (\<lambda>_. Some (errors_New ''no route''))"

lemma offline_evolves: "evolves w w' \<Longrightarrow> offline w \<Longrightarrow> offline w'"
  by (auto simp: offline_def evolves_def emits_def static_def)

lemma offline_generate:
  "offline w \<Longrightarrow> rt_generateFn rt = None \<Longrightarrow> \<exists>e. fst (generate rt w) = Err e"
  by (simp add: offline_def generate_def NewPIAClient_def getServerList_def http_Get_def http_NewRequest_def Let_def)

lemma offline_regenerateOnce:
  assumes "offline w" and "rt_generateFn rt = None"
  shows "\<exists>e. fst (regenerateOnce (rt, w)) = Err e"
proof -
  obtain now v where n: "time_Now w = (now, v)" by (cases "time_Now w")
  then have "offline v" using assms(1) offline_evolves emits_evolves time_Now_clock by blast
  then obtain e where "fst (generate rt v) = Err e" using offline_generate assms(2) by blast
  then show ?thesis by (cases "generate rt v") (simp add: regenerateOnce_def n)
qed

lemma offline_regen_attempts:
  "offline w \<Longrightarrow> rt_generateFn rt = None \<Longrightarrow> seams_ok rt \<Longrightarrow>
     \<exists>e. fst (regen_attempts trigger n backoff lastErr (rt, w)) = Err e"
proof (induction n arbitrary: backoff lastErr rt w)
  case (Suc n)
  obtain e where "fst (regenerateOnce (rt, w)) = Err e" using offline_regenerateOnce Suc.prems(1,2) by blast
  then obtain rt1 w1 where q: "regenerateOnce (rt, w) = (Err e, rt1, w1)" by (cases "regenerateOnce (rt, w)") auto
  note one = regenerateOnce_result [OF q]
  obtain rt2 w2 where x: "note_regen_error e (rt1, w1) = (rt2, w2)" by (cases "note_regen_error e (rt1, w1)")
  note err = note_regen_error_result [OF x]
  have "regen_rel rt rt2" using one(1) err(1) by (rule regen_rel_trans)
  then have l: "life rt2 = life rt" by (rule regen_rel_life)
  have "evolves w (time_Sleep backoff w2)"
    using one(2) [OF Suc.prems(3)] err(2) emits_evolves [OF time_Sleep_emits] evolves_trans by blast
  then have "offline (time_Sleep backoff w2)" using Suc.prems(1) by (rule offline_evolves)
  then show ?case
    using Suc.IH [of "time_Sleep backoff w2" rt2] Suc.prems(2,3) life_eqD(7) [OF l] seams_ok_life [OF l]
    by (simp add: q x Let_def)
qed simp

lemma sample_started:
  "\<exists>l w'. runRefresh sample_cli offline_world = (Ok l, w') \<and>
     life (lp_rt l) = life sample_rt"
proof -
  let ?rt = sample_rt
  have trim: "TrimSpace ''p1234567'' = ''p1234567''" "TrimSpace ''hunter22'' = ''hunter22''" "TrimSpace [] = []" by code_simp+
  have cred: "resolveCredentials sample_cli = Ok (''p1234567'', ''hunter22'')"
    by (simp add: resolveCredentials_def sample_cli_def c_Arg_def trim)
  have mode: "parseIPv6Mode (c_String sample_cli ''ipv6-mode'') = Ok IPv6ModeOn"
    by (simp add: parseIPv6Mode_def sample_cli_def trim)
  have dock: "check_docker_host (TrimSpace (c_String sample_cli ''docker-host'')) = Ok ()"
    by (simp add: check_docker_host_def sample_cli_def trim)
  have rt: "rt_adoptHealthy ?rt = False" "rt_generateFn ?rt = None" "rt_healthInterval ?rt = minute" "seams_ok ?rt"
    by (simp_all add: sample_rt_def new_refreshRuntime_def sample_cli_def seams_ok_def Let_def)
  have off: "offline offline_world" by (simp add: offline_def offline_world_def)
  obtain r rt1 w1 where g: "regenerateWithBackoff ''startup'' (?rt, offline_world) = (r, rt1, w1)"
    by (cases "regenerateWithBackoff ''startup'' (?rt, offline_world)")
  have "\<exists>e. r = Err e"
    using offline_regen_attempts [OF off rt(2,4), of "''startup''" maxRegenAttempts "rt_backoffMin ?rt" None] g
    by (simp add: regenerateWithBackoff_def)
  then obtain e where e: "r = Err e" by blast
  have "life rt1 = life ?rt"
    using regenerateWithBackoff_outcome [OF g] e by (simp add: regen_outcome_def regen_rel_life)
  moreover obtain d rt2 w2 where a: "armNextRefresh (rt1, w1) = (d, rt2, w2)" by (cases "armNextRefresh (rt1, w1)")
  moreover have "life rt2 = life rt1" using armNextRefresh_result(1) [OF a] by auto
  moreover have "rt_healthInterval rt1 = minute" using life_eqD(4) [OF \<open>life rt1 = life ?rt\<close>] rt(3) by simp
  ultimately show ?thesis
    using g e rt(1) by (simp add: runRefresh_def cred mode dock Let_def flip: sample_rt_def)
qed

section \<open>Recoveries are spaced\<close>

text \<open>
  With \<open>n\<close> recoveries since the time \<open>t0\<close>, the last one is at least \<open>n - 1\<close> cooldowns \<open>c\<close>
  later.
\<close>

definition spaced :: "time \<Rightarrow> duration \<Rightarrow> refreshRuntime \<Rightarrow> world \<Rightarrow> bool" where
  "spaced t0 c rt w \<longleftrightarrow> 0 < t0 \<and> t0 \<le> w_clock w \<and> c = min recoveryCooldownCap (base_cooldown rt) \<and>
     0 \<le> rt_recoveryCount rt \<and> (rt_recoveryCount rt = 0 \<longleftrightarrow> rt_lastRecoveryUTC rt = 0) \<and>
     (0 < rt_recoveryCount rt \<longrightarrow>
        t0 + (rt_recoveryCount rt - 1) * c \<le> rt_lastRecoveryUTC rt \<and> rt_lastRecoveryUTC rt \<le> w_clock w)"

lemma spaced_same:
  assumes "spaced t0 c rt w" and "rt_recoveryCount rt' = rt_recoveryCount rt"
    and "rt_lastRecoveryUTC rt' = rt_lastRecoveryUTC rt" and "base_cooldown rt' = base_cooldown rt"
    and "w_clock w \<le> w_clock w'"
  shows "spaced t0 c rt' w'"
  using assms by (auto simp: spaced_def)

lemma clock_of_evolves: "loop_env rt w \<Longrightarrow> evolves w w' \<Longrightarrow> w_clock w \<le> w_clock w'"
  using evolves_clock by (auto simp: loop_env_def clock_ahead_def)

lemma life_base_cooldown: "life rt' = life rt \<Longrightarrow> base_cooldown rt' = base_cooldown rt"
  unfolding base_cooldown_def using life_eqD(5) by metis

interpretation spacing: loop_invariant "spaced t0 c"
proof
  fix rt w rt' w' assume s: "spaced t0 c rt w" "loop_env rt w" and r: "regen_rel rt rt'" and e: "evolves w w'"
  have l: "life rt' = life rt" using r by (rule regen_rel_life)
  show "spaced t0 c rt' w'"
    by (rule spaced_same [OF s(1) life_eqD(9) [OF l] life_eqD(6) [OF l] life_base_cooldown [OF l] clock_of_evolves [OF s(2) e]])
next
  fix rt w st rt' w' assume s: "spaced t0 c rt w" "loop_env rt w" and o: "observe st (w_clock w) (rt, w) = (rt', w')"
  from observe_result(1) [OF o] show "spaced t0 c rt' w'"
    using s clock_of_evolves [OF s(2) runs_evolves [OF observe_result(2) [OF o]]]
    by (intro spaced_same [of t0 c rt w rt' w']) (auto simp: note_sample_keeps base_cooldown_def)
next
  fix rt w now assume s: "spaced t0 c rt w"
  show "spaced t0 c (accountForPreviousRecovery now rt) w"
    by (rule spaced_same [OF s account_keeps(1,2,3) order_refl])
next
  fix rt w now w'
  assume s: "spaced t0 c rt w" and e: "loop_env rt w" and out: "out_of_cooldown rt w" and r: "read_between w now w'"
  have now: "w_clock w \<le> now" "now \<le> w_clock w'"
    using read_between_clock [OF r] e by (auto simp: loop_env_def)
  have "base_cooldown (note_recovery now rt) = base_cooldown rt" by (simp add: base_cooldown_def note_recovery_def)
  moreover have "t0 + rt_recoveryCount rt * c \<le> now"
  proof (cases "rt_recoveryCount rt = 0")
    case False
    with s out have "t0 + (rt_recoveryCount rt - 1) * c \<le> rt_lastRecoveryUTC rt" "rt_lastRecoveryUTC rt + c \<le> w_clock w"
      by (auto simp: spaced_def out_of_cooldown_def)
    with now show ?thesis by (simp add: left_diff_distrib)
  qed (use s now in \<open>simp add: spaced_def\<close>)
  ultimately show "spaced t0 c (note_recovery now rt) w'"
    using s now by (auto simp: spaced_def note_recovery_def)
qed

text \<open>
  C3: Recoveries do not storm. In every run of the daemon, whatever the tunnel, PIA and Docker do,
  \<open>n\<close> successful recoveries take at least \<open>n - 1\<close> cooldowns: the number of recoveries since the
  start is at most one more than the elapsed time divided by the base cooldown (three minutes if
  none is configured, thirty minutes if more is configured).
\<close>

theorem recoveries_are_spaced:
  assumes "runRefresh c w = (Ok l0, w0)" and "forward_clock w" and "0 < w_clock w"
    and "refresh_step\<^sup>*\<^sup>* (Running l0) (Running l)"
  shows "(rt_recoveryCount (lp_rt l) - 1) *
      min (30 * minute) (if 0 < c_Duration c ''recovery-cooldown'' then c_Duration c ''recovery-cooldown'' else 3 * minute)
      \<le> w_clock (lp_world l) - w_clock w"
proof -
  let ?c = "min (30 * minute) (if 0 < c_Duration c ''recovery-cooldown'' then c_Duration c ''recovery-cooldown'' else 3 * minute)"
  have "spaced (w_clock w) ?c (new_refreshRuntime c u p m w) w" for u p m
    using assms(3) by (simp add: spaced_def new_refreshRuntime_def Let_def base_cooldown_def recoveryCooldownCap_def
        defaultRecoveryCooldown_def)
  with assms(1,2) have "spacing.loop_holds (w_clock w) ?c (Running l0)" by (rule spacing.started)
  with assms(4) have "spacing.loop_holds (w_clock w) ?c (Running l)" by (rule spacing.run_keeps)
  then have s: "spaced (w_clock w) ?c (lp_rt l) (lp_world l)" by (simp add: spacing.loop_holds_def spacing.holds_def)
  show ?thesis
  proof (cases "0 < rt_recoveryCount (lp_rt l)")
    case True
    with s show ?thesis unfolding spaced_def by linarith
  next
    case False
    with s have n: "rt_recoveryCount (lp_rt l) - 1 = - 1" "w_clock w \<le> w_clock (lp_world l)" by (auto simp: spaced_def)
    have "0 < ?c" by simp
    then show ?thesis unfolding n(1) using n(2) by (simp only: mult_minus1)
  qed
qed

theorem recoveries_are_spaced_witness:
  "\<exists>l w0. runRefresh sample_cli offline_world = (Ok l, w0) \<and>
     (rt_recoveryCount (lp_rt l) - 1) *
       min (30 * minute) (if 0 < c_Duration sample_cli ''recovery-cooldown''
                          then c_Duration sample_cli ''recovery-cooldown'' else 3 * minute)
       \<le> w_clock (lp_world l) - w_clock offline_world"
proof -
  obtain l w0 where l: "runRefresh sample_cli offline_world = (Ok l, w0)" using sample_started by blast
  with recoveries_are_spaced [OF l forward_offline(1) _ rtranclp.rtrancl_refl] forward_offline(2) show ?thesis by auto
qed

section \<open>The health state\<close>

text \<open>
  A healthy tunnel has no open outage; bad samples in a row mean that it is unhealthy since a
  known time; recoveries count as ineffective only while no healthy sample followed them, and
  until then the registration they made is not confirmed.
\<close>

definition health_state :: "refreshRuntime \<Rightarrow> world \<Rightarrow> bool" where
  "health_state rt w \<longleftrightarrow>
     0 < w_clock w \<and> rt_lastHealthyUTC rt \<le> rt_lastHealthCheckUTC rt \<and> rt_lastHealthCheckUTC rt \<le> w_clock w \<and>
     0 \<le> rt_lastHealthyUTC rt \<and>
     (rt_tunnelHealthy rt \<longrightarrow> rt_consecutiveUnhealth rt = 0 \<and> rt_unhealthySinceUTC rt = 0 \<and>
        rt_healthError rt = [] \<and> rt_lastHealthyUTC rt = rt_lastHealthCheckUTC rt) \<and>
     0 \<le> rt_consecutiveUnhealth rt \<and>
     (0 < rt_consecutiveUnhealth rt \<longrightarrow> 0 < rt_unhealthySinceUTC rt \<and> rt_unhealthySinceUTC rt \<le> rt_lastHealthCheckUTC rt) \<and>
     0 \<le> rt_unhealthySinceUTC rt \<and> rt_unhealthySinceUTC rt \<le> rt_lastHealthCheckUTC rt \<and>
     0 \<le> rt_recoveryCount rt \<and> 0 \<le> rt_ineffectiveRecoveries rt \<and>
     (0 < rt_ineffectiveRecoveries rt \<longrightarrow> 0 < rt_recoveryCount rt \<and> \<not> rt_healthySinceRecovery rt) \<and>
     (rt_confirmedHealthy rt \<longleftrightarrow> rt_healthySinceRecovery rt)"

lemma health_state_later: "health_state rt w \<Longrightarrow> w_clock w \<le> w_clock w' \<Longrightarrow> health_state rt w'"
  unfolding health_state_def by linarith

lemma health_state_life:
  assumes "health_state rt w" and "life rt' = life rt"
  shows "health_state rt' w"
  using assms(1) unfolding health_state_def life_eqD [OF assms(2)] .

lemma health_state_sample:
  assumes "health_state rt w"
  shows "health_state ((note_sample state (w_clock w) rt)\<lparr>rt_policy := po, rt_alerts := al\<rparr>) w"
proof (cases "ts_Healthy state")
  case True
  then show ?thesis using assms by (auto simp: health_state_def note_sample_def Let_def)
next
  case False
  then obtain since he where n: "note_sample state (w_clock w) rt =
    rt\<lparr>rt_controlStatus := ts_Status state, rt_publicIPKnown := ts_PublicIPKnown state,
       rt_publicIPPresent := ts_PublicIPPresent state, rt_lastHealthCheckUTC := w_clock w, rt_tunnelHealthy := False,
       rt_consecutiveUnhealth := rt_consecutiveUnhealth rt + 1, rt_unhealthySinceUTC := since, rt_healthError := he\<rparr>"
    and since: "since = (if rt_unhealthySinceUTC rt = 0 then w_clock w else rt_unhealthySinceUTC rt)"
    by (rule note_sample_unhealthy)
  have "0 < since" "since \<le> w_clock w" using assms by (auto simp: since health_state_def)
  then show ?thesis using assms by (auto simp: n health_state_def)
qed

interpretation health: loop_invariant health_state
proof
  fix rt w rt' w' assume h: "health_state rt w" "loop_env rt w" and r: "regen_rel rt rt'" and e: "evolves w w'"
  show "health_state rt' w'"
    by (rule health_state_later [OF health_state_life [OF h(1) regen_rel_life [OF r]] clock_of_evolves [OF h(2) e]])
next
  fix rt w st rt' w' assume h: "health_state rt w" "loop_env rt w" and o: "observe st (w_clock w) (rt, w) = (rt', w')"
  obtain po al where rt': "rt' = (note_sample st (w_clock w) rt)\<lparr>rt_policy := po, rt_alerts := al\<rparr>"
    using observe_result(1) [OF o] by blast
  show "health_state rt' w'"
    unfolding rt' by (rule health_state_later [OF health_state_sample [OF h(1)]
        clock_of_evolves [OF h(2) runs_evolves [OF observe_result(2) [OF o]]]])
next
  fix rt w now assume "health_state rt w"
  then show "health_state (accountForPreviousRecovery now rt) w"
    unfolding health_state_def account_keeps by (simp split: if_splits)
next
  fix rt w now w' assume h: "health_state rt w" and e: "loop_env rt w" and r: "read_between w now w'"
  have "w_clock w \<le> w_clock w'" using read_between_clock [OF r] e unfolding loop_env_def by linarith
  with h show "health_state (note_recovery now rt) w'"
    by (auto simp: health_state_def note_recovery_def)
qed

text \<open>
  C4: The health state is consistent in every reachable state. While the last sample was healthy
  there is no count of bad samples, no start of an outage and no error; while bad samples are
  counted the outage has a start, no later than the last sample; a recovery counts as ineffective
  only until a healthy sample, and the registration it made is confirmed, and so measured when it
  is lost, only after one.
\<close>

theorem health_state_consistent:
  assumes "runRefresh c w = (Ok l0, w0)" and "forward_clock w" and "0 < w_clock w"
    and "refresh_step\<^sup>*\<^sup>* (Running l0) (Running l)"
  defines "rt \<equiv> lp_rt l"
  shows "(rt_tunnelHealthy rt \<longrightarrow> rt_consecutiveUnhealth rt = 0 \<and> rt_unhealthySinceUTC rt = 0 \<and>
      rt_healthError rt = [] \<and> rt_lastHealthyUTC rt = rt_lastHealthCheckUTC rt) \<and>
    (0 < rt_consecutiveUnhealth rt \<longrightarrow> \<not> rt_tunnelHealthy rt \<and>
      0 < rt_unhealthySinceUTC rt \<and> rt_unhealthySinceUTC rt \<le> rt_lastHealthCheckUTC rt) \<and>
    (0 < rt_ineffectiveRecoveries rt \<longrightarrow> 0 < rt_recoveryCount rt \<and> \<not> rt_healthySinceRecovery rt) \<and>
    (rt_confirmedHealthy rt \<longleftrightarrow> rt_healthySinceRecovery rt) \<and>
    rt_lastHealthyUTC rt \<le> rt_lastHealthCheckUTC rt \<and> rt_lastHealthCheckUTC rt \<le> w_clock (lp_world l)"
proof -
  have "health_state (new_refreshRuntime c u p m w) w" for u p m
    using assms(3) by (simp add: health_state_def new_refreshRuntime_def Let_def)
  with assms(1,2) have "health.loop_holds (Running l0)" by (rule health.started)
  with assms(4) have "health.loop_holds (Running l)" by (rule health.run_keeps)
  then have "health_state rt (lp_world l)" by (simp add: health.loop_holds_def health.holds_def rt_def)
  then show ?thesis unfolding health_state_def by auto
qed

theorem health_state_consistent_witness:
  "\<exists>l w0. runRefresh sample_cli offline_world = (Ok l, w0) \<and>
     (rt_confirmedHealthy (lp_rt l) \<longleftrightarrow> rt_healthySinceRecovery (lp_rt l)) \<and>
     rt_lastHealthCheckUTC (lp_rt l) \<le> w_clock (lp_world l)"
proof -
  obtain l w0 where l: "runRefresh sample_cli offline_world = (Ok l, w0)" using sample_started by blast
  with health_state_consistent [OF l forward_offline(1) _ rtranclp.rtrancl_refl] forward_offline(2) show ?thesis by auto
qed

section \<open>Secrets stay out of the status file\<close>

definition errors_redacted :: "refreshRuntime \<Rightarrow> world \<Rightarrow> bool" where
  "errors_redacted rt w \<longleftrightarrow> redacted rt (rt_regenError rt) \<and> redacted rt (rt_healthError rt)"

interpretation redaction: loop_invariant errors_redacted
proof
  fix rt w rt' w' assume h: "errors_redacted rt w" and r: "regen_rel rt rt'"
  note l = regen_rel_life [OF r]
  show "errors_redacted rt' w'"
    using h r unfolding errors_redacted_def life_redacted [OF l] life_eqD(18) [OF l] regen_rel_def by blast
next
  fix rt w st rt' w' assume h: "errors_redacted rt w" and o: "observe st (w_clock w) (rt, w) = (rt', w')"
  let ?n = "note_sample st (w_clock w) rt"
  obtain po al where rt': "rt' = ?n\<lparr>rt_policy := po, rt_alerts := al\<rparr>" using observe_result(1) [OF o] by blast
  have "rt_healthError ?n = [] \<or> rt_healthError ?n = rt_healthError rt \<or> (\<exists>m. rt_healthError ?n = rt_redact rt m)"
    by (auto simp: note_sample_def Let_def rt_redact_def rt_secrets_def split: option.splits)
  with h have "redacted rt (rt_healthError ?n)" by (auto simp: errors_redacted_def)
  moreover have "redacted rt' = redacted rt"
    by (simp add: fun_eq_iff redacted_def rt' rt_secrets_def note_sample_keeps)
  moreover have "rt_healthError rt' = rt_healthError ?n" "rt_regenError rt' = rt_regenError rt"
    by (simp_all add: rt' note_sample_keeps)
  ultimately show "errors_redacted rt' w'" using h by (simp add: errors_redacted_def)
next
  fix rt w now assume "errors_redacted rt w"
  then show "errors_redacted (accountForPreviousRecovery now rt) w"
    unfolding errors_redacted_def redacted_def account_keeps .
next
  fix rt w now w' assume "errors_redacted rt w"
  then show "errors_redacted (note_recovery now rt) w'"
    by (simp add: errors_redacted_def redacted_def note_recovery_def rt_secrets_def)
qed

lemma buildStatus_LastError:
  "ds_LastError (fst (buildStatus rt w)) = (if rt_regenError rt \<noteq> [] then rt_regenError rt else rt_healthError rt)"
  by (simp add: buildStatus_def Let_def split_beta zero_daemonStatus_def split: option.splits)

text \<open>
  C8: The account never shows in the status file. In every reachable state of the daemon, the
  error text its status reports contains neither the user name nor the password, whatever the
  errors of PIA, curl, Docker and the control server said (for values of at least four bytes
  without angle brackets that are no part of the word "redacted").
\<close>

theorem status_never_shows_credentials:
  assumes "runRefresh c w = (Ok l0, w0)" and "forward_clock w"
    and "refresh_step\<^sup>*\<^sup>* (Running l0) (Running l)"
    and "v \<in> {rt_username (lp_rt l), rt_password (lp_rt l)}"
    and "4 \<le> length (TrimSpace v)" and "scrubbable (TrimSpace v)"
  shows "\<not> contains (TrimSpace v) (ds_LastError (fst (buildStatus (lp_rt l) w')))"
proof -
  have "errors_redacted (new_refreshRuntime c u p m w) w" for u p m
    by (simp add: errors_redacted_def new_refreshRuntime_def Let_def)
  with assms(1,2) have "redaction.loop_holds (Running l0)" by (rule redaction.started)
  with assms(3) have "redaction.loop_holds (Running l)" by (rule redaction.run_keeps)
  then have "errors_redacted (lp_rt l) (lp_world l)" by (simp add: redaction.loop_holds_def redaction.holds_def)
  then obtain m where "ds_LastError (fst (buildStatus (lp_rt l) w')) = Redact m (rt_secrets (lp_rt l))"
    unfolding buildStatus_LastError errors_redacted_def redacted_def by metis
  with Redact_removes [OF _ assms(5,6), of "rt_secrets (lp_rt l)"] assms(4) show ?thesis
    by (auto simp: rt_secrets_def)
qed

theorem status_never_shows_credentials_witness:
  "\<exists>l w0. runRefresh sample_cli offline_world = (Ok l, w0) \<and>
     \<not> contains ''hunter22'' (ds_LastError (fst (buildStatus (lp_rt l) (lp_world l))))"
proof -
  obtain l w0 where l: "runRefresh sample_cli offline_world = (Ok l, w0)" "life (lp_rt l) = life sample_rt"
    using sample_started by blast
  have pw: "rt_password (lp_rt l) = ''hunter22''"
    using life_eqD(2) [OF l(2)] by (simp add: sample_rt_def new_refreshRuntime_def Let_def)
  have v: "TrimSpace ''hunter22'' = ''hunter22''" "scrubbable ''hunter22''" by code_simp+
  have "\<not> contains (TrimSpace ''hunter22'') (ds_LastError (fst (buildStatus (lp_rt l) (lp_world l))))"
    by (rule status_never_shows_credentials [OF l(1) forward_offline(1) rtranclp.rtrancl_refl]) (simp_all add: pw v)
  with l(1) v(1) show ?thesis by auto
qed

end
