(* ===== verification/Refresh_Apply.thy ===== *)
theory Refresh_Apply
  imports Refresh_Safety
begin

text \<open>
  Applying a configuration and planning the next one, from refresh.go: the order in which a
  regeneration writes its files and restarts the container, when the next proactive refresh is
  due, and which options the command rejects.
\<close>

section \<open>Order of a regeneration\<close>

definition no_post :: "effect \<Rightarrow> bool" where
  "no_post e \<longleftrightarrow> (\<forall>client req. e = EvHttp client req \<longrightarrow> hq_method req \<noteq> ''POST'')"

lemma permits_no_post: "permits no_post"
proof -
  have "no_post e" if "exec_effect e \<or> \<not> net_effect e" for e using that by (cases e) (auto simp: no_post_def)
  then show ?thesis by (auto simp: permits_def allows_def allows_auth_def no_post_def)
qed

lemma writes_no_post: "writes_only P e \<Longrightarrow> no_post e"
  by (cases e) (auto simp: no_post_def)

lemma hook_no_post: "runs no_post w (snd (runConfigHook cmd d c f port w))"
proof -
  have "quiet w (w\<lparr>w_orders := stl (w_orders w)\<rparr>)" by (simp add: emits_def static_def)
  moreover have "runs no_post v (snd (run_shell x v))" for x v
    using emits_runs [OF exec_Run_emits [of "[''sh'', ''-c'', x]" None v], of no_post]
    by (simp add: run_shell_def Let_def split_beta no_post_def)
  ultimately show ?thesis by (auto simp: runConfigHook_def intro: runs_trans quiet_runs)
qed

text \<open>The files of the daemon, in its state directory.\<close>

definition state_files :: "('a refreshConfig_scheme) \<Rightarrow> string \<Rightarrow> bool" where
  "state_files rt dir \<longleftrightarrow>
     rt_configPath rt = path_Join dir defaultConfigFileName \<and> rt_pendingPFPath rt = path_Join dir defaultPendingPFName \<and>
     rt_statusPath rt = path_Join dir defaultStatusFileName \<and> rt_lifetime rt = NewLifetimeStore dir"

lemma plain_file_names:
  "plain_name defaultConfigFileName" "plain_name defaultPendingPFName" "plain_name defaultStatusFileName"
  "plain_name lifetimeRecordFileName"
  by (simp_all add: file_names lifetime_consts plain_name_def)

lemma state_files_distinct:
  assumes "state_files rt dir"
  shows "\<not> temp_path (rt_configPath rt)" "\<not> temp_path (rt_pendingPFPath rt)"
    "rt_pendingPFPath rt \<noteq> rt_configPath rt" "ls_path (rt_lifetime rt) \<noteq> rt_configPath rt"
    "rt_statusPath rt \<noteq> rt_configPath rt" "rt_statusPath rt \<noteq> rt_pendingPFPath rt"
  using assms unfolding state_files_def NewLifetimeStore_def LifetimeStore.select_convs
  by (simp_all add: temp_path_Join path_Join_inject plain_file_names)
    (simp_all add: file_names lifetime_consts)

text \<open>What is on disk when the container is restarted.\<close>

definition in_place :: "('a refreshConfig_scheme) \<Rightarrow> GenerateResult \<Rightarrow> fs \<Rightarrow> bool" where
  "in_place rt gen fs \<longleftrightarrow>
     (\<exists>f. fs (rt_configPath rt) = Some f \<and> f_content f = Text (gr_Config gen)) \<and>
     (rt_portForwarding rt \<longrightarrow>
        (\<exists>f j t. fs (rt_pendingPFPath rt) = Some f \<and> f_content f = Doc j \<and>
           enc_pending \<lparr>pp_CreatedUTC = t, pp_Key = gr_Key gen\<rparr> = Some j))"

lemma writePending_file:
  assumes "fst (writePendingPortForward path key w) = Ok ()" and "\<not> temp_path path"
  shows "\<exists>f j t. w_files (snd (writePendingPortForward path key w)) path = Some f \<and> f_content f = Doc j \<and>
    enc_pending \<lparr>pp_CreatedUTC = t, pp_Key = key\<rparr> = Some j"
proof -
  obtain now v where n: "time_Now w = (now, v)" by (cases "time_Now w")
  then obtain j where j: "enc_pending \<lparr>pp_CreatedUTC = now, pp_Key = key\<rparr> = Some j"
    using assms(1) by (auto simp: writePendingPortForward_def split: option.splits)
  then have "writePendingPortForward path key w = atomicWriteFile path (Doc j) 384 v"
    by (simp add: writePendingPortForward_def n)
  with assms aw.target_Ok [OF assms(2), of "Doc j" 384 v] j show ?thesis by metis
qed

lemma net_run_in_place: "net_run w w' \<Longrightarrow> in_place rt gen (w_files w) \<Longrightarrow> in_place rt gen (w_files w')"
  by (simp add: net_runD(1))

text \<open>The writes of a configuration: they send nothing, and after them everything is in place.\<close>

lemma apply_config_files:
  assumes paths: "state_files rt dir"
    and cfg: "atomicWriteFile (rt_configPath rt) (Text (gr_Config gen)) 420 w = (Ok (), v1)"
    and birth: "RecordNewRegistration (rt_lifetime rt) now v1 = (q, v2)"
    and pend: "(if rt_portForwarding rt then writePendingPortForward (rt_pendingPFPath rt) (gr_Key gen) v2 else (Ok (), v2)) = (r, v3)"
  shows "runs no_post w v3" and "r = Ok () \<Longrightarrow> in_place rt gen (w_files v3)"
proof -
  note files = state_files_distinct [OF paths]
  have writes1: "runs (writes_only {rt_configPath rt}) w v1"
    using aw.writes [of "rt_configPath rt" w "Text (gr_Config gen)" 420] cfg by simp
  have writes2: "runs (writes_only {ls_path (rt_lifetime rt)}) v1 v2"
    using RecordNewRegistration_writes [of "rt_lifetime rt" v1 now] birth by simp
  have writes3: "runs (writes_only {rt_pendingPFPath rt}) v2 v3"
    using writePending_writes [of "rt_pendingPFPath rt" v2 "gr_Key gen"] pend by (auto split: if_splits)
  note posts = runs_mono [OF _ writes_no_post]
  show "runs no_post w v3" by (rule runs_trans [OF posts [OF writes1] runs_trans [OF posts [OF writes2] posts [OF writes3]]])
  obtain f where f: "w_files v1 (rt_configPath rt) = Some f" "f_content f = Text (gr_Config gen)"
    using aw.target_Ok [OF files(1), of "Text (gr_Config gen)" 420 w] cfg by (metis fst_conv snd_conv)
  then have "w_files v3 (rt_configPath rt) = Some f"
    using runs_writes_only [OF writes2 files(1)] runs_writes_only [OF writes3 files(1)] files(3,4) by simp
  then show "in_place rt gen (w_files v3)" if "r = Ok ()"
    using f(2) writePending_file [OF _ files(2), of "gr_Key gen" v2] pend that
    by (auto simp: in_place_def split: if_splits)
qed

text \<open>
  Applying a configuration: until the restart there is no POST request, and when the restart is
  reached everything is in place.
\<close>

lemma apply_config_stages:
  assumes paths: "state_files rt dir" and run: "apply_config rt now gen w = (r, w')"
  shows "runs no_post w w' \<or>
    (\<exists>v. runs no_post w v \<and> in_place rt gen (w_files v) \<and> w' = snd (restartGluetun rt v))"
proof -
  obtain r1 v1 where 1: "atomicWriteFile (rt_configPath rt) (Text (gr_Config gen)) 420 w = (r1, v1)"
    by (cases "atomicWriteFile (rt_configPath rt) (Text (gr_Config gen)) 420 w")
  have w1: "runs no_post w v1"
    using runs_mono [OF aw.writes [of "rt_configPath rt" w "Text (gr_Config gen)" 420] writes_no_post] 1 by simp
  show ?thesis
  proof (cases "r1 = Ok ()")
    case False
    then have "w' = v1" using run 1 by (cases r1) (simp_all add: apply_config_def)
    with w1 show ?thesis by simp
  next
    case True
    obtain q2 v2 where 2: "RecordNewRegistration (rt_lifetime rt) now v1 = (q2, v2)"
      by (cases "RecordNewRegistration (rt_lifetime rt) now v1")
    let ?pend = "if rt_portForwarding rt then writePendingPortForward (rt_pendingPFPath rt) (gr_Key gen) v2 else (Ok (), v2)"
    obtain r3 v3 where 3: "?pend = (r3, v3)" by (cases ?pend)
    note written = apply_config_files [OF paths 1 [unfolded True] 2 3]
    let ?hook = "runConfigHook (rt_configHookCmd rt) (rt_stateDir rt) (rt_configPath rt) (rt_forwardedPortPath rt) [] v3"
    obtain q4 v4 where 4: "?hook = (q4, v4)" by (cases ?hook)
    have rest: "apply_config rt now gen w =
        io_try (if rt_portForwarding rt then (map_err (errors_Wrap ''pending PF write'') r3, v3) else (r3, v3)) (\<lambda>_ w.
        let (_, w) = runConfigHook (rt_configHookCmd rt) (rt_stateDir rt) (rt_configPath rt) (rt_forwardedPortPath rt) [] w in
        io_wrap (errors_Wrap ''gluetun restart'') (restartGluetun rt w))"
      using 3 by (auto simp: apply_config_def 1 True 2 Let_def)
    show ?thesis
    proof (cases "r3 = Ok ()")
      case False
      then have "w' = v3" using run 3 unfolding rest by (cases r3) (auto split: if_splits)
      with written(1) show ?thesis by simp
    next
      case ok3: True
      have "in_place rt gen (w_files v4)"
        using net_run_in_place [OF runConfigHook_net_run written(2) [OF ok3]] 4 by (metis snd_conv)
      moreover have "runs no_post w v4" using runs_trans [OF written(1) hook_no_post] 4 by (metis snd_conv)
      moreover have "w' = snd (restartGluetun rt v4)"
        using run 4 unfolding rest ok3 by (auto simp: io_wrap_def split: if_splits)
      ultimately show ?thesis by blast
    qed
  qed
qed

definition at_most_one :: "world \<Rightarrow> world \<Rightarrow> bool" where
  "at_most_one w w' \<longleftrightarrow> (\<exists>es. length es \<le> 1 \<and> emits es w w')"

lemma at_most_one_refl [simp]: "at_most_one w w"
  unfolding at_most_one_def by (rule exI [of _ "[]"]) simp

lemma at_most_one_Do [simp]: "at_most_one w (snd (http_Do client req w))"
  unfolding at_most_one_def by (rule exI [of _ "[EvHttp client req]"]) (simp add: http_Do_emits)

lemma at_most_one_pure: "(\<And>x. at_most_one w (snd (f x w))) \<Longrightarrow> at_most_one w (snd (io_try (r, w) f))"
  by (cases r) auto

lemma at_most_one_last: "at_most_one w (snd r) \<Longrightarrow> (\<And>x v. snd (f x v) = v) \<Longrightarrow> at_most_one w (snd (io_try r f))"
  using io_try_snd_cases [of r f] by auto

lemma restartDocker_one: "at_most_one w (snd (restartDockerContainerWithClient client base container w))"
proof -
  have "at_most_one w (snd (if b then (Err e, w) else io_try (r, w) (\<lambda>req w.
      io_try (io_wrap h (http_Do client req w)) (\<lambda>resp w. if c resp then (Err (e' resp), w) else (Ok (), w)))))"
    for b e r h c e'
    by (cases b) (simp_all add: at_most_one_pure at_most_one_last)
  then show ?thesis unfolding restartDockerContainerWithClient_def Let_def .
qed

lemma restartGluetun_one:
  "rt_restartFn rt = None \<Longrightarrow> at_most_one w (snd (restartGluetun rt w))"
  by (auto simp: restartGluetun_def restartDockerContainerVia_def restartDocker_one split_beta intro!: at_most_one_pure)

lemma split_at_once:
  assumes "A @ B @ C = es1 @ e # es2" and "list_all P A" and "list_all P C" and "length B \<le> 1" and "\<not> P e"
  shows "es1 = A"
proof -
  have nin: "e \<notin> set A" "e \<notin> set C" using assms(2,3,5) by (auto simp: list_all_iff)
  with assms(1) have "e \<in> set B" by (metis Un_iff in_set_conv_decomp set_append)
  with assms(4) have B: "B = [e]" by (cases B) auto
  have "length es1 = length A"
  proof (rule ccontr)
    assume "length es1 \<noteq> length A"
    then consider "length es1 < length A" | "length A < length es1" by linarith
    then show False
    proof cases
      case 1
      then have "(A @ B @ C) ! length es1 = A ! length es1" by (simp add: nth_append)
      with assms(1) 1 nin show False by (metis nth_append_length nth_mem)
    next
      case 2
      moreover have "length es1 < length (A @ B @ C)" unfolding assms(1) by simp
      ultimately have "(A @ B @ C) ! length es1 \<in> set C" by (simp add: nth_append B)
      with assms(1) nin show False by (metis nth_append_length)
    qed
  qed
  with assms(1) show ?thesis by simp
qed

text \<open>The generator of production sends GET requests only; a seam has to do the same.\<close>

definition generate_sends_no_post :: "('a refreshConfig_scheme) \<Rightarrow> bool" where
  "generate_sends_no_post rt \<longleftrightarrow>
     (case rt_generateFn rt of None \<Rightarrow> True | Some f \<Rightarrow> (\<forall>w. runs no_post w (snd (f w))))"

lemma generate_no_post:
  assumes "generate_sends_no_post rt"
  shows "runs no_post w (snd (generate rt w))"
proof (cases "rt_generateFn rt")
  case None
  then show ?thesis using permits_no_post by (rule generate_runs)
qed (use assms in \<open>simp add: generate_sends_no_post_def generate_def\<close>)

text \<open>
  C2: The container is restarted only when everything it needs is on disk. Whenever a
  regeneration sends a POST request (the restart is the only one it can send), at that moment the
  configuration file already has the complete new configuration and, with port forwarding, the
  pending file has the key data of the same registration; so the container never comes back up
  with an old or partial configuration, also if the daemon dies right after the request.
\<close>

theorem restart_after_config:
  assumes paths: "state_files rt dir" and seams: "generate_sends_no_post rt" "rt_restartFn rt = None"
    and run: "regenerateOnce (rt, w) = (r, rt', w')"
    and trace: "w_trace w' = w_trace w @ es1 @ EvHttp client req # es2" and post: "hq_method req = ''POST''"
  shows "\<exists>gen. fst (generate rt (snd (time_Now w))) = Ok gen \<and> in_place rt gen (replay es1 (w_files w))"
proof -
  obtain now v0 where n: "time_Now w = (now, v0)" by (cases "time_Now w")
  obtain g v1 where g: "generate rt v0 = (g, v1)" by (cases "generate rt v0")
  have w0: "runs no_post w v0" using quiet_runs time_Now_clock [OF n] by blast
  have "runs no_post v0 v1" using generate_no_post [OF seams(1), of v0] g by simp
  with w0 have w1: "runs no_post w v1" by (rule runs_trans)
  have quiet_end: False if "runs no_post w w'"
    using runs_trace [OF that trace] post by (auto simp: no_post_def)
  show ?thesis
  proof (cases g)
    case (Ok gen)
    obtain q v2 where q: "apply_config rt now gen v1 = (q, v2)" by (cases "apply_config rt now gen v1")
    let ?rt = "rt\<lparr>rt_lastGenerateUTC := now, rt_regenError := []\<rparr>"
    obtain d rt1 w1' where a: "armNextRefresh (?rt, v2) = (d, rt1, w1')" by (cases "armNextRefresh (?rt, v2)")
    have "w' = v2 \<or> w' = (if rt_verbose rt1 then snd (ParseEndpointFromConfig (rt_configPath rt1) w1') else w1')"
      using run by (cases q) (auto simp: regenerateOnce_def n g Ok q a)
    moreover have arm: "runs no_post v2 w1'"
      by (rule runs_mono [OF armNextRefresh_result(2) [OF a]]) (rule writes_no_post)
    then have "runs no_post v2 (snd (ParseEndpointFromConfig p w1'))" for p
      using quiet_runs [OF ParseEndpoint_quiet] by (rule runs_trans)
    ultimately have end_run: "runs no_post v2 w'" using arm by auto
    from apply_config_stages [OF paths q] show ?thesis
    proof
      assume "runs no_post v1 v2"
      from quiet_end [OF runs_trans [OF runs_trans [OF w1 this] end_run]] show ?thesis ..
    next
      assume "\<exists>v. runs no_post v1 v \<and> in_place rt gen (w_files v) \<and> v2 = snd (restartGluetun rt v)"
      then obtain v where v: "runs no_post v1 v" "in_place rt gen (w_files v)" "v2 = snd (restartGluetun rt v)" by blast
      obtain A where A: "list_all no_post A" "emits A w v"
        using runs_trans [OF w1 v(1)] by (auto simp: runs_def)
      obtain B where B: "length B \<le> 1" "emits B v v2"
        using restartGluetun_one [OF seams(2), of v] v(3) by (auto simp: at_most_one_def)
      obtain C where C: "list_all no_post C" "emits C v2 w'" using end_run by (auto simp: runs_def)
      have "A @ B @ C = es1 @ EvHttp client req # es2"
        using trace A(2) B(2) C(2) by (simp add: emits_def)
      moreover have "\<not> no_post (EvHttp client req)" using post by (simp add: no_post_def)
      ultimately have "es1 = A" using split_at_once [OF _ A(1) C(1) B(1)] by blast
      then have "w_files v = replay es1 (w_files w)" using A(2) by (simp add: emits_def)
      with v(2) Ok g n show ?thesis by simp
    qed
  qed (use run w1 quiet_end in \<open>auto simp: regenerateOnce_def n g\<close>)
qed

section \<open>When the next refresh is due\<close>

lemma nextProactiveDelay_registered:
  assumes "fst (Load (rt_lifetime rt) w) = Ok rec" and "lr_CurrentRegistrationUTC rec \<noteq> 0"
    and "nextProactiveDelay rt w = (delay, w')"
  obtains interval v where
    "applyJitter (SafeRefreshInterval rec (rt_fallbackInterval rt) (rt_maxRegistrationAge rt)) (rt_jitterMax rt)
       (snd (Load (rt_lifetime rt) w)) = (interval, v)"
    "delay = max minute (sat64 (lr_CurrentRegistrationUTC rec + interval - w_clock w'))"
proof -
  obtain u where l: "Load (rt_lifetime rt) w = (Ok rec, u)" using assms(1) by (cases "Load (rt_lifetime rt) w") auto
  obtain interval v where j: "applyJitter (SafeRefreshInterval rec (rt_fallbackInterval rt) (rt_maxRegistrationAge rt))
      (rt_jitterMax rt) u = (interval, v)" by force
  obtain now v' where n: "time_Now v = (now, v')" by (cases "time_Now v")
  have "w' = v'" "delay = max minute (sat64 (lr_CurrentRegistrationUTC rec + interval - now))"
    using assms(2,3) by (auto simp: nextProactiveDelay_def l j n time_ops Let_def max_def)
  with that j time_Now_clock [OF n] show thesis by (simp add: l)
qed

text \<open>
  C15: The proactive refresh is on time. With a known registration the next refresh is planned at
  least one minute ahead, and no later than the birth of the registration plus the safe refresh
  interval plus half of the configured jitter, or one minute from now if that is past: the
  schedule follows the registration in use and not the moment it was computed. (For durations
  whose sum fits 64 bits.)
\<close>

theorem proactive_refresh_on_time:
  assumes "fst (Load (rt_lifetime rt) w) = Ok rec" and "lr_CurrentRegistrationUTC rec \<noteq> 0"
    and "nextProactiveDelay rt w = (delay, w')"
  defines "interval \<equiv> SafeRefreshInterval rec (rt_fallbackInterval rt) (rt_maxRegistrationAge rt)"
  assumes "\<bar>interval\<bar> + \<bar>rt_jitterMax rt\<bar> < 2 ^ 63"
  shows "minute \<le> delay \<and>
    w_clock w' + delay \<le> max (w_clock w' + minute)
      (lr_CurrentRegistrationUTC rec + interval + max 0 (rt_jitterMax rt) div 2)"
proof -
  obtain i v where j: "applyJitter interval (rt_jitterMax rt) (snd (Load (rt_lifetime rt) w)) = (i, v)"
    and d: "delay = max minute (sat64 (lr_CurrentRegistrationUTC rec + i - w_clock w'))"
    using nextProactiveDelay_registered [OF assms(1-3)] unfolding interval_def by metis
  have i: "i \<le> interval + max 0 (rt_jitterMax rt) div 2"
  proof (cases "0 < rt_jitterMax rt")
    case True
    with applyJitter_near [OF True, of interval "snd (Load (rt_lifetime rt) w)"] assms(5) j show ?thesis by simp
  qed (use j in \<open>simp add: applyJitter_def\<close>)
  have "sat64 (lr_CurrentRegistrationUTC rec + i - w_clock w') \<le> max minute (lr_CurrentRegistrationUTC rec + i - w_clock w')"
    by (auto simp: sat64_def max_def min_def)
  then have "delay \<le> max minute (lr_CurrentRegistrationUTC rec + i - w_clock w')" unfolding d by simp
  with i show ?thesis by (simp add: d max_def split: if_splits)
qed

section \<open>Options the command rejects\<close>

lemma adopt_keeps_interval:
  assumes "tryAdopt (rt, w) = (b, rt', w')"
  shows "rt_healthInterval rt' = rt_healthInterval rt"
  using assms
proof (cases rule: tryAdopt_cases)
  case (kept cfg v1 rec v2 v3 now v4 state v5 v6)
  from observe_result(1) [OF kept(12)] show ?thesis
    by (auto simp: note_sample_def adopted_def Let_def split: option.splits)
qed simp

lemma regen_keeps_interval:
  assumes "regenerateWithBackoff trigger (rt, w) = (r, rt', w')"
  shows "rt_healthInterval rt' = rt_healthInterval rt"
proof -
  from regenerateWithBackoff_outcome [OF assms] obtain rt1 where
    rt1: "life rt1 = life rt" "rt' = rt1 \<or> (\<exists>now. rt' = note_recovery now rt1)"
    by (auto simp: regen_outcome_def regen_rel_def split: if_splits)
  with life_eqD(4) [OF rt1(1)] show ?thesis by (auto simp: note_recovery_def)
qed


section \<open>Examples\<close>

definition sample_gen :: GenerateResult where
  "sample_gen = \<lparr>gr_Config = ''[Interface]'', gr_Key = zero_AddKeyResult\<rparr>"

definition docker_rt :: refreshRuntime where
  "docker_rt = sample_rt\<lparr>rt_generateFn := Some (\<lambda>w. (Ok sample_gen, w)), rt_restartContainer := ''gluetun''\<rparr>"

lemma docker_rt_simps [simp]:
  "rt_generateFn docker_rt = Some (\<lambda>w. (Ok sample_gen, w))" "rt_restartContainer docker_rt = ''gluetun''"
  "rt_restartFn docker_rt = None" "rt_portForwarding docker_rt = False" "rt_configHookCmd docker_rt = []"
  "rt_dockerHost docker_rt = []" "rt_dockerSocket docker_rt = []" "state_files docker_rt []"
  by (simp_all add: docker_rt_def sample_rt_def new_refreshRuntime_def sample_cli_def state_files_def mustStatePath_def Let_def)

theorem restart_after_config_witness:
  "\<exists>es1 client req es2. w_trace (snd (snd (regenerateOnce (docker_rt, calm_world hour)))) = es1 @ EvHttp client req # es2 \<and>
     hq_method req = ''POST'' \<and> in_place docker_rt sample_gen (replay es1 Map.empty)"
proof -
  let ?w = "calm_world hour" and ?path = "rt_configPath docker_rt"
  obtain now v0 where n: "time_Now ?w = (now, v0)" by (cases "time_Now ?w")
  then have v0: "calm_calls v0" "no_temps v0" "quiet ?w v0"
    using time_Now_clock [OF n] by (auto simp: time_Now_def no_temps_def calm_calls_def calm_world_def)
  have "\<not> temp_path ?path" by (rule state_files_distinct(1) [OF docker_rt_simps(8)])
  with v0 have "fst (atomicWriteFile ?path (Text (gr_Config sample_gen)) 420 v0) = Ok ()"
    by (simp add: atomicWriteFile_calm)
  then obtain v1 where 1: "atomicWriteFile ?path (Text (gr_Config sample_gen)) 420 v0 = (Ok (), v1)"
    by (cases "atomicWriteFile ?path (Text (gr_Config sample_gen)) 420 v0") auto
  obtain q v2 where 2: "RecordNewRegistration (rt_lifetime docker_rt) now v1 = (q, v2)"
    by (cases "RecordNewRegistration (rt_lifetime docker_rt) now v1")
  have "evolves ?w v2"
    using emits_evolves [OF v0(3)] aw.evolution [of v0 ?path "Text (gr_Config sample_gen)" 420]
      runs_evolves [OF RecordNewRegistration_writes [of "rt_lifetime docker_rt" v1 now]] 1 2
    by (metis evolves_trans snd_conv)
  then have url: "w_url_error v2 u = None" for u
    by (auto simp: evolves_def emits_def static_def calm_world_def)
  have trim: "TrimSpace ''gluetun'' = ''gluetun''" by code_simp
  let ?client = "dockerSocketHTTPClient defaultDockerSocket"
  have "dockerEndpoint [] [] = Ok (?client, ''http://docker'')" by (simp add: dockerEndpoint_def)
  then have via: "restartGluetun docker_rt v2 = restartDockerContainerWithClient ?client ''http://docker'' ''gluetun'' v2"
    by (simp add: restartGluetun_def restartDockerContainerVia_def)
  obtain req where req: "emits [EvHttp ?client req] v2 (snd (restartGluetun docker_rt v2))" "hq_method req = ''POST''"
    using restart_request [of "''gluetun''" v2 ?client "''http://docker''"] url trim unfolding via by auto
  obtain r rt' w' where run: "regenerateOnce (docker_rt, ?w) = (r, rt', w')" by (cases "regenerateOnce (docker_rt, ?w)")
  have hook: "runConfigHook [] d c f port v = (Ok (), v)" for d c f port v by (simp add: runConfigHook_def)
  have app: "apply_config docker_rt now sample_gen v0 = io_wrap (errors_Wrap ''gluetun restart'') (restartGluetun docker_rt v2)"
    by (simp add: apply_config_def 1 2 hook Let_def)
  obtain q3 v3 where 3: "restartGluetun docker_rt v2 = (q3, v3)" by (cases "restartGluetun docker_rt v2")
  obtain d rt4 v4 where 4: "armNextRefresh (docker_rt\<lparr>rt_lastGenerateUTC := now, rt_regenError := []\<rparr>, v3) = (d, rt4, v4)"
    by (cases "armNextRefresh (docker_rt\<lparr>rt_lastGenerateUTC := now, rt_regenError := []\<rparr>, v3)")
  have "w' \<in> {v3, v4, snd (ParseEndpointFromConfig (rt_configPath rt4) v4)}"
    using run by (cases q3) (auto simp: regenerateOnce_def n app 3 4 generate_def split: if_splits)
  then have "evolves v3 w'"
    using runs_evolves [OF armNextRefresh_result(2) [OF 4]] emits_evolves [OF ParseEndpoint_quiet]
    by (auto intro: evolves_trans)
  then obtain es1 es2 where trace: "w_trace w' = w_trace ?w @ es1 @ EvHttp ?client req # es2"
    using \<open>evolves ?w v2\<close> req(1) 3 by (auto simp: evolves_def emits_def)
  have "generate_sends_no_post docker_rt" by (simp add: generate_sends_no_post_def)
  from restart_after_config [OF docker_rt_simps(8) this docker_rt_simps(3) run trace req(2)]
  have "in_place docker_rt sample_gen (replay es1 (w_files ?w))" by (simp add: generate_def)
  with run trace req(2) show ?thesis by (auto simp: calm_world_def)
qed

text \<open>A registration one hour old, which the record of the state directory knows.\<close>

definition young_record :: LifetimeRecord where
  "young_record = fresh_LifetimeRecord\<lparr>lr_CurrentRegistrationUTC := hour\<rparr>"

theorem proactive_refresh_on_time_witness:
  "\<exists>w. fst (Load (rt_lifetime sample_rt) w) = Ok young_record \<and> w_clock w = 2 * hour \<and>
     minute \<le> fst (nextProactiveDelay sample_rt w)"
proof -
  have ok: "ok_LifetimeRecord young_record"
    by (simp add: ok_LifetimeRecord_def young_record_def in64_def json_time_ok_def fresh_LifetimeRecord_def
        zero_LifetimeRecord_def lifetimeRecordVersion_def)
  then obtain j where j: "enc_LifetimeRecord young_record = Some j" using lifetime_json.enc_total by blast
  define w where "w = (calm_world (2 * hour))\<lparr>w_files := \<lambda>_. Some \<lparr>f_content = Doc j, f_perm = 420, f_mtime = hour\<rparr>\<rparr>"
  have load: "fst (Load (rt_lifetime sample_rt) w) = Ok young_record"
    using lifetime_json.dec_enc [OF ok j]
    by (simp add: Load_result w_def calm_world_def record_of_def json_of_def young_record_def fresh_LifetimeRecord_def
        lifetimeRecordVersion_def)
  have "\<bar>SafeRefreshInterval young_record (rt_fallbackInterval sample_rt) (rt_maxRegistrationAge sample_rt)\<bar>
      + \<bar>rt_jitterMax sample_rt\<bar> < 2 ^ 63"
    by (simp add: sample_rt_def new_refreshRuntime_def sample_cli_def Let_def SafeRefreshInterval_def MeasuredLifetime_def
        young_record_def fresh_LifetimeRecord_def zero_LifetimeRecord_def minLifetimeAwareRefresh_def half_duration_exact)
  moreover have "lr_CurrentRegistrationUTC young_record \<noteq> 0" by (simp add: young_record_def)
  ultimately have "minute \<le> fst (nextProactiveDelay sample_rt w)"
    using proactive_refresh_on_time [OF load, of "fst (nextProactiveDelay sample_rt w)" "snd (nextProactiveDelay sample_rt w)"]
    by simp
  with load show ?thesis by (intro exI [of _ w]) (simp add: w_def calm_world_def)
qed


end
