(* ===== verification/Pf.thy ===== *)
theory Pf
  imports PiaClient Timing
begin

text \<open>
  pia/pf.go: the client of PIA's port-forwarding gateway. The gateway inside the tunnel issues
  a payload in base64 with a signature (\<open>GetSignature\<close>); presenting both again binds the
  port and keeps it (\<open>BindPort\<close>). The package encoding/base64 is modelled as far as it is
  used, the encoder and the query parser at the end are the gateway's side of the protocol.
\<close>

section \<open>Base64\<close>

definition b64_value :: "char \<Rightarrow> nat option" where
  "b64_value c =
     (let n = of_char c in
      if 65 \<le> n \<and> n \<le> 90 then Some (n - 65)
      else if 97 \<le> n \<and> n \<le> 122 then Some (n - 71)
      else if 48 \<le> n \<and> n \<le> 57 then Some (n + 4)
      else if n = 43 then Some 62
      else if n = 47 then Some 63
      else None)"

text \<open>Four characters are three bytes; only the last four may end in padding.\<close>

fun base64_quanta :: "string \<Rightarrow> string option" where
  "base64_quanta [] = Some []"
| "base64_quanta (a # b # c # d # rest) =
     (case (b64_value a, b64_value b) of
        (Some x, Some y) \<Rightarrow>
          if c = CHR ''='' then
            (if d = CHR ''='' \<and> rest = [] then Some [char_of (4 * x + y div 16)] else None)
          else (case b64_value c of
            None \<Rightarrow> None
          | Some z \<Rightarrow>
              if d = CHR ''='' then
                (if rest = [] then Some [char_of (4 * x + y div 16), char_of (16 * (y mod 16) + z div 4)] else None)
              else (case b64_value d of
                None \<Rightarrow> None
              | Some u \<Rightarrow>
                  map_option (append [char_of (4 * x + y div 16), char_of (16 * (y mod 16) + z div 4), char_of (64 * (z mod 4) + u)])
                    (base64_quanta rest)))
      | _ \<Rightarrow> None)"
| "base64_quanta _ = None"

text \<open>
  \<^verbatim>\<open>base64.StdEncoding.DecodeString\<close> skips line breaks. (Its error names the position, the
  model's does not.)
\<close>

definition base64_DecodeString :: "string \<Rightarrow> string res" where
  "base64_DecodeString s =
     (case base64_quanta (filter (\<lambda>c. c \<noteq> CHR 0x0A \<and> c \<noteq> CHR 0x0D) s) of
        None \<Rightarrow> Err (errors_New ''illegal base64 data'')
      | Some bs \<Rightarrow> Ok bs)"

section \<open>The client\<close>

record PFSignatureResponse =
  sg_Status :: string
  sg_Payload :: string
  sg_Signature :: string

record PFPayload =
  pl_Token :: string
  pl_Port :: int
  pl_ExpiresAt :: time
  pl_CreatedAt :: time

record PFClient =
  pf_httpClient :: http_client
  pf_verbose :: bool

definition zero_PFSignatureResponse :: PFSignatureResponse where
  "zero_PFSignatureResponse = \<lparr>sg_Status = [], sg_Payload = [], sg_Signature = []\<rparr>"

definition dec_PFSignatureResponse :: "json \<Rightarrow> PFSignatureResponse option" where
  "dec_PFSignatureResponse j =
     (case (field dec_string [] ''status'' j, field dec_string [] ''payload'' j, field dec_string [] ''signature'' j) of
        (Some st, Some p, Some s) \<Rightarrow> Some \<lparr>sg_Status = st, sg_Payload = p, sg_Signature = s\<rparr>
      | _ \<Rightarrow> None)"

definition dec_PFPayload :: "json \<Rightarrow> PFPayload option" where
  "dec_PFPayload j =
     (case (field dec_string [] ''token'' j, field dec_int 0 ''port'' j, field dec_time 0 ''expires_at'' j,
            field dec_time 0 ''created_at'' j) of
        (Some t, Some p, Some e, Some c) \<Rightarrow> Some \<lparr>pl_Token = t, pl_Port = p, pl_ExpiresAt = e, pl_CreatedAt = c\<rparr>
      | _ \<Rightarrow> None)"

definition NewPFClient :: "bool \<Rightarrow> PFClient" where
  "NewPFClient verbose = \<lparr>pf_httpClient = \<lparr>hc_transport = NoVerify, hc_timeout = 15 * second\<rparr>, pf_verbose = verbose\<rparr>"

definition normalizeGateway :: "string \<Rightarrow> string" where
  "normalizeGateway gateway = NormalizeGateway gateway"

definition signature_url :: "string \<Rightarrow> string \<Rightarrow> string" where
  "signature_url gw token = ''https://'' @ gw @ ''/getSignature?token='' @ QueryEscape token"

definition unmarshal_payload :: "string \<Rightarrow> world \<Rightarrow> PFPayload res" where
  "unmarshal_payload decoded w =
     (case Option.bind (w_json w decoded) dec_PFPayload of
        None \<Rightarrow> Err (errors_New ''invalid JSON'')
      | Some payload \<Rightarrow> Ok payload)"

definition GetSignature :: "PFClient \<Rightarrow> string \<Rightarrow> string \<Rightarrow> world \<Rightarrow> (PFSignatureResponse \<times> PFPayload) res \<times> world" where
  "GetSignature p gateway token w =
     (let gw = normalizeGateway gateway in
      if gw = [] then (Err (errors_New ''gateway is empty''), w)
      else
      io_try (http_Get (pf_httpClient p) (signature_url gw token) w) (\<lambda>resp w.
      if hr_code resp \<noteq> 200 then (Err (errors_New (''getSignature failed: '' @ hr_status resp)), w)
      else
      io_try (body_Decode dec_PFSignatureResponse resp w, w) (\<lambda>sig w.
      if sg_Status sig \<noteq> ''OK'' then (Err (errors_New (''getSignature returned status: '' @ sg_Status sig)), w)
      else
      io_try (io_wrap (errors_Wrap ''failed to decode payload'') (base64_DecodeString (sg_Payload sig), w)) (\<lambda>decoded w.
      io_try (io_wrap (errors_Wrap ''failed to parse decoded payload'') (unmarshal_payload decoded w, w)) (\<lambda>payload w.
      (Ok (sig, payload), w))))))"

text \<open>The values of the form, encoded with sorted keys.\<close>

definition bind_url :: "string \<Rightarrow> PFSignatureResponse \<Rightarrow> string" where
  "bind_url gw sig = ''https://'' @ gw @ ''/bindPort?payload='' @ QueryEscape (sg_Payload sig) @
     ''&signature='' @ QueryEscape (sg_Signature sig)"

definition dec_bindResp :: "json \<Rightarrow> (string \<times> string) option" where
  "dec_bindResp j =
     (case (field dec_string [] ''status'' j, field dec_string [] ''message'' j) of
        (Some st, Some m) \<Rightarrow> Some (st, m)
      | _ \<Rightarrow> None)"

definition BindPort :: "PFClient \<Rightarrow> string \<Rightarrow> PFSignatureResponse \<Rightarrow> world \<Rightarrow> unit res \<times> world" where
  "BindPort p gateway sig w =
     (let gw = normalizeGateway gateway in
      if gw = [] then (Err (errors_New ''gateway is empty''), w)
      else
      io_try (http_Get (pf_httpClient p) (bind_url gw sig) w) (\<lambda>resp w.
      if hr_code resp \<noteq> 200 then (Err (errors_New (''bindPort failed: '' @ hr_status resp)), w)
      else
      io_try (io_wrap (errors_Wrap ''failed to decode bindPort response'') (body_Decode dec_bindResp resp w, w)) (\<lambda>(status, message) w.
      if status \<noteq> ''OK'' then (Err (errors_New (''bindPort returned status '' @ quote status @ '': '' @ message)), w)
      else (Ok (), w))))"

section \<open>The gateway's side\<close>

definition b64_char :: "nat \<Rightarrow> char" where
  "b64_char n =
     (if n < 26 then char_of (n + 65) else if n < 52 then char_of (n + 71) else if n < 62 then char_of (48 + (n - 52))
      else if n = 62 then CHR ''+'' else CHR ''/'')"

fun base64_encode :: "string \<Rightarrow> string" where
  "base64_encode [] = []"
| "base64_encode [a] =
     (let x = of_char a in [b64_char (x div 4), b64_char (16 * (x mod 4)), CHR ''='', CHR ''=''])"
| "base64_encode [a, b] =
     (let x = of_char a; y = of_char b in
      [b64_char (x div 4), b64_char (16 * (x mod 4) + y div 16), b64_char (4 * (y mod 16)), CHR ''=''])"
| "base64_encode (a # b # c # rest) =
     (let x = of_char a; y = of_char b; z = of_char c in
      [b64_char (x div 4), b64_char (16 * (x mod 4) + y div 16), b64_char (4 * (y mod 16) + z div 64), b64_char (z mod 64)] @
      base64_encode rest)"

lemma b64_value_char: "n < 64 \<Longrightarrow> b64_value (b64_char n) = Some n"
  by (auto simp: b64_value_def b64_char_def of_char_of Let_def)

lemma b64_value_Some: "\<exists>v. b64_value (b64_char n) = Some v"
  by (cases "n < 64") (auto simp: b64_value_char, simp add: b64_char_def b64_value_def)

lemma b64_char_plain: "b64_char n \<notin> {CHR ''='', CHR 0x0A, CHR 0x0D}"
proof
  assume "b64_char n \<in> {CHR ''='', CHR 0x0A, CHR 0x0D}"
  then consider "b64_char n = CHR ''=''" | "b64_char n = CHR 0x0A" | "b64_char n = CHR 0x0D" by blast
  then have "b64_value (b64_char n) = None" by cases (simp_all add: b64_value_def)
  with b64_value_Some [of n] show False by simp
qed

lemma byte_split:
  fixes x y z :: nat
  assumes "x < 256" and "y < 256" and "z < 256"
  shows "x div 4 < 64" and "16 * (x mod 4) + y div 16 < 64" and "4 * (y mod 16) + z div 64 < 64"
    and "16 * (x mod 4) < 64" and "4 * (y mod 16) < 64" and "z mod 64 < 64"
    and "y div 16 div 16 = 0" and "16 * (y div 16 mod 16) + y mod 16 = y"
    and "z div 64 div 4 = 0" and "64 * (z div 64 mod 4) + z mod 64 = z"
proof -
  have "x mod 4 < 4" "y mod 16 < 16" by simp_all
  moreover have y: "y div 16 < 16" and z: "z div 64 < 4" using assms by (simp_all add: less_mult_imp_div_less)
  ultimately show "16 * (x mod 4) + y div 16 < 64" "4 * (y mod 16) + z div 64 < 64"
    "16 * (x mod 4) < 64" "4 * (y mod 16) < 64" by linarith+
  show "y div 16 div 16 = 0" "z div 64 div 4 = 0" "16 * (y div 16 mod 16) + y mod 16 = y"
    "64 * (z div 64 mod 4) + z mod 64 = z"
    using y z by simp_all
qed (use assms in \<open>simp_all add: less_mult_imp_div_less\<close>)

lemmas char_split = byte_split [OF nat_of_char_less_256 nat_of_char_less_256 nat_of_char_less_256]

lemma base64_quanta_encode: "base64_quanta (base64_encode bs) = Some bs"
  using b64_char_plain
  by (induction bs rule: base64_encode.induct) (simp_all add: Let_def b64_value_char char_split)

lemma base64_encode_unbroken:
  "filter (\<lambda>c. c \<noteq> CHR 0x0A \<and> c \<noteq> CHR 0x0D) (base64_encode bs) = base64_encode bs"
  using b64_char_plain by (induction bs rule: base64_encode.induct) (simp_all add: Let_def)


text \<open>A query as the receiver parses it.\<close>

definition hex_value :: "char \<Rightarrow> nat option" where
  "hex_value c =
     (let n = of_char c in
      if 48 \<le> n \<and> n \<le> 57 then Some (n - 48)
      else if 65 \<le> n \<and> n \<le> 70 then Some (n - 55)
      else if 97 \<le> n \<and> n \<le> 102 then Some (n - 87)
      else None)"

fun QueryUnescape :: "string \<Rightarrow> string option" where
  "QueryUnescape [] = Some []"
| "QueryUnescape (c # s) =
     (if c = CHR ''%'' then
        (case s of
           h # l # rest \<Rightarrow>
             (case (hex_value h, hex_value l) of
                (Some x, Some y) \<Rightarrow> map_option (Cons (char_of (16 * x + y))) (QueryUnescape rest)
              | _ \<Rightarrow> None)
         | _ \<Rightarrow> None)
      else map_option (Cons (if c = CHR ''+'' then CHR '' '' else c)) (QueryUnescape s))"

definition query_value :: "string \<Rightarrow> string \<Rightarrow> string option" where
  "query_value key url =
     (case split_first CHR ''?'' url of
        (_, None) \<Rightarrow> None
      | (_, Some q) \<Rightarrow>
          (case find (\<lambda>kv. fst (split_first CHR ''='' kv) = key) (split_on CHR ''&'' q) of
             None \<Rightarrow> None
           | Some kv \<Rightarrow> Option.bind (snd (split_first CHR ''='' kv)) QueryUnescape))"

lemma hex_value_upper: "n < 16 \<Longrightarrow> hex_value (upper_hex n) = Some n"
  by (auto simp: hex_value_def upper_hex_def of_char_of Let_def)

lemma QueryUnescape_percent: "QueryUnescape (percent c @ s) = map_option (Cons c) (QueryUnescape s)"
proof -
  have "of_char c div (16::nat) < 16" using nat_of_char_less_256 [of c] by (simp add: less_mult_imp_div_less)
  then show ?thesis by (simp add: percent_def hex_value_upper)
qed

lemma QueryUnescape_Escape: "QueryUnescape (QueryEscape s) = Some s"
proof (induction s)
  case (Cons c s)
  have "QueryUnescape (c # QueryEscape s) = Some (c # s)" if "url_unreserved c"
  proof -
    from that have "c \<noteq> CHR ''%''" "c \<noteq> CHR ''+''" by (auto simp: url_unreserved_def)
    with Cons show ?thesis by simp
  qed
  moreover have "QueryEscape (c # s) =
      (if url_unreserved c then [c] else if c = CHR '' '' then ''+'' else percent c) @ QueryEscape s"
    by (simp add: QueryEscape_def)
  ultimately show ?case using Cons by (simp add: QueryUnescape_percent)
qed (simp add: QueryEscape_def)

text \<open>Escaped values have none of the characters that structure a query.\<close>

lemma QueryEscape_structure: "CHR ''&'' \<notin> set (QueryEscape s)" "CHR ''='' \<notin> set (QueryEscape s)" "CHR ''?'' \<notin> set (QueryEscape s)"
  using QueryEscape_chars [of "CHR ''&''" s] QueryEscape_chars [of "CHR ''=''" s] QueryEscape_chars [of "CHR ''?''" s]
  by (auto simp: url_unreserved_def)

lemma query_values:
  assumes "CHR ''?'' \<notin> set gw"
  shows "query_value ''token'' (signature_url gw token) = Some token"
    and "query_value ''payload'' (bind_url gw sig) = Some (sg_Payload sig)"
    and "query_value ''signature'' (bind_url gw sig) = Some (sg_Signature sig)"
proof -
  let ?kv = "\<lambda>k v. k @ CHR ''='' # QueryEscape v"
  have 1: "split_first CHR ''?'' (signature_url gw token) =
      (''https://'' @ gw @ ''/getSignature'', Some (?kv ''token'' token))"
    using split_first_append [of "CHR ''?''" "''https://'' @ gw @ ''/getSignature''" "?kv ''token'' token"] assms
    by (simp add: signature_url_def)
  have 2: "split_first CHR ''?'' (bind_url gw sig) =
      (''https://'' @ gw @ ''/bindPort'', Some (?kv ''payload'' (sg_Payload sig) @ CHR ''&'' # ?kv ''signature'' (sg_Signature sig)))"
    using split_first_append [of "CHR ''?''" "''https://'' @ gw @ ''/bindPort''"] assms
    by (simp add: bind_url_def)
  have kv: "split_first CHR ''='' (?kv k v) = (k, Some (QueryEscape v))" if "CHR ''='' \<notin> set k" for k v
    using split_first_append [OF that] by simp
  have amp: "CHR ''&'' \<notin> set (?kv k v)" if "CHR ''&'' \<notin> set k" for k v
    using that QueryEscape_structure(1) by simp
  have 3: "split_on CHR ''&'' (?kv ''token'' token) = [?kv ''token'' token]"
    by (rule split_on_absent) (rule amp, simp)
  have 4: "split_on CHR ''&'' (?kv ''payload'' p @ CHR ''&'' # ?kv ''signature'' s) = [?kv ''payload'' p, ?kv ''signature'' s]" for p s
    using amp [of "''payload''" p] amp [of "''signature''" s]
    by (simp add: split_on_append split_on_absent del: append_Cons append_assoc split_on.simps)
  show "query_value ''token'' (signature_url gw token) = Some token"
    by (simp only: query_value_def 1) (simp add: 3 kv QueryUnescape_Escape del: append_Cons)
  show "query_value ''payload'' (bind_url gw sig) = Some (sg_Payload sig)"
    by (simp only: query_value_def 2) (simp add: 4 kv QueryUnescape_Escape del: append_Cons append_assoc)
  show "query_value ''signature'' (bind_url gw sig) = Some (sg_Signature sig)"
    by (simp only: query_value_def 2) (simp add: 4 kv QueryUnescape_Escape del: append_Cons append_assoc)
qed


section \<open>The protocol\<close>

text \<open>What the gateway answers to a request for a port: a signed payload.\<close>

definition issues :: "world \<Rightarrow> http_response \<Rightarrow> PFSignatureResponse \<Rightarrow> PFPayload \<Rightarrow> bool" where
  "issues w resp sig payload \<longleftrightarrow>
     hr_code resp = 200 \<and> Option.bind (w_json_first w (hr_body resp)) dec_PFSignatureResponse = Some sig \<and>
     sg_Status sig = ''OK'' \<and>
     (\<exists>bytes. filter (\<lambda>c. c \<noteq> CHR 0x0A \<and> c \<noteq> CHR 0x0D) (sg_Payload sig) = base64_encode bytes \<and>
        Option.bind (w_json w bytes) dec_PFPayload = Some payload)"

definition pf_http :: http_client where
  "pf_http = \<lparr>hc_transport = NoVerify, hc_timeout = 15 * second\<rparr>"

definition get_request :: "string \<Rightarrow> http_request" where
  "get_request u = \<lparr>hq_method = ''GET'', hq_url = u, hq_auth = None\<rparr>"

definition accepts :: "world \<Rightarrow> http_response \<Rightarrow> bool" where
  "accepts w resp \<longleftrightarrow> hr_code resp = 200 \<and>
     (\<exists>m. Option.bind (w_json_first w (hr_body resp)) dec_bindResp = Some (''OK'', m))"

lemma http_Get_sent:
  assumes "w_url_error w u = None"
  shows "http_Get client u w = http_Do client (get_request u) w"
  by (simp add: http_Get_def http_NewRequest_def assms get_request_def)

lemma http_Get_unsent:
  assumes "w_url_error w u = Some e"
  shows "http_Get client u w = (Err e, w)"
  by (simp add: http_Get_def http_NewRequest_def assms)

lemma body_Decode_Ok: "body_Decode dec resp w = Ok x \<longleftrightarrow> Option.bind (w_json_first w (hr_body resp)) dec = Some x"
  by (auto simp: body_Decode_def split: option.splits)

lemma http_Do_static:
  "w_json (snd (http_Do client req w)) = w_json w" "w_json_first (snd (http_Do client req w)) = w_json_first w"
  by (simp_all add: http_Do_def emit_def)

lemma GetSignature_issued:
  assumes gw: "normalizeGateway gateway = gw" "gw \<noteq> []" and url: "w_url_error w (signature_url gw token) = None"
    and reply: "shd (w_http w) = Inr resp" and issued: "issues w resp sig payload"
  shows "GetSignature (NewPFClient verbose) gateway token w =
    (Ok (sig, payload), snd (http_Do pf_http (get_request (signature_url gw token)) w))"
proof -
  let ?v = "snd (http_Do pf_http (get_request (signature_url gw token)) w)"
  from issued obtain bytes where code: "hr_code resp = 200" and sig: "body_Decode dec_PFSignatureResponse resp ?v = Ok sig"
    and ok: "sg_Status sig = ''OK''" and bytes: "base64_DecodeString (sg_Payload sig) = Ok bytes"
    and pl: "unmarshal_payload bytes ?v = Ok payload"
    by (auto simp: issues_def body_Decode_Ok http_Do_static base64_DecodeString_def base64_quanta_encode unmarshal_payload_def)
  have "http_Do pf_http (get_request (signature_url gw token)) w = (Ok resp, ?v)"
    by (simp add: http_Do_def reply)
  then have "http_Get (pf_httpClient (NewPFClient verbose)) (signature_url gw token) w = (Ok resp, ?v)"
    by (simp add: http_Get_sent [OF url] NewPFClient_def pf_http_def)
  then show ?thesis
    using gw code sig ok bytes pl by (simp add: GetSignature_def)
qed

lemma io_try_trace:
  "(\<And>x. snd (f x (snd r)) = snd r) \<Longrightarrow> snd (io_try r f) = snd r"
  using io_try_snd_cases [of r f] by auto

lemma BindPort_world:
  assumes "normalizeGateway gateway = gw" and "gw \<noteq> []" and "w_url_error w (bind_url gw sig) = None"
  shows "snd (BindPort (NewPFClient verbose) gateway sig w) = snd (http_Do pf_http (get_request (bind_url gw sig)) w)"
  using assms
  by (simp add: BindPort_def http_Get_sent NewPFClient_def pf_http_def)
    (intro io_try_trace, simp add: io_try_trace split: prod.splits)

lemma BindPort_trace:
  assumes "normalizeGateway gateway = gw" and "gw \<noteq> []" and "w_url_error w (bind_url gw sig) = None"
  shows "w_trace (snd (BindPort (NewPFClient verbose) gateway sig w)) = w_trace w @ [EvHttp pf_http (get_request (bind_url gw sig))]"
  unfolding BindPort_world [OF assms] using http_Do_emits by (simp add: emits_def)

lemma BindPort_Ok:
  assumes "normalizeGateway gateway = gw" and "gw \<noteq> []"
  shows "fst (BindPort (NewPFClient verbose) gateway sig w) = Ok () \<longleftrightarrow>
    w_url_error w (bind_url gw sig) = None \<and> (\<exists>resp. shd (w_http w) = Inr resp \<and> accepts w resp)"
proof (cases "w_url_error w (bind_url gw sig)")
  case None
  let ?v = "snd (http_Do pf_http (get_request (bind_url gw sig)) w)"
  show ?thesis
  proof (cases "shd (w_http w)")
    case (Inl e)
    with None assms show ?thesis
      by (simp add: BindPort_def http_Get_sent NewPFClient_def http_Do_def)
  next
    case (Inr resp)
    then have "http_Do pf_http (get_request (bind_url gw sig)) w = (Ok resp, ?v)"
      by (simp add: http_Do_def)
    then have get: "http_Get (pf_httpClient (NewPFClient verbose)) (bind_url gw sig) w = (Ok resp, ?v)"
      by (simp add: http_Get_sent [OF None] NewPFClient_def pf_http_def)
    have dec: "(\<exists>m. body_Decode dec_bindResp resp ?v = Ok (''OK'', m)) \<longleftrightarrow>
        (\<exists>m. Option.bind (w_json_first w (hr_body resp)) dec_bindResp = Some (''OK'', m))"
      by (simp add: body_Decode_Ok http_Do_static)
    show ?thesis
      using None Inr assms get dec [symmetric]
      by (cases "body_Decode dec_bindResp resp ?v") (auto simp: BindPort_def accepts_def split: if_splits prod.splits)
  qed
next
  case (Some e)
  with assms show ?thesis by (simp add: BindPort_def http_Get_unsent)
qed


text \<open>
  C19: The exchange with the port-forwarding gateway. When the gateway answers a request with a
  signed payload (base64, possibly broken into lines, of a JSON document), \<^verbatim>\<open>GetSignature\<close>
  returns exactly that signature and that payload after a single request, from which the
  gateway reads back the token byte by byte. A later \<^verbatim>\<open>BindPort\<close> with the signature is a
  single request, from which the gateway reads back exactly the payload and the signature it
  issued, whatever bytes they have, and it succeeds exactly when the gateway answers 200 with
  status OK.
\<close>

theorem gateway_exchange:
  assumes gw: "normalizeGateway gateway = gw" "gw \<noteq> []" "CHR ''?'' \<notin> set gw"
    and url: "w_url_error w (signature_url gw token) = None"
    and reply: "shd (w_http w) = Inr resp" and issued: "issues w resp sig payload"
    and later: "w_url_error v (bind_url gw sig) = None"
  shows "\<exists>w' u u'.
    GetSignature (NewPFClient verbose) gateway token w = (Ok (sig, payload), w') \<and>
    w_trace w' = w_trace w @ [EvHttp pf_http (get_request u)] \<and> query_value ''token'' u = Some token \<and>
    w_trace (snd (BindPort (NewPFClient verbose) gateway sig v)) = w_trace v @ [EvHttp pf_http (get_request u')] \<and>
    query_value ''payload'' u' = Some (sg_Payload sig) \<and> query_value ''signature'' u' = Some (sg_Signature sig) \<and>
    (fst (BindPort (NewPFClient verbose) gateway sig v) = Ok () \<longleftrightarrow>
       (\<exists>resp. shd (w_http v) = Inr resp \<and> accepts v resp))"
proof (intro exI conjI)
  show "GetSignature (NewPFClient verbose) gateway token w =
      (Ok (sig, payload), snd (http_Do pf_http (get_request (signature_url gw token)) w))"
    by (rule GetSignature_issued [OF gw(1,2) url reply issued])
  show "w_trace (snd (http_Do pf_http (get_request (signature_url gw token)) w)) =
      w_trace w @ [EvHttp pf_http (get_request (signature_url gw token))]"
    using http_Do_emits by (simp add: emits_def)
  show "w_trace (snd (BindPort (NewPFClient verbose) gateway sig v)) =
      w_trace v @ [EvHttp pf_http (get_request (bind_url gw sig))]"
    by (rule BindPort_trace [OF gw(1,2) later])
  show "fst (BindPort (NewPFClient verbose) gateway sig v) = Ok () \<longleftrightarrow> (\<exists>resp. shd (w_http v) = Inr resp \<and> accepts v resp)"
    using BindPort_Ok [OF gw(1,2)] later by simp
qed (rule query_values [OF gw(3)])+

definition sample_signature :: PFSignatureResponse where
  "sample_signature = \<lparr>sg_Status = ''OK'', sg_Payload = base64_encode ''{port}'', sg_Signature = ''s+/=''\<rparr>"

definition sample_payload :: PFPayload where
  "sample_payload = \<lparr>pl_Token = ''t'', pl_Port = 51820, pl_ExpiresAt = 0, pl_CreatedAt = 0\<rparr>"

text \<open>A gateway that answers every request with the sample signature.\<close>

definition gateway_world :: world where
  "gateway_world = (calm_world 1)\<lparr>
     w_json_first := (\<lambda>_. Some (JObj [(''status'', JStr ''OK''), (''payload'', JStr (base64_encode ''{port}'')), (''signature'', JStr ''s+/='')])),
     w_json := (\<lambda>s. if s = ''{port}'' then Some (JObj [(''token'', JStr ''t''), (''port'', JNum 51820)]) else None)\<rparr>"

lemma gateway_world_simps:
  "w_url_error gateway_world u = None" "shd (w_http gateway_world) = Inr calm_response"
  "w_trace gateway_world = []"
  by (simp_all add: gateway_world_def calm_world_def)

lemma gateway_issues: "issues gateway_world calm_response sample_signature sample_payload"
proof -
  have "dec_PFSignatureResponse (JObj [(''status'', JStr ''OK''), (''payload'', JStr (base64_encode ''{port}'')), (''signature'', JStr ''s+/='')]) =
      Some sample_signature" by code_simp
  moreover have "dec_PFPayload (JObj [(''token'', JStr ''t''), (''port'', JNum 51820)]) = Some sample_payload"
    by code_simp
  ultimately show ?thesis
    unfolding issues_def
    by (intro conjI exI [of _ "''{port}''"])
      (simp_all add: gateway_world_def calm_response_def sample_signature_def base64_encode_unbroken
        del: base64_encode.simps)
qed

theorem gateway_exchange_witness:
  "\<exists>w' u u'.
    GetSignature (NewPFClient False) ''10.0.0.1'' ''tok'' gateway_world = (Ok (sample_signature, sample_payload), w') \<and>
    w_trace w' = [EvHttp pf_http (get_request u)] \<and> query_value ''token'' u = Some ''tok'' \<and>
    w_trace (snd (BindPort (NewPFClient False) ''10.0.0.1'' sample_signature gateway_world)) = [EvHttp pf_http (get_request u')] \<and>
    query_value ''signature'' u' = Some ''s+/=''"
proof -
  have "normalizeGateway ''10.0.0.1'' = ''10.0.0.1:19999''" by code_simp
  from gateway_exchange [OF this _ _ gateway_world_simps(1,2) gateway_issues gateway_world_simps(1), where token = "''tok''" and verbose = False]
  show ?thesis by (auto simp: gateway_world_simps(3) sample_signature_def simp del: QueryUnescape.simps)
qed

end
