(* ===== verification/Lease.thy ===== *)
theory Lease
  imports Pf Cli Status
begin

text \<open>
  The port-forwarding lease of main.go: its shared state, acquiring it from the gateway, and
  the goroutine that renews it. Both daemons that hold a lease (\<^verbatim>\<open>pf\<close> and \<^verbatim>\<open>daemon\<close>) are
  built on this theory.
\<close>

section \<open>State\<close>

record pfLeaseState =
  ls_enabled :: bool
  ls_gateway :: string
  ls_signature :: PFSignatureResponse
  ls_port :: string

definition new_lease :: pfLeaseState where
  "new_lease = \<lparr>ls_enabled = False, ls_gateway = [], ls_signature = zero_PFSignatureResponse, ls_port = []\<rparr>"

definition lease_set :: "string \<Rightarrow> PFSignatureResponse \<Rightarrow> string \<Rightarrow> pfLeaseState \<Rightarrow> pfLeaseState" where
  "lease_set gateway sig port s =
     s\<lparr>ls_enabled := True, ls_gateway := gateway, ls_signature := sig, ls_port := port\<rparr>"

definition lease_disable :: "pfLeaseState \<Rightarrow> pfLeaseState" where
  "lease_disable s = s\<lparr>ls_enabled := False\<rparr>"

definition lease_snapshot :: "pfLeaseState \<Rightarrow> bool \<times> string \<times> PFSignatureResponse \<times> string" where
  "lease_snapshot s = (ls_enabled s, ls_gateway s, ls_signature s, ls_port s)"

section \<open>Acquiring\<close>

definition gatewayFromKeyMeta :: "AddKeyResult \<Rightarrow> string res" where
  "gatewayFromKeyMeta keyMeta =
     (let gateway = TrimSpace (ak_Gateway keyMeta);
          gateway = (if gateway = [] then TrimSpace (ak_ServerVip keyMeta) else gateway)
      in if gateway = [] then Err (errors_New ''port forwarding enabled but no gateway/server_vip returned by API'')
         else Ok gateway)"

definition acquireAndBindPort ::
  "AddKeyResult \<Rightarrow> bool \<Rightarrow> PIAClient \<times> world \<Rightarrow> (string \<times> PFSignatureResponse \<times> string) res \<times> PIAClient \<times> world" where
  "acquireAndBindPort keyMeta verbose s =
     io_try (gatewayFromKeyMeta keyMeta, s) (\<lambda>gateway s.
     io_try (GetToken s) (\<lambda>token s.
     let pfClient = NewPFClient verbose in
     io_try (on_world (GetSignature pfClient gateway token) s) (\<lambda>(sig, payload) s.
     io_try (on_world (BindPort pfClient gateway sig) s) (\<lambda>_ s.
     (Ok (Itoa (pl_Port payload), sig, gateway), s)))))"

text \<open>
  Early return of an operation whose loops have a bound on their rounds; \<open>None\<close> is an
  operation that is still running.
\<close>

definition fuel_try :: "('a res \<times> 'w) option \<Rightarrow> ('a \<Rightarrow> 'w \<Rightarrow> ('b res \<times> 'w) option) \<Rightarrow> ('b res \<times> 'w) option" where
  "fuel_try m f =
     (case m of
        None \<Rightarrow> None
      | Some (Ok x, w) \<Rightarrow> f x w
      | Some (Err e, w) \<Rightarrow> Some (Err e, w)
      | Some (Panic s, w) \<Rightarrow> Some (Panic s, w))"

text \<open>An operation on the world, in a state that carries more.\<close>

definition fuel_on_world :: "(world \<Rightarrow> ('a res \<times> world) option) \<Rightarrow> 'c \<times> world \<Rightarrow> ('a res \<times> 'c \<times> world) option" where
  "fuel_on_world m s = map_option (\<lambda>(r, w). (r, fst s, w)) (m (snd s))"

definition acquirePortForwardAfterGatewayWait ::
  "nat \<Rightarrow> AddKeyResult \<Rightarrow> bool \<Rightarrow> duration \<Rightarrow> duration \<Rightarrow> bool \<Rightarrow> PIAClient \<times> world \<Rightarrow>
   ((string \<times> PFSignatureResponse \<times> string) res \<times> PIAClient \<times> world) option" where
  "acquirePortForwardAfterGatewayWait fuel keyMeta waitEnabled timeout interval verbose s =
     fuel_try (Some (gatewayFromKeyMeta keyMeta, s)) (\<lambda>gateway s.
     fuel_try (if waitEnabled then fuel_on_world (waitForGateway fuel gateway timeout interval) s
               else Some (Ok (), s)) (\<lambda>_ s.
     Some (acquireAndBindPort keyMeta verbose s)))"

section \<open>Renewing\<close>

text \<open>
  The goroutine of \<^verbatim>\<open>startPFRenewLoop\<close>: on every tick it copies the lease and, when it is
  enabled, binds the port again. The copy and the request are two steps, so the lease may
  change in between; \<open>rn_held\<close> is the copy the goroutine holds between them.
\<close>

record renewer =
  rn_due :: time
  rn_held :: "(string \<times> PFSignatureResponse \<times> string) option"

definition startPFRenewLoop :: "time \<Rightarrow> renewer" where
  "startPFRenewLoop now = \<lparr>rn_due = now + defaultPFRenewInterval, rn_held = None\<rparr>"

definition renew_tick :: "pfLeaseState \<Rightarrow> time \<Rightarrow> renewer \<Rightarrow> renewer" where
  "renew_tick lease now r =
     (let (enabled, gateway, sig, port) = lease_snapshot lease in
      \<lparr>rn_due = next_tick defaultPFRenewInterval (rn_due r) now,
       rn_held = (if enabled then Some (gateway, sig, port) else None)\<rparr>)"

text \<open>The outcome of the renewal is only logged.\<close>

definition renew_bind :: "bool \<Rightarrow> string \<times> PFSignatureResponse \<times> string \<Rightarrow> world \<Rightarrow> world" where
  "renew_bind verbose held w =
     (case held of (gateway, sig, port) \<Rightarrow> snd (BindPort (NewPFClient verbose) gateway sig w))"


section \<open>What a lease is\<close>

lemma fuel_try_simps [simp]:
  "fuel_try None f = None" "fuel_try (Some (Ok x, w)) f = f x w"
  "fuel_try (Some (Err e, w)) f = Some (Err e, w)" "fuel_try (Some (Panic m, w)) f = Some (Panic m, w)"
  by (simp_all add: fuel_try_def)

lemma io_try_eq_Ok: "io_try r f = (Ok y, w') \<longleftrightarrow> (\<exists>x w. r = (Ok x, w) \<and> f x w = (Ok y, w'))"
proof -
  obtain a w where "r = (a, w)" by (cases r)
  then show ?thesis by (cases a) auto
qed

lemma io_wrap_eq_Ok: "io_wrap h r = (Ok y, w') \<longleftrightarrow> r = (Ok y, w')"
  by (cases r) simp

text \<open>
  A port with the signature that entitles to it: the gateway said OK, and the payload it signed
  is the base64 of a JSON document with that port.
\<close>

definition signed_port :: "world \<Rightarrow> string \<times> PFSignatureResponse \<times> string \<Rightarrow> bool" where
  "signed_port w l \<longleftrightarrow> (case l of (gateway, sig, port) \<Rightarrow>
     NormalizeGateway gateway \<noteq> [] \<and> sg_Status sig = ''OK'' \<and>
     (\<exists>bytes payload. base64_DecodeString (sg_Payload sig) = Ok bytes \<and>
        Option.bind (w_json w bytes) dec_PFPayload = Some payload \<and> port = Itoa (pl_Port payload)))"

lemma signed_port_static: "static w' = static w \<Longrightarrow> signed_port w' l = signed_port w l"
  by (simp add: signed_port_def static_def)

lemma GetSignature_runs:
  assumes "allows P"
  shows "runs P w (snd (GetSignature p gateway token w))"
  unfolding GetSignature_def Let_def using assms
  by (auto intro!: runs_io_try intro: http_Get_runs)

lemma BindPort_runs:
  assumes "allows P"
  shows "runs P w (snd (BindPort p gateway sig w))"
  unfolding BindPort_def Let_def using assms
  by (auto intro!: runs_io_try intro: http_Get_runs)

lemma GetSignature_Ok:
  assumes "GetSignature p gateway token w = (Ok (sig, payload), w')"
  shows "signed_port w' (gateway, sig, Itoa (pl_Port payload))"
  using assms
  by (auto simp: GetSignature_def normalizeGateway_def Let_def io_try_eq_Ok io_wrap_eq_Ok signed_port_def
      unmarshal_payload_def split: if_splits option.splits)

lemma on_world_eq: "on_world m (p, w) = (r, p', w') \<longleftrightarrow> m w = (r, w') \<and> p' = p"
  by (auto simp: on_world_def split: prod.splits)

lemma acquire_runs:
  assumes "permits P"
  shows "runs P (snd s) (snd (snd (acquireAndBindPort keyMeta verbose s)))"
proof -
  have P: "allows P" using assms by (simp add: permits_def)
  have "runs P (snd t) (snd (snd (on_world m t)))" if "\<And>w. runs P w (snd (m w))" for m and t :: "PIAClient \<times> world"
    using that [of "snd t"] by (cases "m (snd t)") (simp add: on_world_def)
  note world = this [OF GetSignature_runs [OF P]] this [OF BindPort_runs [OF P]]
  show ?thesis
    unfolding acquireAndBindPort_def Let_def case_prod_unfold
    by (intro runs_threaded) (simp_all add: GetToken_runs [OF assms] world)
qed

lemma acquire_signed:
  assumes "acquireAndBindPort keyMeta verbose (p, w) = (Ok (port, sig, gateway), p', w')"
  shows "signed_port w' (gateway, sig, port)"
proof -
  obtain payload t1 v p1 x where 1: "GetSignature (NewPFClient verbose) gateway t1 v = (Ok (sig, payload), p1)"
    and 2: "port = Itoa (pl_Port payload)" and 3: "BindPort (NewPFClient verbose) gateway sig p1 = (Ok x, w')"
    using assms by (auto simp only: acquireAndBindPort_def Let_def io_try_eq_Ok on_world_eq split_paired_Ex prod.case prod.inject res.inject)
  from 3 have "net_run p1 w'" using BindPort_runs [of net_effect p1 "NewPFClient verbose" gateway sig] by simp
  from signed_port_static [OF runsD [OF this]] GetSignature_Ok [OF 1] 2 show ?thesis by blast
qed

text \<open>The wait for the gateway ends, so acquiring a lease does.\<close>

definition enough_rounds :: "duration \<Rightarrow> duration \<Rightarrow> nat" where
  "enough_rounds timeout interval =
     Suc (nat (timeout div (if interval \<le> 0 then 5 * second else interval) + 1))"

lemma enough_rounds_suffice:
  assumes "forward_clock w"
  shows "\<exists>r. waitForGateway (enough_rounds timeout interval) gateway timeout interval w = Some r"
  unfolding enough_rounds_def
proof (rule waitForGateway_ends [OF assms])
  let ?d = "if interval \<le> 0 then 5 * second else interval"
  have d: "0 < ?d" by simp
  have "timeout = timeout div ?d * ?d + timeout mod ?d" by simp
  also have "\<dots> \<le> (timeout div ?d + 1) * ?d" using pos_mod_bound [OF d, of timeout] by (simp only: distrib_right)
  also have "\<dots> \<le> int (nat (timeout div ?d + 1)) * ?d" using d by (intro mult_right_mono) simp_all
  finally show "timeout \<le> int (nat (timeout div ?d + 1)) * ?d" .
qed

lemma acquire_ends:
  assumes "forward_clock (snd s)"
  shows "\<exists>r. acquirePortForwardAfterGatewayWait (enough_rounds timeout interval) keyMeta waitEnabled timeout interval verbose s = Some r"
proof (cases "gatewayFromKeyMeta keyMeta")
  case (Ok gateway)
  obtain r v where "waitForGateway (enough_rounds timeout interval) gateway timeout interval (snd s) = Some (r, v)"
    using enough_rounds_suffice [OF assms] by fastforce
  with Ok show ?thesis
    by (cases r) (simp_all add: acquirePortForwardAfterGatewayWait_def fuel_on_world_def del: split_paired_Ex)
qed (simp_all add: acquirePortForwardAfterGatewayWait_def del: split_paired_Ex)

text \<open>After a wait, the lease is acquired or not.\<close>

lemma acquire_after_wait:
  assumes "acquirePortForwardAfterGatewayWait n keyMeta waitEnabled timeout interval verbose s = Some r"
  shows "(\<exists>e. fst r = Err e \<and> net_run (snd s) (snd (snd r))) \<or>
    (\<exists>v. net_run (snd s) v \<and> r = acquireAndBindPort keyMeta verbose (fst s, v))"
proof -
  show ?thesis
  proof (cases "gatewayFromKeyMeta keyMeta")
    case (Ok gateway)
    show ?thesis
    proof (cases waitEnabled)
      case True
      with Ok assms obtain q v where w: "waitForGateway n gateway timeout interval (snd s) = Some (q, v)"
        by (cases "waitForGateway n gateway timeout interval (snd s)")
          (auto simp: acquirePortForwardAfterGatewayWait_def fuel_on_world_def)
      have "r = (case q of Ok _ \<Rightarrow> acquireAndBindPort keyMeta verbose (fst s, v) | Err e \<Rightarrow> (Err e, fst s, v) | Panic m \<Rightarrow> (Panic m, fst s, v))"
        using assms True Ok w
        by (cases q) (simp_all add: acquirePortForwardAfterGatewayWait_def fuel_on_world_def)
      with waitForGateway_net_run [OF w] show ?thesis by (cases q) auto
    qed (use Ok assms in \<open>auto simp: acquirePortForwardAfterGatewayWait_def intro!: exI [of _ "snd s"]\<close>)
  next
    case (Panic m)
    then show ?thesis by (simp add: gatewayFromKeyMeta_def Let_def split: if_splits)
  qed (use assms in \<open>auto simp: acquirePortForwardAfterGatewayWait_def\<close>)
qed

lemma acquire_wait_runs:
  assumes "acquirePortForwardAfterGatewayWait n keyMeta waitEnabled timeout interval verbose s = Some r"
  shows "evolves (snd s) (snd (snd r))"
proof -
  have "evolves v (snd (snd (acquireAndBindPort keyMeta verbose (fst s, v))))" for v
    using runs_evolves [OF acquire_runs [OF permits_True, of "(fst s, v)"]] by simp
  then show ?thesis using acquire_after_wait [OF assms] by (auto dest: runs_evolves intro: evolves_trans)
qed

end
