(* ===== verification/PfDaemon.thy ===== *)
theory PfDaemon
  imports Lease
begin

text \<open>
  pf_daemon.go, the daemon that runs inside the tunnel's network namespace: it polls the
  pending port forward the refresh daemon leaves, acquires a lease once per registration and
  keeps it with the renewing goroutine of \<open>Lease\<close>.

  A run interleaves polls, the two steps of the renewing goroutine, the passing of time and the
  writes of the refresh daemon to the pending file. A poll is one step: the lease, the only
  state it shares with the goroutine, is touched at its end only, and the requests of the two
  do not depend on each other.
\<close>

section \<open>The command\<close>

record pf_options =
  po_username :: string
  po_password :: string
  po_verbose :: bool
  po_region :: string
  po_waitEnabled :: bool
  po_gatewayTimeout :: duration
  po_gatewayInterval :: duration
  po_pollInterval :: duration
  po_portHookCmd :: string
  po_pendingPFPath :: string
  po_forwardedPortPath :: string

record pf_vars =
  pv_lease :: pfLeaseState
  pv_activeRegistration :: time
  pv_lastPort :: string

definition pf_options_of :: "cli_context \<Rightarrow> string \<Rightarrow> string \<Rightarrow> pf_options" where
  "pf_options_of c username password =
     (let stateDir = TrimSpace (c_String c ''state-dir'') in
      \<lparr>po_username = username, po_password = password, po_verbose = c_Bool c ''verbose'', po_region = region_option c,
       po_waitEnabled = c_Bool c ''wait-for-gateway'', po_gatewayTimeout = c_Duration c ''gateway-timeout'',
       po_gatewayInterval = c_Duration c ''gateway-check-interval'', po_pollInterval = c_Duration c ''poll-interval'',
       po_portHookCmd = c_String c ''on-port-change'',
       po_pendingPFPath = mustStatePath stateDir defaultPendingPFName,
       po_forwardedPortPath = mustStatePath stateDir defaultForwardedPortOut\<rparr>)"

text \<open>A new port is announced to the hook, whose outcome is ignored.\<close>

definition announce_port :: "string \<Rightarrow> string \<Rightarrow> string \<Rightarrow> world \<Rightarrow> string \<times> world" where
  "announce_port portHookCmd portStr lastPort w =
     (if portStr \<noteq> lastPort then (portStr, snd (runHook portHookCmd portStr w)) else (lastPort, w))"

definition pf_acquired :: "pf_options \<Rightarrow> pendingPortForward \<Rightarrow> string \<times> PFSignatureResponse \<times> string \<Rightarrow> pf_vars \<times> world \<Rightarrow> pf_vars \<times> world" where
  "pf_acquired opts pending l s =
     (let (portStr, sig, gw) = l; (v, w) = s;
          (_, w) = atomicWriteFile (po_forwardedPortPath opts) (Text portStr) 420 w;
          (lastPort, w) = announce_port (po_portHookCmd opts) portStr (pv_lastPort v) w
      in (\<lparr>pv_lease = lease_set gw sig portStr (pv_lease v), pv_activeRegistration = pp_CreatedUTC pending,
           pv_lastPort = lastPort\<rparr>, w))"

text \<open>The body of the loop of \<^verbatim>\<open>runPF\<close>, one tick of the poll ticker.\<close>

definition pf_poll :: "nat \<Rightarrow> pf_options \<Rightarrow> pf_vars \<times> world \<Rightarrow> (unit res \<times> pf_vars \<times> world) option" where
  "pf_poll fuel opts s =
     (let (v, w) = s in
      case readPendingPortForward (po_pendingPFPath opts) w of
        (Panic m, w) \<Rightarrow> Some (Panic m, v, w)
      | (Err _, w) \<Rightarrow> Some (Ok (), v, w)
      | (Ok None, w) \<Rightarrow> Some (Ok (), v, w)
      | (Ok (Some pending), w) \<Rightarrow>
          if \<not> time_After (pp_CreatedUTC pending) (pv_activeRegistration v) then Some (Ok (), v, w)
          else
          (case NewPIAClient (po_username opts) (po_password opts) (po_region opts) (po_verbose opts) True w of
             (Panic m, w) \<Rightarrow> Some (Panic m, v, w)
           | (Err _, w) \<Rightarrow> Some (Ok (), v, w)
           | (Ok piaClient, w) \<Rightarrow>
               (case acquirePortForwardAfterGatewayWait fuel (pp_Key pending) (po_waitEnabled opts)
                       (po_gatewayTimeout opts) (po_gatewayInterval opts) (po_verbose opts) (piaClient, w) of
                  None \<Rightarrow> None
                | Some (Panic m, _, w) \<Rightarrow> Some (Panic m, v, w)
                | Some (Err _, _, w) \<Rightarrow> Some (Ok (), v\<lparr>pv_lease := lease_disable (pv_lease v)\<rparr>, w)
                | Some (Ok l, _, w) \<Rightarrow> Some (Ok (), pf_acquired opts pending l (v, w)))))"

record pf_loop =
  pl_vars :: pf_vars
  pl_world :: world
  pl_renewer :: renewer
  pl_tick :: time

text \<open>\<^verbatim>\<open>runPF\<close> up to its loop.\<close>

definition runPF :: "cli_context \<Rightarrow> world \<Rightarrow> (pf_options \<times> pf_loop) res \<times> world" where
  "runPF c w =
     io_try (resolveCredentials c, w) (\<lambda>(username, password) w.
     let opts = pf_options_of c username password; r = startPFRenewLoop (w_clock w) in
     if po_pollInterval opts \<le> 0 then (Panic ticker_panic, w)
     else (Ok (opts, \<lparr>pl_vars = \<lparr>pv_lease = new_lease, pv_activeRegistration = 0, pv_lastPort = []\<rparr>,
                      pl_world = w, pl_renewer = r, pl_tick = w_clock w + po_pollInterval opts\<rparr>), w))"

datatype pf_state = PfRunning pf_loop | PfCrashed string world

inductive pf_step :: "pf_options \<Rightarrow> pf_state \<Rightarrow> pf_state \<Rightarrow> bool" for opts where
  poll: "pl_tick l \<le> w_clock (pl_world l) \<Longrightarrow> pf_poll n opts (pl_vars l, pl_world l) = Some (Ok (), v, w) \<Longrightarrow>
     pf_step opts (PfRunning l)
       (PfRunning (l\<lparr>pl_vars := v, pl_world := w,
                     pl_tick := next_tick (po_pollInterval opts) (pl_tick l) (w_clock (pl_world l))\<rparr>))"
| poll_panic: "pl_tick l \<le> w_clock (pl_world l) \<Longrightarrow> pf_poll n opts (pl_vars l, pl_world l) = Some (Panic m, v, w) \<Longrightarrow>
     pf_step opts (PfRunning l) (PfCrashed m w)"
| renew_tick: "rn_due (pl_renewer l) \<le> w_clock (pl_world l) \<Longrightarrow> rn_held (pl_renewer l) = None \<Longrightarrow>
     pf_step opts (PfRunning l)
       (PfRunning (l\<lparr>pl_renewer := renew_tick (pv_lease (pl_vars l)) (w_clock (pl_world l)) (pl_renewer l)\<rparr>))"
| renew_bind: "rn_held (pl_renewer l) = Some held \<Longrightarrow>
     pf_step opts (PfRunning l)
       (PfRunning (l\<lparr>pl_world := renew_bind (po_verbose opts) held (pl_world l),
                     pl_renewer := (pl_renewer l)\<lparr>rn_held := None\<rparr>\<rparr>))"
| registration: "pf_step opts (PfRunning l)
     (PfRunning (l\<lparr>pl_world := (pl_world l)\<lparr>w_files := (w_files (pl_world l))(po_pendingPFPath opts := f)\<rparr>\<rparr>))"
| wait: "0 \<le> d \<Longrightarrow>
     pf_step opts (PfRunning l)
       (PfRunning (l\<lparr>pl_world := (pl_world l)\<lparr>w_clock := w_clock (pl_world l) + d\<rparr>\<rparr>))"

inductive_cases pf_stepE: "pf_step opts s t"

section \<open>A poll\<close>

lemma readPending_quiet: "quiet w (snd (readPendingPortForward p w))"
  using ReadFile_quiet [of w p] by (auto simp: readPendingPortForward_def split: prod.splits res.splits option.splits)

lemma readPending_no_panic: "fst (readPendingPortForward p w) \<noteq> Panic m"
  by (auto simp: readPendingPortForward_def ReadFile_eq split: prod.splits res.splits option.splits)

text \<open>
  What a poll does: nothing but reading when there is no newer registration, otherwise it
  fails to acquire a lease, or acquires one.
\<close>

lemma announce_port_last [simp]: "fst (announce_port cmd port prev w) = port"
  by (simp add: announce_port_def)

lemma announce_port_net_run: "net_run w (snd (announce_port cmd port prev w))"
  by (simp add: announce_port_def runHook_net_run)

lemma pf_acquired_result:
  assumes "pf_acquired opts pending (portStr, sig, gw) (v, w) = (v', w')"
  shows "v' = \<lparr>pv_lease = lease_set gw sig portStr (pv_lease v), pv_activeRegistration = pp_CreatedUTC pending, pv_lastPort = portStr\<rparr>"
    and "evolves w w'"
proof -
  let ?u = "snd (atomicWriteFile (po_forwardedPortPath opts) (Text portStr) 420 w)"
  have "v' = \<lparr>pv_lease = lease_set gw sig portStr (pv_lease v), pv_activeRegistration = pp_CreatedUTC pending,
        pv_lastPort = fst (announce_port (po_portHookCmd opts) portStr (pv_lastPort v) ?u)\<rparr> \<and>
      w' = snd (announce_port (po_portHookCmd opts) portStr (pv_lastPort v) ?u)"
    using assms by (simp add: pf_acquired_def Let_def case_prod_unfold)
  moreover have "evolves w ?u" by (rule runs_evolves [OF aw.writes])
  moreover have "evolves ?u (snd (announce_port cmd port prev ?u))" for cmd port prev
    by (rule runs_evolves [OF announce_port_net_run])
  ultimately show "v' = \<lparr>pv_lease = lease_set gw sig portStr (pv_lease v), pv_activeRegistration = pp_CreatedUTC pending, pv_lastPort = portStr\<rparr>"
    and "evolves w w'" by (simp, meson evolves_trans)
qed


text \<open>The registration a poll finds in the pending file, if it has to act on it.\<close>

definition new_registration :: "pf_options \<Rightarrow> pf_vars \<Rightarrow> world \<Rightarrow> pendingPortForward option" where
  "new_registration opts v w =
     (case fst (readPendingPortForward (po_pendingPFPath opts) w) of
        Ok (Some pending) \<Rightarrow> if pv_activeRegistration v < pp_CreatedUTC pending then Some pending else None
      | _ \<Rightarrow> None)"

lemma pf_poll_idle:
  assumes "new_registration opts v w = None"
  shows "pf_poll n opts (v, w) = Some (Ok (), v, snd (readPendingPortForward (po_pendingPFPath opts) w))"
proof (cases "readPendingPortForward (po_pendingPFPath opts) w")
  case (Pair r w1)
  with assms readPending_no_panic [of "po_pendingPFPath opts" w] show ?thesis
    by (auto simp: pf_poll_def new_registration_def time_ops split: res.splits option.splits if_splits)
qed

lemma pf_poll_acts:
  assumes "new_registration opts v w = Some pending"
  shows "pf_poll n opts (v, w) =
     (case NewPIAClient (po_username opts) (po_password opts) (po_region opts) (po_verbose opts) True
             (snd (readPendingPortForward (po_pendingPFPath opts) w)) of
        (Panic m, w) \<Rightarrow> Some (Panic m, v, w)
      | (Err _, w) \<Rightarrow> Some (Ok (), v, w)
      | (Ok piaClient, w) \<Rightarrow>
          (case acquirePortForwardAfterGatewayWait n (pp_Key pending) (po_waitEnabled opts)
                  (po_gatewayTimeout opts) (po_gatewayInterval opts) (po_verbose opts) (piaClient, w) of
             None \<Rightarrow> None
           | Some (Panic m, _, w) \<Rightarrow> Some (Panic m, v, w)
           | Some (Err _, _, w) \<Rightarrow> Some (Ok (), v\<lparr>pv_lease := lease_disable (pv_lease v)\<rparr>, w)
           | Some (Ok l, _, w) \<Rightarrow> Some (Ok (), pf_acquired opts pending l (v, w))))"
proof (cases "readPendingPortForward (po_pendingPFPath opts) w")
  case (Pair r w1)
  with assms have "r = Ok (Some pending) \<and> pv_activeRegistration v < pp_CreatedUTC pending"
    by (auto simp: new_registration_def split: res.splits option.splits if_splits)
  with Pair show ?thesis by (simp add: pf_poll_def time_ops)
qed

text \<open>The three outcomes of a poll.\<close>

definition poll_outcome :: "pf_options \<Rightarrow> pf_vars \<Rightarrow> world \<Rightarrow> unit res \<Rightarrow> pf_vars \<Rightarrow> world \<Rightarrow> bool" where
  "poll_outcome opts v w r v' w' \<longleftrightarrow>
     v' = v \<or> v' = v\<lparr>pv_lease := lease_disable (pv_lease v)\<rparr> \<or>
     (\<exists>pending port sig gw. new_registration opts v w = Some pending \<and> r = Ok () \<and> signed_port w' (gw, sig, port) \<and>
        v' = \<lparr>pv_lease = lease_set gw sig port (pv_lease v), pv_activeRegistration = pp_CreatedUTC pending, pv_lastPort = port\<rparr>)"

lemma pf_poll_outcome:
  assumes "pf_poll n opts (v, w) = Some (r, v', w')"
  shows "poll_outcome opts v w r v' w'" and "evolves w w'"
proof -
  let ?w1 = "snd (readPendingPortForward (po_pendingPFPath opts) w)"
  have w1: "evolves w ?w1" by (rule emits_evolves [OF readPending_quiet])
  have "poll_outcome opts v w r v' w' \<and> evolves w w'"
  proof (cases "new_registration opts v w")
    case None
    with assms w1 show ?thesis by (simp add: pf_poll_idle poll_outcome_def)
  next
    case (Some pending)
    obtain c w2 where c: "NewPIAClient (po_username opts) (po_password opts) (po_region opts) (po_verbose opts) True ?w1 = (c, w2)"
      by fastforce
    have w2: "evolves w w2"
      using w1 runs_evolves [OF NewPIAClient_runs [OF permits_True]] c evolves_trans by (metis snd_conv)
    show ?thesis
    proof (cases c)
      case (Ok p)
      with assms Some c obtain l where l: "acquirePortForwardAfterGatewayWait n (pp_Key pending) (po_waitEnabled opts)
          (po_gatewayTimeout opts) (po_gatewayInterval opts) (po_verbose opts) (p, w2) = Some l"
        by (auto simp: pf_poll_acts split: option.splits)
      obtain q p3 w3 where q: "l = (q, p3, w3)" by (cases l)
      have w3: "evolves w w3" using w2 acquire_wait_runs [OF l] q evolves_trans by fastforce
      show ?thesis
      proof (cases q)
        case (Ok x)
        obtain port sig gw where x: "x = (port, sig, gw)" by (cases x)
        have acq: "pf_acquired opts pending (port, sig, gw) (v, w3) = (v', w')" and r: "r = Ok ()"
          using assms Some c \<open>c = Ok p\<close> l q Ok x by (auto simp: pf_poll_acts)
        obtain u where "acquireAndBindPort (pp_Key pending) (po_verbose opts) (p, u) = (Ok (port, sig, gw), p3, w3)"
          using acquire_after_wait [OF l] q Ok x by auto
        from acquire_signed [OF this] have "signed_port w3 (gw, sig, port)" .
        moreover have "static w' = static w3"
          using pf_acquired_result(2) [OF acq] by (auto simp: evolves_def emits_def)
        ultimately have "signed_port w' (gw, sig, port)" using signed_port_static by blast
        with pf_acquired_result [OF acq] Some r w3 show ?thesis
          by (auto simp: poll_outcome_def intro: evolves_trans)
      qed (use assms Some c \<open>c = Ok p\<close> l q w3 in \<open>auto simp: pf_poll_acts poll_outcome_def\<close>)
    qed (use assms Some c w2 in \<open>auto simp: pf_poll_acts poll_outcome_def\<close>)
  qed
  then show "poll_outcome opts v w r v' w'" and "evolves w w'" by simp_all
qed


text \<open>A poll ends: the wait for the gateway is its only loop.\<close>

lemma pf_poll_ends:
  assumes "forward_clock w"
  shows "\<exists>q. pf_poll (enough_rounds (po_gatewayTimeout opts) (po_gatewayInterval opts)) opts (v, w) = Some q"
proof (cases "new_registration opts v w")
  case None
  then show ?thesis by (simp add: pf_poll_idle del: split_paired_Ex)
next
  case (Some pending)
  let ?w1 = "snd (readPendingPortForward (po_pendingPFPath opts) w)"
  obtain c w2 where c: "NewPIAClient (po_username opts) (po_password opts) (po_region opts) (po_verbose opts) True ?w1 = (c, w2)"
    by fastforce
  have "evolves w ?w1" by (rule emits_evolves [OF readPending_quiet])
  moreover have "evolves ?w1 w2" using runs_evolves [OF NewPIAClient_runs [OF permits_True]] c by (metis snd_conv)
  ultimately have "evolves w w2" by (rule evolves_trans)
  with assms have w2: "forward_clock (snd (p, w2))" for p :: PIAClient
    using evolves_clock by (simp add: clock_ahead_def)
  have last: "\<exists>q. (case x of (Panic m, _, w) \<Rightarrow> Some (Panic m, v, w)
      | (Err _, _, w) \<Rightarrow> Some (Ok (), v\<lparr>pv_lease := lease_disable (pv_lease v)\<rparr>, w)
      | (Ok l, _, w) \<Rightarrow> Some (Ok (), pf_acquired opts pending l (v, w))) = Some q" for x :: "_ \<times> PIAClient \<times> world"
    by (cases x; cases "fst x") (simp_all del: split_paired_Ex)
  show ?thesis
  proof (cases c)
    case (Ok p)
    from acquire_ends [OF w2] obtain x where
      "acquirePortForwardAfterGatewayWait (enough_rounds (po_gatewayTimeout opts) (po_gatewayInterval opts))
        (pp_Key pending) (po_waitEnabled opts) (po_gatewayTimeout opts) (po_gatewayInterval opts) (po_verbose opts) (p, w2) = Some x"
      by blast
    with last [of x] Ok c show ?thesis by (simp add: pf_poll_acts [OF Some] del: split_paired_Ex)
  qed (simp_all add: pf_poll_acts [OF Some] c del: split_paired_Ex)
qed

section \<open>Runs\<close>

text \<open>
  The lease and the copy the goroutine holds are ports with their signatures, and the port of
  the lease is the one that was announced last.
\<close>

definition lease_triple :: "pfLeaseState \<Rightarrow> string \<times> PFSignatureResponse \<times> string" where
  "lease_triple s = (ls_gateway s, ls_signature s, ls_port s)"

fun pf_consistent :: "pf_state \<Rightarrow> bool" where
  "pf_consistent (PfRunning l) \<longleftrightarrow>
     (ls_enabled (pv_lease (pl_vars l)) \<longrightarrow>
        signed_port (pl_world l) (lease_triple (pv_lease (pl_vars l))) \<and>
        ls_port (pv_lease (pl_vars l)) = pv_lastPort (pl_vars l)) \<and>
     (\<forall>held. rn_held (pl_renewer l) = Some held \<longrightarrow> signed_port (pl_world l) held)"
| "pf_consistent (PfCrashed m w) \<longleftrightarrow> True"

lemma evolves_static: "evolves w w' \<Longrightarrow> static w' = static w"
  by (auto simp: evolves_def emits_def)

lemma signed_port_same: "signed_port (w\<lparr>w_files := fs\<rparr>) l = signed_port w l" "signed_port (w\<lparr>w_clock := t\<rparr>) l = signed_port w l"
  by (simp_all add: signed_port_def)

lemma renew_bind_evolves: "evolves w (renew_bind verbose held w)"
  using runs_evolves [OF BindPort_runs [OF allows_simps(1)]] by (cases held) (auto simp: renew_bind_def)

lemma lease_triple_ops [simp]:
  "ls_enabled (lease_set gw sig port s)" "lease_triple (lease_set gw sig port s) = (gw, sig, port)"
  "ls_port (lease_set gw sig port s) = port" "\<not> ls_enabled (lease_disable s)"
  by (simp_all add: lease_set_def lease_disable_def lease_triple_def)

interpretation pf_lease: step_invariant "pf_step opts" pf_consistent for opts
proof
  fix s t assume "pf_step opts s t" and inv: "pf_consistent s"
  then show "pf_consistent t"
  proof cases
    case (poll l n v w)
    from pf_poll_outcome [OF poll(4)] have out: "poll_outcome opts (pl_vars l) (pl_world l) (Ok ()) v w"
      and "static w = static (pl_world l)" by (auto intro: evolves_static)
    note same = signed_port_static [OF this(2)]
    from out inv poll(1,2) show ?thesis
      unfolding poll_outcome_def by (elim disjE exE conjE) (simp_all add: same)
  next
    case (renew_tick l)
    with inv show ?thesis by (auto simp: renew_tick_def lease_snapshot_def lease_triple_def)
  next
    case (renew_bind l held)
    note same = signed_port_static [OF evolves_static [OF renew_bind_evolves]]
    from inv renew_bind show ?thesis by (simp add: same)
  qed (use inv in \<open>simp_all add: signed_port_same\<close>)
qed

text \<open>The active registration only moves forward.\<close>

fun active_since :: "time \<Rightarrow> pf_state \<Rightarrow> bool" where
  "active_since t (PfRunning l) \<longleftrightarrow> t \<le> pv_activeRegistration (pl_vars l)"
| "active_since t (PfCrashed m w) \<longleftrightarrow> True"

lemma new_registration_newer: "new_registration opts v w = Some pending \<Longrightarrow> pv_activeRegistration v < pp_CreatedUTC pending"
  by (auto simp: new_registration_def split: res.splits option.splits if_splits)

interpretation pf_active: step_invariant "pf_step opts" "active_since t" for opts t
proof
  fix s s' assume "pf_step opts s s'" and inv: "active_since t s"
  then show "active_since t s'"
  proof cases
    case (poll l n v w)
    from pf_poll_outcome(1) [OF poll(4)] have "pv_activeRegistration (pl_vars l) \<le> pv_activeRegistration v"
      by (auto simp: poll_outcome_def dest: new_registration_newer)
    with inv poll show ?thesis by simp
  qed (use inv in simp_all)
qed


section \<open>A sample run\<close>

text \<open>
  A world with a pending registration, a cached token, and servers that answer every request
  with one document, which reads as a server list, as a signature, as its payload and as the
  answer to a bind.
\<close>

definition pf_document :: json where
  "pf_document = JObj [(''status'', JStr ''OK''), (''payload'', JStr (base64_encode ''{}'')), (''signature'', JStr ''sig''),
     (''port'', JNum 51820),
     (''regions'', JList [JObj [(''id'', JStr ''nl''), (''name'', JStr ''Netherlands''), (''port_forward'', JBool True),
        (''servers'', JObj [(''meta'', JList [JObj [(''ip'', JStr ''1.1.1.1''), (''cn'', JStr ''nl-m'')]]),
                            (''wg'', JList [JObj [(''ip'', JStr ''1.1.1.2''), (''cn'', JStr ''nl-w'')]])])]])]"

definition pf_sample_options :: pf_options where
  "pf_sample_options = \<lparr>po_username = ''u'', po_password = ''p'', po_verbose = False, po_region = ''nl'',
     po_waitEnabled = False, po_gatewayTimeout = 0, po_gatewayInterval = 0, po_pollInterval = 15 * second,
     po_portHookCmd = [], po_pendingPFPath = ''/s/pending_port_forward.json'', po_forwardedPortPath = ''/s/forwarded_port''\<rparr>"

definition pf_pending :: pendingPortForward where
  "pf_pending = \<lparr>pp_CreatedUTC = 5, pp_Key = zero_AddKeyResult\<lparr>ak_Gateway := ''10.0.0.1''\<rparr>\<rparr>"

definition token_document :: json where
  "token_document = JObj [(''token'', JStr ''tok''), (''expires_utc'', JTime (24 * hour)), (''issued_utc'', JTime hour), (''version'', JNum 1)]"

definition pf_world :: world where
  "pf_world = (calm_world hour)\<lparr>
     w_http := sconst (Inr (calm_response\<lparr>hr_body := ''{}''\<rparr>)), w_json := (\<lambda>_. Some pf_document), w_json_first := (\<lambda>_. Some pf_document),
     w_files := [''/s/pending_port_forward.json'' \<mapsto> \<lparr>f_content = Doc (the (enc_pending pf_pending)), f_perm = 384, f_mtime = 5\<rparr>,
                 ''/app/.pia_token.json'' \<mapsto> \<lparr>f_content = Doc token_document, f_perm = 384, f_mtime = 5\<rparr>]\<rparr>"

definition pf_sample :: pf_loop where
  "pf_sample = \<lparr>pl_vars = \<lparr>pv_lease = new_lease, pv_activeRegistration = 0, pv_lastPort = []\<rparr>, pl_world = pf_world,
     pl_renewer = startPFRenewLoop hour, pl_tick = hour + 15 * second\<rparr>"

text \<open>Requests and the passing of time do not change what this world answers.\<close>

definition pf_like :: "world \<Rightarrow> bool" where
  "pf_like w \<longleftrightarrow> (\<exists>tr t. w = pf_world\<lparr>w_trace := tr, w_clock := t\<rparr> \<and> t \<le> 23 * hour)"

lemma pf_like_pf_world: "t \<le> 23 * hour \<Longrightarrow> pf_like (pf_world\<lparr>w_clock := t\<rparr>)"
  unfolding pf_like_def by (intro exI [of _ "w_trace pf_world"] exI [of _ t]) simp

lemma pf_like_emit: "pf_like w \<Longrightarrow> pf_like (snd (http_Do client req w))"
  by (auto simp: pf_like_def http_Do_def emit_def pf_world_def calm_world_def)

lemma pf_like_pending:
  assumes "pf_like w"
  shows "readPendingPortForward ''/s/pending_port_forward.json'' w = (Ok (Some pf_pending), w)"
proof -
  have "dec_pending (the (enc_pending pf_pending)) = Some pf_pending"
  proof (rule pending_json.dec_enc)
    show ok: "ok_pending pf_pending" by code_simp
    show "enc_pending pf_pending = Some (the (enc_pending pf_pending))" using pending_json.enc_total [OF ok] by auto
  qed
  with assms show ?thesis
    by (auto simp: pf_like_def readPendingPortForward_def ReadFile_eq json_of_def pf_world_def calm_world_def)
qed

lemma pf_new_registration:
  assumes "pf_like w" and "pv_activeRegistration v = 0"
  shows "new_registration pf_sample_options v w = Some pf_pending"
  by (simp add: new_registration_def pf_sample_options_def assms(2) pf_like_pending [OF assms(1)]) (simp add: pf_pending_def)

definition pf_regions :: PIAServerList where
  "pf_regions = [zero_region\<lparr>rg_ID := ''nl'', rg_Name := ''Netherlands'', rg_PortForward := True,
     rg_Meta := [\<lparr>srv_Cn = ''nl-m'', srv_IP = ''1.1.1.1''\<rparr>], rg_Wg := [\<lparr>srv_Cn = ''nl-w'', srv_IP = ''1.1.1.2''\<rparr>]\<rparr>]"

lemma pf_server_list:
  assumes "pf_like w"
  shows "\<exists>w2. getServerList w = (Ok pf_regions, w2) \<and> pf_like w2"
proof -
  have "dec_PIAServerList pf_document = Some pf_regions" by code_simp
  with assms show ?thesis
    by (auto simp: getServerList_def http_Get_def http_NewRequest_def http_Do_def emit_def body_ReadAll_def
        pf_world_def calm_world_def calm_response_def pf_like_def)
qed

lemma pf_client:
  assumes "pf_like w"
  shows "\<exists>p w2. NewPIAClient ''u'' ''p'' ''nl'' False True w = (Ok p, w2) \<and> pf_like w2"
proof -
  have "generateMetadataServerList True pf_regions \<noteq> Err e" "generateMetadataServerList True pf_regions \<noteq> Panic m"
    "generateWireguardServerList True pf_regions \<noteq> Err e" "generateWireguardServerList True pf_regions \<noteq> Panic m" for e m
    by code_simp+
  then obtain ms ws where "generateMetadataServerList True pf_regions = Ok ms" "generateWireguardServerList True pf_regions = Ok ws"
    by (meson res.exhaust)
  moreover have "resolveRegionID True ''nl'' pf_regions = Ok ''nl''" by code_simp
  ultimately show ?thesis
    using pf_server_list [OF assms] by (auto simp: NewPIAClient_def Let_def)
qed


lemma pf_token:
  assumes "pf_like w"
  shows "GetToken (p, w) = (Ok ''tok'', p, w)"
proof -
  have t: "TrimSpace ''tok'' = ''tok''" "TrimSpace ''/app/pia-wg-config'' = ''/app/pia-wg-config''"
    "path_Join (path_Dir ''/app/pia-wg-config'') ''.pia_token.json'' = ''/app/.pia_token.json''" by code_simp+
  have d: "dec_cachedTokenFile token_document = Some \<lparr>ct_Token = ''tok'', ct_ExpiresUTC = 24 * hour, ct_IssuedUTC = hour, ct_Version = 1\<rparr>"
    by code_simp
  have "w_files w ''/app/.pia_token.json'' = Some \<lparr>f_content = Doc token_document, f_perm = 384, f_mtime = 5\<rparr>"
    "w_calls w = sconst None" "w_ticks w = sconst 0" "w_clock w \<le> 23 * hour" "w_executable w = Inr ''/app/pia-wg-config''"
    using assms by (auto simp: pf_like_def pf_world_def calm_world_def)
  then show ?thesis
    by (simp add: GetToken_def time_Now_def readCachedToken_def getTokenCachePath_def t d ReadFile_eq json_of_def
        time_ops token_skew_def Let_def)
qed

definition pf_signature :: PFSignatureResponse where
  "pf_signature = \<lparr>sg_Status = ''OK'', sg_Payload = base64_encode ''{}'', sg_Signature = ''sig''\<rparr>"

lemma pf_issues:
  assumes "pf_like w"
  shows "issues w (calm_response\<lparr>hr_body := ''{}''\<rparr>) pf_signature \<lparr>pl_Token = [], pl_Port = 51820, pl_ExpiresAt = 0, pl_CreatedAt = 0\<rparr>"
    and "accepts w (calm_response\<lparr>hr_body := ''{}''\<rparr>)" and "shd (w_http w) = Inr (calm_response\<lparr>hr_body := ''{}''\<rparr>)"
    and "w_url_error w u = None"
proof -
  have "dec_PFSignatureResponse pf_document = Some pf_signature"
    "dec_PFPayload pf_document = Some \<lparr>pl_Token = [], pl_Port = 51820, pl_ExpiresAt = 0, pl_CreatedAt = 0\<rparr>"
    "dec_bindResp pf_document = Some (''OK'', [])" by code_simp+
  note dec = this
  from assms have w: "w_json w = (\<lambda>_. Some pf_document)" "w_json_first w = (\<lambda>_. Some pf_document)"
    by (auto simp: pf_like_def pf_world_def calm_world_def)
  show "issues w (calm_response\<lparr>hr_body := ''{}''\<rparr>) pf_signature \<lparr>pl_Token = [], pl_Port = 51820, pl_ExpiresAt = 0, pl_CreatedAt = 0\<rparr>"
    unfolding issues_def by (intro conjI exI [of _ "''{}''"])
      (simp_all add: w dec calm_response_def pf_signature_def base64_encode_unbroken del: base64_encode.simps)
  show "accepts w (calm_response\<lparr>hr_body := ''{}''\<rparr>)" by (simp add: accepts_def w dec calm_response_def)
  show "shd (w_http w) = Inr (calm_response\<lparr>hr_body := ''{}''\<rparr>)" "w_url_error w u = None"
    using assms by (auto simp: pf_like_def pf_world_def calm_world_def)
qed

lemma pf_acquire:
  assumes "pf_like w"
  shows "\<exists>w'. acquireAndBindPort (pp_Key pf_pending) False (p, w) = (Ok (''51820'', pf_signature, ''10.0.0.1''), p, w') \<and> pf_like w'"
proof -
  have gw: "gatewayFromKeyMeta (pp_Key pf_pending) = Ok ''10.0.0.1''" "normalizeGateway ''10.0.0.1'' = ''10.0.0.1:19999''"
    by code_simp+
  have port: "Itoa 51820 = ''51820''" by (simp add: Itoa_def digits.simps char_of_def bit_0)
  note issued = pf_issues [OF assms]
  let ?w1 = "snd (http_Do pf_http (get_request (signature_url ''10.0.0.1:19999'' ''tok'')) w)"
  have sig: "GetSignature (NewPFClient False) ''10.0.0.1'' ''tok'' w =
      (Ok (pf_signature, \<lparr>pl_Token = [], pl_Port = 51820, pl_ExpiresAt = 0, pl_CreatedAt = 0\<rparr>), ?w1)"
    by (rule GetSignature_issued [OF gw(2) _ issued(4) issued(3) issued(1)]) simp
  have like: "pf_like ?w1" by (rule pf_like_emit [OF assms])
  then have "fst (BindPort (NewPFClient False) ''10.0.0.1'' pf_signature ?w1) = Ok ()"
    using BindPort_Ok [OF gw(2), of False pf_signature ?w1] pf_issues [of ?w1] by auto
  moreover have "pf_like (snd (BindPort (NewPFClient False) ''10.0.0.1'' pf_signature ?w1))"
    using BindPort_world [OF gw(2)] pf_issues(4) [OF like] pf_like_emit [OF like] by simp
  ultimately obtain w2 where "BindPort (NewPFClient False) ''10.0.0.1'' pf_signature ?w1 = (Ok (), w2)" "pf_like w2"
    by (cases "BindPort (NewPFClient False) ''10.0.0.1'' pf_signature ?w1") simp
  with sig show ?thesis
    by (simp add: acquireAndBindPort_def gw port pf_token [OF assms] on_world_def)
qed

section \<open>The contract of the daemon\<close>



lemma pf_takes_registration:
  assumes clock: "forward_clock (pl_world l)" and due: "pl_tick l \<le> w_clock (pl_world l)"
    and new: "new_registration opts (pl_vars l) (pl_world l) = Some pending"
    and client: "NewPIAClient (po_username opts) (po_password opts) (po_region opts) (po_verbose opts) True
      (snd (readPendingPortForward (po_pendingPFPath opts) (pl_world l))) = (Ok p, w2)"
    and granted: "\<And>n r s. acquirePortForwardAfterGatewayWait n (pp_Key pending) (po_waitEnabled opts)
      (po_gatewayTimeout opts) (po_gatewayInterval opts) (po_verbose opts) (p, w2) = Some (r, s) \<Longrightarrow> r = Ok (port, sig, gw)"
  shows "\<exists>l'. pf_step opts (PfRunning l) (PfRunning l') \<and>
    pl_vars l' = \<lparr>pv_lease = \<lparr>ls_enabled = True, ls_gateway = gw, ls_signature = sig, ls_port = port\<rparr>,
      pv_activeRegistration = pp_CreatedUTC pending, pv_lastPort = port\<rparr> \<and> signed_port (pl_world l') (gw, sig, port)"
proof -
  let ?n = "enough_rounds (po_gatewayTimeout opts) (po_gatewayInterval opts)"
  let ?acq = "acquirePortForwardAfterGatewayWait ?n (pp_Key pending) (po_waitEnabled opts)
      (po_gatewayTimeout opts) (po_gatewayInterval opts) (po_verbose opts) (p, w2)"
  obtain q where q: "pf_poll ?n opts (pl_vars l, pl_world l) = Some q" using pf_poll_ends [OF clock] by blast
  then obtain r p' w3 where a: "?acq = Some (r, p', w3)"
    using pf_poll_acts [OF new, of ?n] client by (cases ?acq) auto
  have r: "r = Ok (port, sig, gw)" by (rule granted [OF a])
  obtain v w where v: "pf_acquired opts pending (port, sig, gw) (pl_vars l, w3) = (v, w)" by fastforce
  have poll: "pf_poll ?n opts (pl_vars l, pl_world l) = Some (Ok (), v, w)"
    using pf_poll_acts [OF new, of ?n] client a r v by simp
  have vars: "v = \<lparr>pv_lease = lease_set gw sig port (pv_lease (pl_vars l)),
      pv_activeRegistration = pp_CreatedUTC pending, pv_lastPort = port\<rparr>"
    by (rule pf_acquired_result(1) [OF v])
  obtain u where "acquireAndBindPort (pp_Key pending) (po_verbose opts) (p, u) = (Ok (port, sig, gw), p', w3)"
    using acquire_after_wait [OF a] r by auto
  from acquire_signed [OF this] have "signed_port w (gw, sig, port)"
    using signed_port_static [OF evolves_static [OF pf_acquired_result(2) [OF v]]] by blast
  with vars pf_step.poll [OF due poll] show ?thesis
    by (intro exI conjI) (auto simp: lease_set_def)
qed



lemma pf_sample_acquire:
  assumes "pf_like w"
    and "acquirePortForwardAfterGatewayWait n (pp_Key pf_pending) False t d False (p, w) = Some (r, s)"
  shows "r = Ok (''51820'', pf_signature, ''10.0.0.1'')" and "pf_like (snd s)"
proof -
  have "gatewayFromKeyMeta (pp_Key pf_pending) = Ok ''10.0.0.1''" by code_simp
  with assms(2) pf_acquire [OF assms(1), of p]
  show "r = Ok (''51820'', pf_signature, ''10.0.0.1'')" and "pf_like (snd s)"
    by (auto simp: acquirePortForwardAfterGatewayWait_def)
qed

text \<open>The command line of the sample, and the state of its loop when the first poll is due.\<close>

definition pf_context :: cli_context where
  "pf_context = \<lparr>c_args = [''u'', ''p''],
     c_String = (\<lambda>k. if k = ''state-dir'' then ''/s'' else if k = ''region'' then ''nl'' else []), c_Bool = (\<lambda>_. False),
     c_Duration = (\<lambda>k. if k = ''poll-interval'' then 15 * second else 0), c_Int = (\<lambda>_. 0)\<rparr>"

definition pf_due :: pf_loop where
  "pf_due = pf_sample\<lparr>pl_world := pf_world\<lparr>w_clock := 2 * hour\<rparr>\<rparr>"

lemma pf_sample_starts: "runPF pf_context pf_world = (Ok (pf_sample_options, pf_sample), pf_world)"
proof -
  have "resolveCredentials pf_context = Ok (''u'', ''p'')" "pf_options_of pf_context ''u'' ''p'' = pf_sample_options"
    by code_simp+
  then show ?thesis
    by (simp add: runPF_def Let_def pf_sample_def pf_sample_options_def) (simp add: pf_world_def calm_world_def)
qed

lemma pf_sample_waits: "pf_step pf_sample_options (PfRunning pf_sample) (PfRunning pf_due)"
proof -
  have "w_clock pf_world = hour" by (simp add: pf_world_def calm_world_def)
  then show ?thesis using pf_step.wait [of hour pf_sample_options pf_sample] by (simp add: pf_due_def pf_sample_def)
qed

lemma pf_due_like: "pf_like (pl_world pf_due)" "forward_clock (pl_world pf_due)" "pl_tick pf_due \<le> w_clock (pl_world pf_due)"
  "pv_activeRegistration (pl_vars pf_due) = 0"
  by (simp_all add: pf_due_def pf_like_pf_world)
    (simp_all add: pf_sample_def pf_world_def calm_world_def forward_clock_def)

lemma pf_sample_polls:
  "\<exists>l'. pf_step pf_sample_options (PfRunning pf_due) (PfRunning l') \<and>
    pl_vars l' = \<lparr>pv_lease = \<lparr>ls_enabled = True, ls_gateway = ''10.0.0.1'', ls_signature = pf_signature, ls_port = ''51820''\<rparr>,
      pv_activeRegistration = pp_CreatedUTC pf_pending, pv_lastPort = ''51820''\<rparr> \<and>
    signed_port (pl_world l') (''10.0.0.1'', pf_signature, ''51820'')"
proof -
  obtain p w2 where c: "NewPIAClient ''u'' ''p'' ''nl'' False True (pl_world pf_due) = (Ok p, w2)" "pf_like w2"
    using pf_client [OF pf_due_like(1)] by blast
  show ?thesis
    using pf_takes_registration [OF pf_due_like(2,3) pf_new_registration [OF pf_due_like(1,4)], of p w2]
      c pf_sample_acquire(1) [OF c(2)]
    by (auto simp: pf_sample_options_def pf_like_pending [OF pf_due_like(1)])
qed




end
