(* ===== verification/Daemon.thy ===== *)
theory Daemon
  imports PfDaemon Refresh_Apply
begin

text \<open>
  The \<^verbatim>\<open>daemon\<close> command of main.go, which does everything in one process inside the tunnel's
  network namespace: it regenerates the configuration on a schedule, restarts the VPN
  container, and holds a port-forwarding lease. Restarting the container ends its own network,
  so with port forwarding it exits after a restart and leaves the registration in the pending
  file for its successor.

  One iteration of the endless loop of \<^verbatim>\<open>runDaemon\<close> is one definition, composed of the parts
  of its body in their order. The variables that live across iterations are the lease and the
  last port; the status is a local variable of an iteration, kept beside them. An iteration ends
  with an exit or a sleep. During the sleep, which takes hours, the renewing goroutine works, so
  the sleep is not part of the iteration: the loop is asleep until \<open>dl_wake\<close>.
\<close>

section \<open>Options and variables\<close>

record daemon_options =
  do_username :: string
  do_password :: string
  do_verbose :: bool
  do_serverName :: bool
  do_portForwarding :: bool
  do_region :: string
  do_stateDir :: string
  do_portHookCmd :: string
  do_configHookCmd :: string
  do_restartContainer :: string
  do_dockerSocket :: string
  do_ipv6Mode :: IPv6Mode
  do_ipv6ModeStr :: string
  do_configPath :: string
  do_statusPath :: string
  do_forwardedPortPath :: string
  do_pendingPFPath :: string
  do_interval :: duration
  do_jitterMax :: duration
  do_retryDelay :: duration
  do_waitForGateway :: bool
  do_gatewayTimeout :: duration
  do_gatewayInterval :: duration

record daemon_vars =
  dv_lease :: pfLeaseState
  dv_lastPort :: string
  dv_status :: daemonStatus

definition daemon_options_of :: "cli_context \<Rightarrow> string \<Rightarrow> string \<Rightarrow> IPv6Mode \<Rightarrow> daemon_options" where
  "daemon_options_of c username password ipv6Mode =
     (let stateDir = TrimSpace (c_String c ''state-dir'') in
      \<lparr>do_username = username, do_password = password, do_verbose = c_Bool c ''verbose'',
       do_serverName = c_Bool c ''server'', do_portForwarding = c_Bool c ''port-forwarding'', do_region = region_option c,
       do_stateDir = stateDir, do_portHookCmd = c_String c ''on-port-change'',
       do_configHookCmd = c_String c ''on-config-change'',
       do_restartContainer = TrimSpace (c_String c ''restart-container''),
       do_dockerSocket = TrimSpace (c_String c ''docker-socket''), do_ipv6Mode = ipv6Mode,
       do_ipv6ModeStr = c_String c ''ipv6-mode'',
       do_configPath = mustStatePath stateDir defaultConfigFileName,
       do_statusPath = mustStatePath stateDir defaultStatusFileName,
       do_forwardedPortPath = mustStatePath stateDir defaultForwardedPortOut,
       do_pendingPFPath = mustStatePath stateDir defaultPendingPFName,
       do_interval = c_Duration c ''refresh-interval'', do_jitterMax = c_Duration c ''refresh-jitter'',
       do_retryDelay = c_Duration c ''retry-delay'', do_waitForGateway = c_Bool c ''wait-for-gateway'',
       do_gatewayTimeout = c_Duration c ''gateway-timeout'',
       do_gatewayInterval = c_Duration c ''gateway-check-interval''\<rparr>)"

definition daemon_status :: "daemon_options \<Rightarrow> time \<Rightarrow> time \<Rightarrow> daemonStatus" where
  "daemon_status opts now next =
     zero_daemonStatus\<lparr>ds_Region := do_region opts, ds_LastGenerateUTC := now, ds_NextRefreshUTC := next,
       ds_PortForwarding := do_portForwarding opts, ds_ServerNameEnabled := do_serverName opts,
       ds_IPv6Mode := do_ipv6ModeStr opts\<rparr>"

definition note_error :: "goerr \<Rightarrow> daemon_vars \<Rightarrow> daemon_vars" where
  "note_error e v = v\<lparr>dv_status := (dv_status v)\<lparr>ds_LastError := emsg e\<rparr>\<rparr>"

definition disable_lease :: "daemon_vars \<Rightarrow> daemon_vars" where
  "disable_lease v = v\<lparr>dv_lease := lease_disable (dv_lease v)\<rparr>"

definition note_port :: "string \<Rightarrow> daemon_vars \<Rightarrow> daemon_vars" where
  "note_port port v = v\<lparr>dv_status := (dv_status v)\<lparr>ds_LastForwardPort := port\<rparr>\<rparr>"

definition write_status :: "daemon_options \<Rightarrow> daemon_vars \<Rightarrow> world \<Rightarrow> world" where
  "write_status opts v w = snd (writeStatus (do_statusPath opts) (dv_status v) w)"

text \<open>
  How an iteration ends: with \<^verbatim>\<open>return nil\<close>, with \<open>sleepAfterFailure\<close>, or with \<open>sleepUntil\<close>.
\<close>

datatype turn = Leave | Retry | Until time

text \<open>The time at which the sleep at the end of an iteration is over.\<close>

fun fall_asleep :: "daemon_options \<Rightarrow> turn \<Rightarrow> world \<Rightarrow> time \<times> world" where
  "fall_asleep opts Leave w = (w_clock w, w)"
| "fall_asleep opts Retry w = (w_clock w + max 0 (do_retryDelay opts), w)"
| "fall_asleep opts (Until t) w = (let (now, w) = time_Now w in (w_clock w + max 0 (time_Sub t now), w))"

lemma fall_asleep_wakes:
  "fst (fall_asleep opts Retry w) = w_clock (sleepAfterFailure (do_retryDelay opts) w)"
  "fst (fall_asleep opts (Until t) w) = w_clock (sleepUntil t w)"
  by (simp_all add: sleepAfterFailure_def sleepUntil_def time_Sleep_def Let_def split_beta)

text \<open>\<^verbatim>\<open>status.LastError = err.Error(); writeStatus; sleepAfterFailure; continue\<close>\<close>

definition give_up :: "daemon_options \<Rightarrow> goerr \<Rightarrow> daemon_vars \<times> world \<Rightarrow> turn res \<times> daemon_vars \<times> world" where
  "give_up opts e s = (let v = note_error e (fst s) in (Ok Retry, v, write_status opts v (snd s)))"

section \<open>The pending port forward\<close>

text \<open>A port that was granted becomes the lease.\<close>

definition take_port :: "daemon_options \<Rightarrow> string \<times> PFSignatureResponse \<times> string \<Rightarrow> daemon_vars \<times> world \<Rightarrow> daemon_vars \<times> world" where
  "take_port opts l s =
     (let (portStr, sig, gw) = l; (v, w) = s;
          (lastPort, w) = announce_port (do_portHookCmd opts) portStr (dv_lastPort v) w
      in (v\<lparr>dv_lastPort := lastPort, dv_lease := lease_set gw sig portStr (dv_lease v)\<rparr>, w))"

text \<open>Port forwarding after a restart: what the predecessor left, without a new registration.\<close>

definition daemon_resume ::
  "nat \<Rightarrow> daemon_options \<Rightarrow> time \<Rightarrow> PIAClient \<Rightarrow> pendingPortForward \<Rightarrow> daemon_vars \<times> world \<Rightarrow> (turn res \<times> daemon_vars \<times> world) option" where
  "daemon_resume fuel opts next piaClient pending s =
     (let (v, w) = s in
      case acquirePortForwardAfterGatewayWait fuel (pp_Key pending) (do_waitForGateway opts) (do_gatewayTimeout opts)
             (do_gatewayInterval opts) (do_verbose opts) (piaClient, w) of
        None \<Rightarrow> None
      | Some (Panic m, _, w) \<Rightarrow> Some (Panic m, v, w)
      | Some (Err e, _, w) \<Rightarrow> Some (give_up opts e (disable_lease v, w))
      | Some (Ok (portStr, sig, gw), _, w) \<Rightarrow>
          (let v = note_port portStr v in
           case atomicWriteFile (do_forwardedPortPath opts) (Text portStr) 420 w of
             (Panic m, w) \<Rightarrow> Some (Panic m, v, w)
           | (Err e, w) \<Rightarrow> Some (give_up opts e (v, w))
           | (Ok _, w) \<Rightarrow>
               let (v, w) = take_port opts (portStr, sig, gw) (v, w);
                   w = snd (removePendingPortForward (do_pendingPFPath opts) w);
                   w = write_status opts v w
               in Some (Ok (Until next), v, w)))"

section \<open>A new configuration\<close>

definition daemon_generate :: "daemon_options \<Rightarrow> PIAClient \<times> world \<Rightarrow> GenerateResult res \<times> PIAClient \<times> world" where
  "daemon_generate opts s =
     GenerateWithMetadata (NewPIAWgGenerator pia_methods
       \<lparr>gc_Verbose = do_verbose opts, gc_ServerName = do_serverName opts, gc_PrivateKey = [], gc_PublicKey = [],
        gc_IPv6Mode = do_ipv6Mode opts\<rparr>) s"

text \<open>
  The steps after the configuration is written. An error of a step is recorded in the status,
  disables the lease (a failed write of the port file does not) and skips the steps after it.
\<close>

definition failing :: "(goerr \<Rightarrow> daemon_vars \<Rightarrow> daemon_vars) \<Rightarrow> daemon_vars \<Rightarrow> 'a res \<times> world \<Rightarrow> 'a res \<times> daemon_vars \<times> world" where
  "failing f v r =
     (case r of (Ok x, w) \<Rightarrow> (Ok x, v, w) | (Err e, w) \<Rightarrow> (Err e, f e v, w) | (Panic m, w) \<Rightarrow> (Panic m, v, w))"

definition losing_lease :: "goerr \<Rightarrow> daemon_vars \<Rightarrow> daemon_vars" where
  "losing_lease e v = disable_lease (note_error e v)"

text \<open>The hook and the restart; the result tells whether the daemon has to exit.\<close>

definition daemon_restart :: "daemon_options \<Rightarrow> AddKeyResult \<Rightarrow> daemon_vars \<times> world \<Rightarrow> bool res \<times> daemon_vars \<times> world" where
  "daemon_restart opts key s =
     (let (v, w) = s in
      io_try (failing losing_lease v (runConfigHook (do_configHookCmd opts) (do_stateDir opts) (do_configPath opts)
                (do_forwardedPortPath opts) (dv_lastPort v) w)) (\<lambda>_ (v, w).
      if do_restartContainer opts = [] then (Ok False, v, w)
      else
      io_try (failing losing_lease v (restartDockerContainer (do_dockerSocket opts) (do_restartContainer opts) w)) (\<lambda>_ (v, w).
      if \<not> do_portForwarding opts then (Ok False, v, w)
      else
      io_try (failing losing_lease v (writePendingPortForward (do_pendingPFPath opts) key w)) (\<lambda>_ (v, w).
      (Ok True, v, w)))))"

definition daemon_gateway :: "nat \<Rightarrow> daemon_options \<Rightarrow> AddKeyResult \<Rightarrow> daemon_vars \<times> world \<Rightarrow> (unit res \<times> daemon_vars \<times> world) option" where
  "daemon_gateway fuel opts key s =
     (let (v, w) = s in
      if \<not> do_portForwarding opts then Some (Ok (), v, w)
      else
      fuel_try (Some (failing losing_lease v (gatewayFromKeyMeta key, w))) (\<lambda>gateway (v, w).
      if do_waitForGateway opts
      then map_option (failing losing_lease v) (waitForGateway fuel gateway (do_gatewayTimeout opts) (do_gatewayInterval opts) w)
      else Some (Ok (), v, w)))"

definition daemon_port :: "daemon_options \<Rightarrow> AddKeyResult \<Rightarrow> PIAClient \<Rightarrow> daemon_vars \<times> world \<Rightarrow> unit res \<times> daemon_vars \<times> world" where
  "daemon_port opts key piaClient s =
     (let (v, w) = s in
      if \<not> do_portForwarding opts then (Ok (), v, w)
      else
      let (r, _, w) = acquireAndBindPort key (do_verbose opts) (piaClient, w) in
      io_try (failing losing_lease v (r, w)) (\<lambda>l (v, w).
      let v = note_port (fst l) v in
      io_try (failing note_error v (atomicWriteFile (do_forwardedPortPath opts) (Text (fst l)) 420 w)) (\<lambda>_ s.
      (Ok (), take_port opts l s))))"

definition daemon_apply :: "nat \<Rightarrow> daemon_options \<Rightarrow> AddKeyResult \<Rightarrow> PIAClient \<Rightarrow> daemon_vars \<times> world \<Rightarrow> (bool res \<times> daemon_vars \<times> world) option" where
  "daemon_apply fuel opts key piaClient s =
     fuel_try (Some (daemon_restart opts key s)) (\<lambda>exit s.
     if exit then Some (Ok True, s)
     else
     fuel_try (daemon_gateway fuel opts key s) (\<lambda>_ s.
     fuel_try (Some (daemon_port opts key piaClient s)) (\<lambda>_ s.
     Some (Ok False, s))))"

text \<open>The end of an iteration: the status is written, and the daemon exits, retries or sleeps.\<close>

definition daemon_finish :: "daemon_options \<Rightarrow> time \<Rightarrow> bool res \<times> daemon_vars \<times> world \<Rightarrow> turn res \<times> daemon_vars \<times> world" where
  "daemon_finish opts next r =
     (let (b, v, w) = r in
      case b of
        Panic m \<Rightarrow> (Panic m, v, w)
      | Ok exit \<Rightarrow> (Ok (if exit then Leave else Until next), v, write_status opts v w)
      | Err e \<Rightarrow> (Ok Retry, v, write_status opts v w))"

definition daemon_refresh ::
  "nat \<Rightarrow> daemon_options \<Rightarrow> time \<Rightarrow> PIAClient \<Rightarrow> daemon_vars \<times> world \<Rightarrow> (turn res \<times> daemon_vars \<times> world) option" where
  "daemon_refresh fuel opts next piaClient s =
     (let (v, w) = s; (r, piaClient, w) = daemon_generate opts (piaClient, w) in
      case r of
        Panic m \<Rightarrow> Some (Panic m, v, w)
      | Err e \<Rightarrow> Some (give_up opts e (v, w))
      | Ok gen \<Rightarrow>
          (case atomicWriteFile (do_configPath opts) (Text (gr_Config gen)) 420 w of
             (Panic m, w) \<Rightarrow> Some (Panic m, v, w)
           | (Err e, w) \<Rightarrow> Some (give_up opts e (v, w))
           | (Ok _, w) \<Rightarrow> map_option (daemon_finish opts next) (daemon_apply fuel opts (gr_Key gen) piaClient (v, w))))"

section \<open>The loop\<close>

definition daemon_iteration :: "nat \<Rightarrow> daemon_options \<Rightarrow> daemon_vars \<times> world \<Rightarrow> (turn res \<times> daemon_vars \<times> world) option" where
  "daemon_iteration fuel opts s =
     (let (v, w) = s; (now, w) = time_Now w; (d, w) = applyJitter (do_interval opts) (do_jitterMax opts) w;
          next = time_Add now d; (now, w) = time_Now w; v = v\<lparr>dv_status := daemon_status opts now next\<rparr> in
      case NewPIAClient (do_username opts) (do_password opts) (do_region opts) (do_verbose opts) (do_portForwarding opts) w of
        (Panic m, w) \<Rightarrow> Some (Panic m, v, w)
      | (Err e, w) \<Rightarrow> Some (give_up opts e (v, w))
      | (Ok piaClient, w) \<Rightarrow>
          if \<not> do_portForwarding opts then daemon_refresh fuel opts next piaClient (v, w)
          else
          (case readPendingPortForward (do_pendingPFPath opts) w of
             (Panic m, w) \<Rightarrow> Some (Panic m, v, w)
           | (Err e, w) \<Rightarrow> Some (give_up opts e (v, w))
           | (Ok (Some pending), w) \<Rightarrow>
               daemon_resume fuel opts next piaClient pending (v, w)
           | (Ok None, w) \<Rightarrow> daemon_refresh fuel opts next piaClient (v, w)))"

record daemon_loop =
  dl_vars :: daemon_vars
  dl_world :: world
  dl_renewer :: renewer
  dl_wake :: time

definition runDaemon :: "cli_context \<Rightarrow> world \<Rightarrow> (daemon_options \<times> daemon_loop) res \<times> world" where
  "runDaemon c w =
     io_try (resolveCredentials c, w) (\<lambda>(username, password) w.
     io_try (parseIPv6Mode (c_String c ''ipv6-mode''), w) (\<lambda>ipv6Mode w.
     (Ok (daemon_options_of c username password ipv6Mode,
          \<lparr>dl_vars = \<lparr>dv_lease = new_lease, dv_lastPort = [], dv_status = zero_daemonStatus\<rparr>, dl_world = w,
           dl_renewer = startPFRenewLoop (w_clock w), dl_wake = w_clock w\<rparr>), w)))"

datatype daemon_state = DmRunning daemon_loop | DmExited daemon_vars world | DmCrashed string world

inductive daemon_step :: "daemon_options \<Rightarrow> daemon_state \<Rightarrow> daemon_state \<Rightarrow> bool" for opts where
  iterate: "dl_wake l \<le> w_clock (dl_world l) \<Longrightarrow>
     daemon_iteration n opts (dl_vars l, dl_world l) = Some (Ok turn, v, w) \<Longrightarrow> turn \<noteq> Leave \<Longrightarrow>
     fall_asleep opts turn w = (wake, w') \<Longrightarrow>
     daemon_step opts (DmRunning l) (DmRunning (l\<lparr>dl_vars := v, dl_world := w', dl_wake := wake\<rparr>))"
| exit: "dl_wake l \<le> w_clock (dl_world l) \<Longrightarrow>
     daemon_iteration n opts (dl_vars l, dl_world l) = Some (Ok Leave, v, w) \<Longrightarrow>
     daemon_step opts (DmRunning l) (DmExited v w)"
| panic: "dl_wake l \<le> w_clock (dl_world l) \<Longrightarrow>
     daemon_iteration n opts (dl_vars l, dl_world l) = Some (Panic m, v, w) \<Longrightarrow>
     daemon_step opts (DmRunning l) (DmCrashed m w)"
| renew_tick: "rn_due (dl_renewer l) \<le> w_clock (dl_world l) \<Longrightarrow> rn_held (dl_renewer l) = None \<Longrightarrow>
     daemon_step opts (DmRunning l)
       (DmRunning (l\<lparr>dl_renewer := renew_tick (dv_lease (dl_vars l)) (w_clock (dl_world l)) (dl_renewer l)\<rparr>))"
| renew_bind: "rn_held (dl_renewer l) = Some held \<Longrightarrow>
     daemon_step opts (DmRunning l)
       (DmRunning (l\<lparr>dl_world := renew_bind (do_verbose opts) held (dl_world l),
                     dl_renewer := (dl_renewer l)\<lparr>rn_held := None\<rparr>\<rparr>))"
| wait: "0 \<le> d \<Longrightarrow>
     daemon_step opts (DmRunning l)
       (DmRunning (l\<lparr>dl_world := (dl_world l)\<lparr>w_clock := w_clock (dl_world l) + d\<rparr>\<rparr>))"

inductive_cases daemon_stepE: "daemon_step opts s t"


section \<open>What the operations keep\<close>

text \<open>
  An enabled lease is a port with its signature, and the port is the last one announced.
  Operations of the daemon keep that; \<open>kept\<close> relates the states before and after.
\<close>

definition lease_ok :: "daemon_vars \<Rightarrow> world \<Rightarrow> bool" where
  "lease_ok v w \<longleftrightarrow> (ls_enabled (dv_lease v) \<longrightarrow>
     signed_port w (lease_triple (dv_lease v)) \<and> ls_port (dv_lease v) = dv_lastPort v)"

definition kept :: "daemon_vars \<times> world \<Rightarrow> daemon_vars \<times> world \<Rightarrow> bool" where
  "kept s t \<longleftrightarrow> evolves (snd s) (snd t) \<and> (lease_ok (fst s) (snd s) \<longrightarrow> lease_ok (fst t) (snd t))"

lemma kept_refl [simp, intro]: "kept s s"
  by (simp add: kept_def)

lemma kept_trans [trans]: "kept s t \<Longrightarrow> kept t u \<Longrightarrow> kept s u"
  by (auto simp: kept_def intro: evolves_trans)

lemma lease_ok_status [simp]:
  "lease_ok (v\<lparr>dv_status := st\<rparr>) w = lease_ok v w" "lease_ok (note_error e v) w = lease_ok v w"
  "lease_ok (note_port port v) w = lease_ok v w" "lease_ok (disable_lease v) w" "lease_ok (losing_lease e v) w"
  by (simp_all add: lease_ok_def note_error_def note_port_def disable_lease_def losing_lease_def)

lemma kept_vars:
  assumes "evolves w w'" and "lease_ok v w \<Longrightarrow> lease_ok v' w"
  shows "kept (v, w) (v', w')"
proof -
  have "lease_ok v' w' = lease_ok v' w"
    by (simp add: lease_ok_def signed_port_static [OF evolves_static [OF assms(1)]])
  with assms show ?thesis by (simp add: kept_def)
qed

lemma kept_evolves: "evolves w w' \<Longrightarrow> kept (v, w) (v, w')"
  by (rule kept_vars)

lemma kept_io_try:
  assumes "kept s (snd r)" and "\<And>x t. fst r = Ok x \<Longrightarrow> kept t (snd (f x t))"
  shows "kept s (snd (io_try r f))"
proof -
  have "kept s (snd (f x (snd r)))" if "fst r = Ok x" for x
    using assms(1) assms(2) [OF that] by (rule kept_trans)
  with assms(1) io_try_snd_cases [of r f] show ?thesis by auto
qed

lemma if_kept: "(b \<Longrightarrow> kept s (snd x)) \<Longrightarrow> (\<not> b \<Longrightarrow> kept s (snd y)) \<Longrightarrow> kept s (snd (if b then x else y))"
  by simp

lemma kept_failing:
  assumes "evolves (snd s) (snd r)" and "\<And>e w. lease_ok (fst s) w \<Longrightarrow> lease_ok (f e (fst s)) w"
  shows "kept s (snd (failing f (fst s) r))"
proof -
  obtain a u where r: "r = (a, u)" by (cases r)
  obtain v w where s: "s = (v, w)" by (cases s)
  show ?thesis using assms unfolding r s by (cases a) (auto simp: failing_def intro: kept_vars)
qed

lemma writeStatus_evolves: "evolves w (snd (writeStatus path st w))"
  by (auto simp: writeStatus_def aw.evolution split: option.splits)

lemma write_status_evolves: "evolves w (write_status opts v w)"
  by (simp add: write_status_def writeStatus_evolves)

lemma writePending_evolves: "evolves w (snd (writePendingPortForward path key w))"
proof -
  obtain now u where n: "time_Now w = (now, u)" by (cases "time_Now w")
  then have "evolves w u" using emits_evolves [OF time_Now_quiet [of w]] by simp
  then show ?thesis by (auto simp: writePendingPortForward_def n split: option.splits intro: evolves_trans aw.evolution)
qed

lemma removePending_evolves: "evolves w (snd (removePendingPortForward path w))"
proof -
  have 1: "evolves w (snd (syscall w))" by (rule emits_evolves [OF syscall_quiet])
  have 2: "evolves u (emit e u)" for e u by (rule emits_evolves [OF emits_emit])
  have "evolves w (snd (Remove path w))"
  proof -
    have "snd (Remove path w) = snd (syscall w) \<or> snd (Remove path w) = emit (EvRemove path) (snd (syscall w))"
      using io_try_snd_cases [of "syscall w" "\<lambda>_ w. if w_files w path = None then (Err (not_exist path), w) else (Ok (), emit (EvRemove path) w)"]
      by (auto simp: Remove_def)
    then show ?thesis using 1 evolves_trans [OF 1 2] by auto
  qed
  then show ?thesis by (auto simp: removePendingPortForward_def split: prod.splits res.splits)
qed

lemma give_up_kept: "kept (v, w) (snd (give_up opts e (v, w)))"
  by (simp add: give_up_def Let_def kept_vars write_status_evolves)

lemma take_port_kept:
  assumes "signed_port w (gw, sig, port)"
  shows "kept (v, w) (take_port opts (port, sig, gw) (v, w))"
proof -
  obtain lp u where a: "announce_port (do_portHookCmd opts) port (dv_lastPort v) w = (lp, u)" by fastforce
  then have "lp = port" "evolves w u"
    using announce_port_last runs_evolves [OF announce_port_net_run] by (metis fst_conv, metis snd_conv)
  with assms show ?thesis
    by (auto simp: take_port_def a lease_ok_def intro!: kept_vars)
qed

lemma daemon_restart_kept: "kept s (snd (daemon_restart opts key s))"
proof -
  have hook: "evolves w (snd (runConfigHook c d cp fp port w))" for c d cp fp port w
    by (rule runs_evolves [OF runConfigHook_net_run])
  have restart: "evolves w (snd (restartDockerContainer sock c w))" for sock c w
    using runs_evolves [OF restartDocker_net_run] by (simp add: restartDockerContainer_def Let_def)
  show ?thesis
    unfolding daemon_restart_def case_prod_unfold Let_def
    by (intro kept_io_try kept_failing if_kept) (simp_all add: hook restart writePending_evolves)
qed


lemma kept_losing: "kept (v, w) (losing_lease e v, w)"
  by (rule kept_vars) simp_all

lemma daemon_gateway_kept:
  assumes "daemon_gateway n opts key s = Some r"
  shows "kept s (snd r)"
proof -
  obtain v w where s: "s = (v, w)" by (cases s)
  have fail: "kept (v, w) (snd (failing losing_lease v q))" if "evolves w (snd q)" for q :: "'a res \<times> world"
    using kept_failing [of "(v, w)" q losing_lease] that by simp
  show ?thesis
  proof (cases "do_portForwarding opts")
    case True
    show ?thesis
    proof (cases "gatewayFromKeyMeta key")
      case (Ok g)
      show ?thesis
      proof (cases "do_waitForGateway opts")
        case wait: True
        with True Ok assms obtain q where q: "waitForGateway n g (do_gatewayTimeout opts) (do_gatewayInterval opts) w = Some q"
          and r: "r = failing losing_lease v q"
          by (auto simp: daemon_gateway_def s failing_def)
        show ?thesis unfolding r s by (rule fail [OF runs_evolves [OF waitForGateway_net_run(1) [OF q]]])
      qed (use True Ok assms in \<open>auto simp: daemon_gateway_def s failing_def\<close>)
    qed (use True assms in \<open>auto simp: daemon_gateway_def s failing_def intro: kept_losing\<close>)
  qed (use assms in \<open>auto simp: daemon_gateway_def s\<close>)
qed

lemma daemon_port_kept: "kept s (snd (daemon_port opts key p s))"
proof -
  obtain v w where s: "s = (v, w)" by (cases s)
  obtain r p' u where a: "acquireAndBindPort key (do_verbose opts) (p, w) = (r, p', u)"
    by (cases "acquireAndBindPort key (do_verbose opts) (p, w)")
  have u: "evolves w u" using runs_evolves [OF acquire_runs [OF permits_True, of "(p, w)"]] a by (metis snd_conv)
  show ?thesis
  proof (cases "do_portForwarding opts")
    case True
    show ?thesis
    proof (cases r)
      case (Ok l)
      obtain port sig gw where l: "l = (port, sig, gw)" by (cases l)
      have sp: "signed_port u (gw, sig, port)" using acquire_signed a Ok l by blast
      let ?v = "note_port port v" and ?f = "atomicWriteFile (do_forwardedPortPath opts) (Text port) 420 u"
      have vu: "kept (v, w) (?v, u)" using u by (rule kept_vars) simp
      have f: "evolves u (snd ?f)" by (rule aw.evolution)
      have res: "daemon_port opts key p s = io_try (failing note_error ?v ?f) (\<lambda>_ s. (Ok (), take_port opts l s))"
      proof -
        have "failing losing_lease v (r, u) = (Ok l, v, u)" by (simp add: failing_def Ok)
        then show ?thesis using True l by (simp add: daemon_port_def s a)
      qed
      have 1: "kept (?v, u) (snd (failing note_error ?v ?f))"
        using kept_failing [of "(?v, u)" ?f note_error] f by simp
      have 2: "kept (?v, x) (take_port opts l (?v, x))" if "evolves u x" for x
        unfolding l using signed_port_static [OF evolves_static [OF that]] sp take_port_kept by blast
      have 3: "snd (daemon_port opts key p s) = snd (failing note_error ?v ?f) \<or>
          snd (daemon_port opts key p s) = take_port opts l (?v, snd ?f)"
        unfolding res by (cases ?f; cases "fst ?f") (auto simp: failing_def)
      have "kept (?v, u) (take_port opts l (?v, snd ?f))"
        using kept_evolves [OF f] 2 [OF f] by (rule kept_trans)
      with 1 3 have "kept (?v, u) (snd (daemon_port opts key p s))" by auto
      with vu show ?thesis unfolding s by (rule kept_trans)
    qed (use True u in \<open>auto simp: daemon_port_def s a failing_def intro: kept_vars\<close>)
  qed (auto simp: daemon_port_def s)
qed

lemma fuel_try_Some:
  assumes "fuel_try m f = Some r"
  obtains q where "m = Some q" "\<not> is_Ok (fst q)" "snd r = snd q"
  | x t where "m = Some (Ok x, t)" "f x t = Some r"
  using assms by (auto simp: fuel_try_def split: option.splits prod.splits res.splits)

lemma daemon_apply_kept:
  assumes "daemon_apply n opts key p s = Some r"
  shows "kept s (snd r)"
proof -
  from assms consider "snd r = snd (daemon_restart opts key s)"
    | t where "snd (daemon_restart opts key s) = t"
      "fuel_try (daemon_gateway n opts key t) (\<lambda>_ s. fuel_try (Some (daemon_port opts key p s)) (\<lambda>_ s. Some (Ok False, s))) = Some r"
  proof -
    obtain q t where q: "daemon_restart opts key s = (q, t)" by (cases "daemon_restart opts key s")
    show thesis
    proof (cases "q = Ok False")
      case True
      with assms q that(2) [of t] show ?thesis by (simp add: daemon_apply_def)
    next
      case False
      with assms q have "snd r = t" by (cases q) (auto simp: daemon_apply_def)
      with that(1) q show ?thesis by simp
    qed
  qed
  then show ?thesis
  proof cases
    case 1
    then show ?thesis using daemon_restart_kept by simp
  next
    case (2 t)
    have t: "kept s t" using daemon_restart_kept 2(1) by blast
    from 2(2) have "\<exists>q. daemon_gateway n opts key t = Some q \<and> (snd r = snd q \<or> snd r = snd (daemon_port opts key p (snd q)))"
      by (elim fuel_try_Some) (auto elim!: fuel_try_Some [of "Some _"])
    then obtain q where q: "daemon_gateway n opts key t = Some q" "snd r = snd q \<or> snd r = snd (daemon_port opts key p (snd q))"
      by blast
    have "kept s (snd q)" using t daemon_gateway_kept [OF q(1)] by (rule kept_trans)
    with q(2) kept_trans [OF this daemon_port_kept] show ?thesis by auto
  qed
qed

lemma daemon_finish_kept: "kept (snd r) (snd (daemon_finish opts next r))"
  by (cases r; cases "fst r") (auto simp: daemon_finish_def intro: kept_evolves write_status_evolves)


lemma daemon_resume_kept:
  assumes "daemon_resume n opts next p pending s = Some r"
  shows "kept s (snd r)"
proof -
  obtain v w where s: "s = (v, w)" by (cases s)
  obtain q p' u where q: "acquirePortForwardAfterGatewayWait n (pp_Key pending) (do_waitForGateway opts) (do_gatewayTimeout opts)
      (do_gatewayInterval opts) (do_verbose opts) (p, w) = Some (q, p', u)"
    using assms by (cases "acquirePortForwardAfterGatewayWait n (pp_Key pending) (do_waitForGateway opts) (do_gatewayTimeout opts)
      (do_gatewayInterval opts) (do_verbose opts) (p, w)") (auto simp: daemon_resume_def s)
  have u: "evolves w u" using acquire_wait_runs [OF q] by simp
  show ?thesis
  proof (cases q)
    case (Ok l)
    obtain port sig gw where l: "l = (port, sig, gw)" by (cases l)
    obtain x where "acquireAndBindPort (pp_Key pending) (do_verbose opts) (p, x) = (Ok (port, sig, gw), p', u)"
      using acquire_after_wait [OF q] Ok l by auto
    then have sp: "signed_port u (gw, sig, port)" by (rule acquire_signed)
    obtain f u2 where f: "atomicWriteFile (do_forwardedPortPath opts) (Text port) 420 u = (f, u2)" by fastforce
    have e2: "evolves u u2" using aw.evolution f by (metis snd_conv)
    let ?v = "note_port port v"
    have "kept (v, w) (?v, u)" using u by (rule kept_vars) simp
    also have "kept (?v, u) (?v, u2)" using e2 by (rule kept_evolves)
    finally have k: "kept (v, w) (?v, u2)" .
    show ?thesis
    proof (cases f)
      case f_ok: (Ok y)
      obtain v3 w3 where t: "take_port opts (port, sig, gw) (?v, u2) = (v3, w3)" by fastforce
      have "kept (?v, u2) (v3, w3)"
        using take_port_kept [of u2 gw sig port ?v opts] signed_port_static [OF evolves_static [OF e2]] sp t by simp
      with k have "kept (v, w) (v3, w3)" by (rule kept_trans)
      moreover have "kept (v3, w3) (v3, write_status opts v3 (snd (removePendingPortForward (do_pendingPFPath opts) w3)))"
        by (rule kept_evolves [OF evolves_trans [OF removePending_evolves write_status_evolves]])
      ultimately have "kept (v, w) (v3, write_status opts v3 (snd (removePendingPortForward (do_pendingPFPath opts) w3)))"
        by (rule kept_trans)
      with assms q Ok l f f_ok t show ?thesis by (auto simp: daemon_resume_def s Let_def)
    qed (use assms q Ok l f k kept_trans [OF k give_up_kept] in \<open>auto simp: daemon_resume_def s Let_def\<close>)
  next
    case (Err e)
    have "kept (v, w) (disable_lease v, u)" using u by (rule kept_vars) simp
    with assms q Err show ?thesis by (auto simp: daemon_resume_def s intro: kept_trans give_up_kept)
  qed (use assms q u in \<open>auto simp: daemon_resume_def s intro: kept_evolves\<close>)
qed

lemma daemon_generate_evolves: "evolves (snd s) (snd (snd (daemon_generate opts s)))"
  unfolding daemon_generate_def by (rule runs_evolves [OF GenerateWithMetadata_runs [OF permits_True]])

text \<open>The two ways an iteration can go once the configuration is written.\<close>

lemma daemon_refresh_cases:
  assumes "daemon_refresh n opts next p (v, w) = Some r"
  obtains u e where "evolves w u" "r = give_up opts e (v, u)"
  | u m where "evolves w u" "r = (Panic m, v, u)"
  | gen p' u u' q where "daemon_generate opts (p, w) = (Ok gen, p', u)" "evolves w u"
      "atomicWriteFile (do_configPath opts) (Text (gr_Config gen)) 420 u = (Ok (), u')"
      "daemon_apply n opts (gr_Key gen) p' (v, u') = Some q" "r = daemon_finish opts next q"
proof -
  obtain g p' u where g: "daemon_generate opts (p, w) = (g, p', u)" by (cases "daemon_generate opts (p, w)")
  have u: "evolves w u" using daemon_generate_evolves [of "(p, w)" opts] g by simp
  show thesis
  proof (cases g)
    case (Ok gen)
    obtain f u' where f: "atomicWriteFile (do_configPath opts) (Text (gr_Config gen)) 420 u = (f, u')" by fastforce
    have "evolves w u'" using u aw.evolution [of u] f evolves_trans by (metis snd_conv)
    with assms g Ok f u that show ?thesis by (cases f) (auto simp: daemon_refresh_def)
  qed (use assms g u that in \<open>auto simp: daemon_refresh_def\<close>)
qed

lemma daemon_refresh_kept:
  assumes "daemon_refresh n opts next p s = Some r"
  shows "kept s (snd r)"
proof -
  obtain v w where s: "s = (v, w)" by (cases s)
  from assms [unfolded s] show ?thesis
  proof (cases rule: daemon_refresh_cases)
    case (1 u e)
    show ?thesis unfolding s 1(2) by (rule kept_trans [OF kept_evolves [OF 1(1)] give_up_kept])
  next
    case (2 u m)
    then show ?thesis by (simp add: s kept_evolves)
  next
    case (3 gen p' u u' q)
    have "evolves w u'" using 3(2) aw.evolution [of u] 3(3) evolves_trans by (metis snd_conv)
    then have "kept s (v, u')" unfolding s by (rule kept_evolves)
    from kept_trans [OF kept_trans [OF this daemon_apply_kept [OF 3(4)]] daemon_finish_kept] show ?thesis
      by (simp add: 3(5))
  qed
qed

text \<open>The start of an iteration: two clock readings, the jitter, and a fresh status.\<close>

definition iteration_start :: "daemon_options \<Rightarrow> daemon_vars \<Rightarrow> world \<Rightarrow> time \<times> daemon_vars \<times> world" where
  "iteration_start opts v w =
     (let (now, w) = time_Now w; (d, w) = applyJitter (do_interval opts) (do_jitterMax opts) w;
          next = time_Add now d; (now, w) = time_Now w
      in (next, v\<lparr>dv_status := daemon_status opts now next\<rparr>, w))"

lemma iteration_start_kept:
  assumes "iteration_start opts v w = (next, v1, w1)"
  shows "kept (v, w) (v1, w1)" and "quiet w w1"
proof -
  obtain n1 u1 where 1: "time_Now w = (n1, u1)" by fastforce
  obtain d u2 where 2: "applyJitter (do_interval opts) (do_jitterMax opts) u1 = (d, u2)" by fastforce
  obtain n3 u3 where 3: "time_Now u2 = (n3, u3)" by fastforce
  have "quiet w u1" "quiet u1 u2" "quiet u2 u3"
    using time_Now_quiet [of w] time_Now_quiet [of u2] applyJitter_quiet [of u1 "do_interval opts" "do_jitterMax opts"] 1 2 3 by simp_all
  then have q: "quiet w u3" using quiet_trans by blast
  have v1: "v1 = v\<lparr>dv_status := daemon_status opts n3 next\<rparr>" "w1 = u3"
    using assms by (auto simp: iteration_start_def Let_def 1 2 3)
  show "quiet w w1" using q v1 by simp
  show "kept (v, w) (v1, w1)" unfolding v1 by (rule kept_vars [OF emits_evolves [OF q]]) simp
qed

lemma daemon_iteration_start:
  assumes "iteration_start opts v w = (next, v1, w1)"
  shows "daemon_iteration n opts (v, w) =
     (case NewPIAClient (do_username opts) (do_password opts) (do_region opts) (do_verbose opts) (do_portForwarding opts) w1 of
        (Panic m, w) \<Rightarrow> Some (Panic m, v1, w)
      | (Err e, w) \<Rightarrow> Some (give_up opts e (v1, w))
      | (Ok p, w) \<Rightarrow>
          if \<not> do_portForwarding opts then daemon_refresh n opts next p (v1, w)
          else
          (case readPendingPortForward (do_pendingPFPath opts) w of
             (Panic m, w) \<Rightarrow> Some (Panic m, v1, w)
           | (Err e, w) \<Rightarrow> Some (give_up opts e (v1, w))
           | (Ok (Some pending), w) \<Rightarrow> daemon_resume n opts next p pending (v1, w)
           | (Ok None, w) \<Rightarrow> daemon_refresh n opts next p (v1, w)))"
proof -
  obtain n1 u1 where 1: "time_Now w = (n1, u1)" by fastforce
  obtain d u2 where 2: "applyJitter (do_interval opts) (do_jitterMax opts) u1 = (d, u2)" by fastforce
  obtain n3 u3 where 3: "time_Now u2 = (n3, u3)" by fastforce
  have v1: "v1 = v\<lparr>dv_status := daemon_status opts n3 next\<rparr>" "w1 = u3" "next = time_Add n1 d"
    using assms by (auto simp: iteration_start_def Let_def 1 2 3)
  show ?thesis unfolding daemon_iteration_def v1 by (simp add: Let_def 1 2 3)
qed


text \<open>Where an iteration can end.\<close>

lemma daemon_iteration_cases:
  assumes "daemon_iteration n opts (v, w) = Some r"
  obtains v1 u e where "kept (v, w) (v1, u)" "r = give_up opts e (v1, u)"
  | v1 u m where "kept (v, w) (v1, u)" "r = (Panic m, v1, u)"
  | nx p v1 u where "kept (v, w) (v1, u)" "daemon_refresh n opts nx p (v1, u) = Some r"
  | nx p v1 u pending where "kept (v, w) (v1, u)" "daemon_resume n opts nx p pending (v1, u) = Some r" "do_portForwarding opts"
proof -
  obtain nx v1 w1 where i: "iteration_start opts v w = (nx, v1, w1)" by (cases "iteration_start opts v w")
  note run = assms [unfolded daemon_iteration_start [OF i]]
  obtain c u where c: "NewPIAClient (do_username opts) (do_password opts) (do_region opts) (do_verbose opts) (do_portForwarding opts) w1 = (c, u)"
    by fastforce
  have "evolves w1 u" using runs_evolves [OF NewPIAClient_runs [OF permits_True]] c by (metis snd_conv)
  then have k: "kept (v, w) (v1, u)"
    using iteration_start_kept(1) [OF i] kept_evolves kept_trans by blast
  obtain q u2 where q: "readPendingPortForward (do_pendingPFPath opts) u = (q, u2)" by fastforce
  have "evolves u u2" using emits_evolves [OF readPending_quiet] q by (metis snd_conv)
  then have k2: "kept (v, w) (v1, u2)" using k kept_evolves kept_trans by blast
  show thesis
  proof (cases c)
    case (Ok p)
    show ?thesis
    proof (cases "do_portForwarding opts")
      case True
      show ?thesis
      proof (cases q)
        case q_ok: (Ok o')
        with run c Ok True q that(3,4) k2 show ?thesis by (cases o') auto
      qed (use run c Ok True q that k2 in auto)
    qed (use run c Ok that(3) k in auto)
  qed (use run c that k in auto)
qed

lemma daemon_iteration_kept:
  assumes "daemon_iteration n opts s = Some r"
  shows "kept s (snd r)"
proof -
  obtain v w where s: "s = (v, w)" by (cases s)
  from assms [unfolded s] show ?thesis
  proof (cases rule: daemon_iteration_cases)
    case (1 v1 u e)
    show ?thesis unfolding s 1(2) by (rule kept_trans [OF 1(1) give_up_kept])
  next
    case (3 nx p v1 u)
    show ?thesis unfolding s by (rule kept_trans [OF 3(1) daemon_refresh_kept [OF 3(2)]])
  next
    case (4 nx p v1 u pending)
    show ?thesis unfolding s by (rule kept_trans [OF 4(1) daemon_resume_kept [OF 4(2)]])
  qed (simp add: s)
qed

section \<open>Runs\<close>

fun daemon_consistent :: "daemon_state \<Rightarrow> bool" where
  "daemon_consistent (DmRunning l) \<longleftrightarrow> lease_ok (dl_vars l) (dl_world l) \<and>
     (\<forall>held. rn_held (dl_renewer l) = Some held \<longrightarrow> signed_port (dl_world l) held)"
| "daemon_consistent _ \<longleftrightarrow> True"

lemma fall_asleep_evolves: "fall_asleep opts turn w = (wake, w') \<Longrightarrow> evolves w w'"
  using emits_evolves [OF time_Now_quiet [of w]] by (cases turn) (auto split: prod.splits)

lemma lease_ok_clock: "lease_ok v (w\<lparr>w_clock := t\<rparr>) = lease_ok v w"
  by (simp add: lease_ok_def signed_port_same)

interpretation daemon_lease: step_invariant "daemon_step opts" daemon_consistent for opts
proof
  fix s t assume "daemon_step opts s t" and inv: "daemon_consistent s"
  then show "daemon_consistent t"
  proof cases
    case (iterate l n turn v w wake w')
    have k: "kept (dl_vars l, dl_world l) (v, w')"
      using daemon_iteration_kept [OF iterate(4)] kept_evolves [OF fall_asleep_evolves [OF iterate(6)]] kept_trans by fastforce
    then have "static w' = static (dl_world l)" by (intro evolves_static) (simp add: kept_def)
    from signed_port_static [OF this] k inv iterate(1,2) show ?thesis by (simp add: kept_def)
  next
    case (renew_tick l)
    with inv show ?thesis by (auto simp: renew_tick_def lease_snapshot_def lease_triple_def lease_ok_def)
  next
    case (renew_bind l held)
    note same = signed_port_static [OF evolves_static [OF renew_bind_evolves]]
    from inv renew_bind show ?thesis by (simp add: lease_ok_def same)
  qed (use inv in \<open>simp_all add: signed_port_same lease_ok_clock\<close>)
qed


section \<open>Handing over to the next process\<close>

text \<open>A key that was read from JSON has a port of 64 bits.\<close>

lemma obj_get_invariant:
  "(\<And>v x. dec v = Some x \<Longrightarrow> P x) \<Longrightarrow> P cur \<Longrightarrow> obj_get dec key cur kvs = Some y \<Longrightarrow> P y"
  by (induction dec key cur kvs rule: obj_get.induct) (auto split: if_splits option.splits)

lemma dec_AddKeyResult_port: "dec_AddKeyResult j = Some k \<Longrightarrow> in64 (ak_ServerPort k)"
proof -
  have "in64 n" if "field dec_int 0 key j = Some n" for key n
  proof -
    obtain kvs where "obj_get dec_int key 0 kvs = Some n"
      using \<open>field dec_int 0 key j = Some n\<close> by (cases "json_members j") (auto simp: field_def)
    then show ?thesis
    proof (rule obj_get_invariant [rotated 2])
      fix v x assume "dec_int v = Some x"
      then show "in64 x" by (cases v) (auto split: if_splits)
    qed (simp add: in64_def)
  qed
  then show "dec_AddKeyResult j = Some k \<Longrightarrow> in64 (ak_ServerPort k)"
    by (auto simp: dec_AddKeyResult_def split: option.splits)
qed

lemma AddKey_port:
  assumes "AddKey token key s = (Ok k, s')"
  shows "in64 (ak_ServerPort k)"
proof -
  obtain resp w where "body_Decode dec_AddKeyResult resp w = Ok k"
    using assms by (auto simp only: AddKey_def Let_def io_try_eq_Ok io_wrap_eq_Ok prod.inject)
  then show ?thesis using dec_AddKeyResult_port by (auto simp: body_Decode_Ok bind_eq_Some_conv)
qed

lemma daemon_generate_port:
  assumes "daemon_generate opts s = (Ok gen, s')"
  shows "in64 (ak_ServerPort (gr_Key gen))"
proof -
  obtain t k q q' where "AddKey t k q = (Ok (gr_Key gen), q')"
    using assms
    by (auto simp: daemon_generate_def GenerateWithMetadata_def io_try_eq_Ok io_wrap_eq_Ok split: if_splits prod.splits)
  then show ?thesis by (rule AddKey_port)
qed

lemma daemon_files:
  assumes "opts = daemon_options_of c username password mode"
  shows "\<not> temp_path (do_configPath opts)" "\<not> temp_path (do_pendingPFPath opts)"
    "do_pendingPFPath opts \<noteq> do_configPath opts" "do_statusPath opts \<noteq> do_configPath opts"
    "do_statusPath opts \<noteq> do_pendingPFPath opts"
  unfolding assms daemon_options_of_def Let_def daemon_options.select_convs mustStatePath_def
  by (simp_all add: temp_path_Join path_Join_inject plain_file_names)
    (simp_all add: file_names)

text \<open>The daemon exits only after the restart, with the registration on disk.\<close>

lemma failing_Ok: "failing f v r = (Ok x, v', w') \<longleftrightarrow> r = (Ok x, w') \<and> v' = v"
  by (cases r; cases "fst r") (auto simp: failing_def)

lemma daemon_restart_exits:
  assumes "daemon_restart opts key (v, w) = (Ok True, v', w')"
  obtains u where "net_run w u" "writePendingPortForward (do_pendingPFPath opts) key u = (Ok (), w')"
    "do_portForwarding opts" "do_restartContainer opts \<noteq> []"
proof -
  obtain x1 w1 where 1: "runConfigHook (do_configHookCmd opts) (do_stateDir opts) (do_configPath opts)
      (do_forwardedPortPath opts) (dv_lastPort v) w = (Ok x1, w1)"
    and 2: "do_restartContainer opts \<noteq> []" "do_portForwarding opts"
    and 3: "\<exists>x2 w2. restartDockerContainer (do_dockerSocket opts) (do_restartContainer opts) w1 = (Ok x2, w2) \<and>
      writePendingPortForward (do_pendingPFPath opts) key w2 = (Ok (), w')"
    using assms by (auto simp: daemon_restart_def io_try_eq_Ok failing_Ok split: if_splits)
  from 3 obtain x2 w2 where 4: "restartDockerContainer (do_dockerSocket opts) (do_restartContainer opts) w1 = (Ok x2, w2)"
    "writePendingPortForward (do_pendingPFPath opts) key w2 = (Ok (), w')" by blast
  have "net_run w w1" using runConfigHook_net_run 1 by (metis snd_conv)
  also have "net_run w1 w2" using restartDocker_net_run 4(1) by (metis restartDockerContainer_def snd_conv)
  finally show thesis using that 4(2) 2 by blast
qed

lemma daemon_leaves:
  assumes "daemon_iteration n opts (v, w) = Some (Ok Leave, v', w')"
  obtains p u gen p' u1 u2 v2 w2 where "daemon_generate opts (p, u) = (Ok gen, p', u1)"
    "atomicWriteFile (do_configPath opts) (Text (gr_Config gen)) 420 u1 = (Ok (), u2)"
    "daemon_restart opts (gr_Key gen) (v2, u2) = (Ok True, v', w2)" "w' = write_status opts v' w2"
  using assms
proof (cases rule: daemon_iteration_cases)
  case (3 nx p v1 u)
  from 3(2) show ?thesis
  proof (cases rule: daemon_refresh_cases)
    case (3 gen p' u1 u2 q)
    then obtain v3 w3 where q: "q = (Ok True, v3, w3)"
      by (cases q; cases "fst q") (auto simp: daemon_finish_def split: if_splits)
    then have "daemon_restart opts (gr_Key gen) (v1, u2) = (Ok True, v3, w3)"
      using 3(4) by (auto simp: daemon_apply_def fuel_try_def split: option.splits prod.splits res.splits if_splits)
    moreover have "v' = v3" "w' = write_status opts v3 w3" using 3(5) q by (simp_all add: daemon_finish_def)
    ultimately show ?thesis using that 3(1,3) by blast
  qed (simp_all add: give_up_def Let_def)
next
  case (4 nx p v1 u pending)
  then show ?thesis
    by (auto simp: daemon_resume_def give_up_def Let_def split: option.splits prod.splits res.splits)
qed (simp_all add: give_up_def Let_def)


lemma NewPIAClient_net_run: "net_run w (snd (NewPIAClient u pw region verbose pf w))"
proof -
  have "net_run w (snd (getServerList w))"
    unfolding getServerList_def
    by (intro runs_io_try) (auto simp: Let_def intro: http_Get_runs split: option.splits)
  then show ?thesis
    unfolding NewPIAClient_def Let_def by (intro runs_io_try) simp_all
qed

section \<open>The contract of the daemon\<close>




section \<open>A sample run\<close>

text \<open>
  Servers that answer with one document, which reads as a server list and as a registered key,
  and a Docker daemon that confirms the restart.
\<close>

definition daemon_document :: json where
  "daemon_document = JObj [(''status'', JStr ''OK''), (''server_key'', JStr ''K''), (''server_port'', JNum 1337),
     (''server_ip'', JStr ''1.1.1.2''), (''gateway'', JStr ''10.0.0.1''), (''peer_ip'', JStr ''10.0.0.7''),
     (''dns_servers'', JList [JStr ''10.0.0.243'']),
     (''regions'', JList [JObj [(''id'', JStr ''nl''), (''name'', JStr ''Netherlands''), (''port_forward'', JBool True),
        (''servers'', JObj [(''meta'', JList [JObj [(''ip'', JStr ''1.1.1.1''), (''cn'', JStr ''nl-m'')]]),
                            (''wg'', JList [JObj [(''ip'', JStr ''1.1.1.2''), (''cn'', JStr ''nl-w'')]])])]])]"

definition daemon_key :: AddKeyResult where
  "daemon_key = \<lparr>ak_Status = ''OK'', ak_ServerKey = ''K'', ak_ServerPort = 1337, ak_ServerIP = ''1.1.1.2'', ak_ServerVip = [],
     ak_Gateway = ''10.0.0.1'', ak_PeerIP = ''10.0.0.7'', ak_PeerPubkey = [], ak_DNSServers = [''10.0.0.243'']\<rparr>"

definition daemon_reply :: http_response where
  "daemon_reply = calm_response\<lparr>hr_body := ''{}''\<rparr>"

definition daemon_context :: cli_context where
  "daemon_context = \<lparr>c_args = [''u'', ''p''],
     c_String = (\<lambda>k. if k = ''state-dir'' then ''/s'' else if k = ''region'' then ''nl''
                      else if k = ''restart-container'' then ''gluetun'' else []),
     c_Bool = (\<lambda>k. k = ''port-forwarding''), c_Duration = (\<lambda>_. 0), c_Int = (\<lambda>_. 0)\<rparr>"

definition daemon_sample :: daemon_options where
  "daemon_sample = daemon_options_of daemon_context ''u'' ''p'' IPv6ModeOn"

lemma daemon_sample_fields:
  "do_username daemon_sample = ''u''" "do_password daemon_sample = ''p''" "do_region daemon_sample = ''nl''"
  "do_verbose daemon_sample = False" "do_serverName daemon_sample = False" "do_portForwarding daemon_sample = True"
  "do_ipv6Mode daemon_sample = IPv6ModeOn" "do_restartContainer daemon_sample = ''gluetun''" "do_configHookCmd daemon_sample = []"
  "do_dockerSocket daemon_sample = []" "do_interval daemon_sample = 0" "do_jitterMax daemon_sample = 0"
  "do_configPath daemon_sample = ''/s/wg0.conf''" "do_pendingPFPath daemon_sample = ''/s/pending_port_forward.json''"
  "do_statusPath daemon_sample = ''/s/status.json''"
  by code_simp+

text \<open>The world after some requests: \<open>http\<close> are the answers that are left.\<close>

definition daemon_world :: "(goerr + http_response) stream \<Rightarrow> effect list \<Rightarrow> world" where
  "daemon_world http tr = (calm_world hour)\<lparr>
     w_http := http, w_json := (\<lambda>_. Some daemon_document), w_json_first := (\<lambda>_. Some daemon_document), w_trace := tr,
     w_files := [''/app/.pia_token.json'' \<mapsto> \<lparr>f_content = Doc token_document, f_perm = 384, f_mtime = 5\<rparr>]\<rparr>"

definition confirmations :: "(goerr + http_response) stream" where
  "confirmations = sconst (Inr (calm_response\<lparr>hr_code := 204\<rparr>))"

lemma daemon_world_simps:
  "w_calls (daemon_world h tr) = sconst None" "w_ticks (daemon_world h tr) = sconst 0" "w_clock (daemon_world h tr) = hour"
  "w_url_error (daemon_world h tr) u = None" "w_http (daemon_world h tr) = h"
  "w_json_first (daemon_world h tr) x = Some daemon_document" "w_json (daemon_world h tr) x = Some daemon_document"
  by (simp_all add: daemon_world_def calm_world_def)

lemma daemon_world_Do:
  "http_Do client req (daemon_world (Inr r ## h) tr) = (Ok r, daemon_world h (tr @ [EvHttp client req]))"
  by (simp add: http_Do_def emit_def daemon_world_def calm_world_def)

lemma daemon_world_Get:
  "http_Get client u (daemon_world (Inr r ## h) tr) = (Ok r, daemon_world h (tr @ [EvHttp client (get_request u)]))"
  by (simp add: http_Get_sent daemon_world_simps daemon_world_Do)

lemma daemon_world_Now: "time_Now (daemon_world h tr) = (hour, daemon_world h tr)"
  by (simp add: time_Now_def daemon_world_def calm_world_def)

lemma daemon_sample_client:
  "\<exists>p tr'. NewPIAClient ''u'' ''p'' ''nl'' False True (daemon_world (Inr daemon_reply ## h) tr) = (Ok p, daemon_world h tr') \<and>
     getWireguardServerForRegion p = Ok \<lparr>srv_Cn = ''nl-w'', srv_IP = ''1.1.1.2''\<rparr> \<and> pc_caCert p = []"
proof -
  have "dec_PIAServerList daemon_document = Some pf_regions" by code_simp
  then have 1: "\<exists>tr'. getServerList (daemon_world (Inr daemon_reply ## h) tr) = (Ok pf_regions, daemon_world h tr')"
    by (simp add: getServerList_def daemon_world_Get daemon_world_simps body_ReadAll_def daemon_reply_def calm_response_def) blast
  have 2: "generateMetadataServerList True pf_regions = Ok [(''nl'', [\<lparr>srv_Cn = ''nl-m'', srv_IP = ''1.1.1.1''\<rparr>])]"
    "generateWireguardServerList True pf_regions = Ok [(''nl'', [\<lparr>srv_Cn = ''nl-w'', srv_IP = ''1.1.1.2''\<rparr>])]"
    "resolveRegionID True ''nl'' pf_regions = Ok ''nl''" by code_simp+
  from 1 2 show ?thesis
    by (auto simp: NewPIAClient_def Let_def getWireguardServerForRegion_def servers_get_def first_server_def)
qed


lemma daemon_sample_token: "GetToken (p, daemon_world h tr) = (Ok ''tok'', p, daemon_world h tr)"
proof -
  have t: "TrimSpace ''tok'' = ''tok''" "TrimSpace ''/app/pia-wg-config'' = ''/app/pia-wg-config''"
    "path_Join (path_Dir ''/app/pia-wg-config'') ''.pia_token.json'' = ''/app/.pia_token.json''" by code_simp+
  have d: "dec_cachedTokenFile token_document = Some \<lparr>ct_Token = ''tok'', ct_ExpiresUTC = 24 * hour, ct_IssuedUTC = hour, ct_Version = 1\<rparr>"
    by code_simp
  have "readCachedToken hour (daemon_world h tr) = (Ok (''tok'', 24 * hour), daemon_world h tr)"
    by (simp add: readCachedToken_def getTokenCachePath_def t d ReadFile_eq json_of_def time_ops token_skew_def Let_def
        daemon_world_def calm_world_def)
  then show ?thesis by (simp add: GetToken_def daemon_world_Now)
qed

lemma daemon_sample_AddKey:
  assumes "getWireguardServerForRegion p = Ok server" and "pc_caCert p = []"
  shows "\<exists>p' tr'. AddKey ''tok'' key (p, daemon_world (Inr daemon_reply ## Inr daemon_reply ## h) tr) =
    (Ok daemon_key, p', daemon_world h tr')"
proof -
  have d: "dec_AddKeyResult daemon_document = Some daemon_key" by code_simp
  show ?thesis
    by (simp add: AddKey_def assms executePIARequest_def http_NewRequest_def daemon_world_simps Let_def downloadPIACertificate_def
        on_world_def daemon_world_Get daemon_world_Do body_ReadAll_def body_Decode_def d daemon_reply_def calm_response_def) blast
qed

lemma daemon_sample_generate:
  assumes "getWireguardServerForRegion p = Ok server" and "pc_caCert p = []"
  shows "\<exists>gen p' tr'. daemon_generate daemon_sample (p, daemon_world (Inr daemon_reply ## Inr daemon_reply ## h) tr) =
    (Ok gen, p', daemon_world h tr') \<and> gr_Key gen = daemon_key"
proof -
  let ?w = "daemon_world (Inr daemon_reply ## Inr daemon_reply ## h) tr"
  let ?g = "NewPIAWgGenerator pia_methods \<lparr>gc_Verbose = False, gc_ServerName = False, gc_PrivateKey = [],
     gc_PublicKey = [], gc_IPv6Mode = IPv6ModeOn\<rparr>"
  have keys: "generateKeys ?g ?w = (Ok (''priv'', ''pub''), ?w)"
    by (simp add: generateKeys_def NewPIAWgGenerator_def wg_GenerateKey_def daemon_world_def calm_world_def)
  obtain p' tr' where add: "AddKey ''tok'' ''pub'' (p, ?w) = (Ok daemon_key, p', daemon_world h tr')"
    using daemon_sample_AddKey [OF assms] by blast
  obtain cfg where cfg: "config_of IPv6ModeOn [] daemon_key ''priv'' = Ok cfg"
    using config_of_Ok_iff [of IPv6ModeOn "[]" daemon_key "''priv''"]
    by (auto simp: daemon_key_def TrimSpace_plain plain_byte_def)
  have "generateConfig ?g daemon_key ''priv'' s = (Ok cfg, s)" for s :: "PIAClient \<times> world"
    by (simp add: generateConfig_def NewPIAWgGenerator_def cfg)
  moreover have "ak_Status daemon_key = ''OK''" by (simp add: daemon_key_def)
  ultimately show ?thesis
    by (simp add: daemon_generate_def GenerateWithMetadata_def daemon_sample_fields daemon_sample_token keys on_world_def add) blast
qed


text \<open>Once the key is registered, the file writes succeed and Docker confirms the restart.\<close>

lemma daemon_sample_restart:
  assumes "calm_calls w" and "no_temps w" and "w_http w = confirmations" and "w_url_error w = (\<lambda>_. None)"
    and "w_clock w = hour" and "w_ticks w = sconst 0"
  shows "\<exists>w'. daemon_restart daemon_sample daemon_key (v, w) = (Ok True, v, w')"
proof -
  have t: "TrimSpace [] = []" "TrimSpace ''gluetun'' = ''gluetun''" by code_simp+
  have "shd (w_http w) = Inr (calm_response\<lparr>hr_code := 204\<rparr>)" by (simp add: assms(3) confirmations_def)
  then have "\<exists>e. restartDockerContainer [] ''gluetun'' w = (Ok (), emit (EvHttp (fst e) (snd e)) (w\<lparr>w_http := stl (w_http w)\<rparr>))"
    using assms(4)
    by (simp add: restartDockerContainer_def restartDockerContainerWithClient_def t Let_def http_NewRequest_def http_Do_def
        calm_response_def) blast
  then obtain e where r: "restartDockerContainer [] ''gluetun'' w = (Ok (), emit (EvHttp (fst e) (snd e)) (w\<lparr>w_http := stl (w_http w)\<rparr>))"
    by blast
  define u where "u = emit (EvHttp (fst e) (snd e)) (w\<lparr>w_http := stl (w_http w)\<rparr>)"
  have u: "time_Now u = (hour, u)" "calm_calls u" "no_temps u"
    using assms(1,2,5,6) by (simp_all add: u_def emit_def time_Now_def calm_calls_def no_temps_def)
  obtain j where j: "enc_pending \<lparr>pp_CreatedUTC = hour, pp_Key = daemon_key\<rparr> = Some j"
    by (simp add: enc_pending_def enc_time_def json_time_ok_def)
  have "\<not> temp_path ''/s/pending_port_forward.json''" by (simp add: temp_path_def path_base_def)
  then obtain w' where "writePendingPortForward ''/s/pending_port_forward.json'' daemon_key u = (Ok (), w')"
    using atomicWriteFile_calm [OF u(2,3)] by (simp add: writePendingPortForward_def u(1) j)
  then show ?thesis
    using r by (simp add: daemon_restart_def daemon_sample_fields runConfigHook_def t failing_def u_def [symmetric])
qed

lemma daemon_sample_leaves:
  "\<exists>v' w'. daemon_iteration 0 daemon_sample (v, daemon_world (Inr daemon_reply ## Inr daemon_reply ## Inr daemon_reply ## confirmations) []) =
     Some (Ok Leave, v', w')"
proof -
  let ?w = "daemon_world (Inr daemon_reply ## Inr daemon_reply ## Inr daemon_reply ## confirmations) []"
  obtain v1 where i: "iteration_start daemon_sample v ?w = (hour, v1, ?w)"
    by (simp add: iteration_start_def Let_def daemon_world_Now applyJitter_def daemon_sample_fields time_Add_def)
  obtain p tr where c: "NewPIAClient ''u'' ''p'' ''nl'' False True ?w = (Ok p, daemon_world (Inr daemon_reply ## Inr daemon_reply ## confirmations) tr)"
    and p: "getWireguardServerForRegion p = Ok \<lparr>srv_Cn = ''nl-w'', srv_IP = ''1.1.1.2''\<rparr>" "pc_caCert p = []"
    using daemon_sample_client by blast
  obtain gen p' tr' where g: "daemon_generate daemon_sample (p, daemon_world (Inr daemon_reply ## Inr daemon_reply ## confirmations) tr) =
      (Ok gen, p', daemon_world confirmations tr')" "gr_Key gen = daemon_key"
    using daemon_sample_generate [OF p] by blast
  let ?u = "daemon_world confirmations tr'"
  have pend: "readPendingPortForward ''/s/pending_port_forward.json'' (daemon_world h t) = (Ok None, daemon_world h t)" for h t
    by (simp add: readPendingPortForward_def ReadFile_eq daemon_world_def calm_world_def)
  have u: "calm_calls ?u" "no_temps ?u" by (simp_all add: daemon_world_def calm_world_def calm_calls_def no_temps_def temp_path_def path_base_def)
  have cp: "\<not> temp_path ''/s/wg0.conf''" by (simp add: temp_path_def path_base_def)
  define x where "x = snd (atomicWriteFile ''/s/wg0.conf'' (Text (gr_Config gen)) 420 ?u)"
  have wr: "atomicWriteFile ''/s/wg0.conf'' (Text (gr_Config gen)) 420 ?u = (Ok (), x)"
    and "calm_calls x" "no_temps x" "w_http x = confirmations" "w_url_error x = (\<lambda>_. None)" "w_clock x = hour" "w_ticks x = sconst 0"
    using u cp by (simp_all add: x_def atomicWriteFile_calm [OF u cp] daemon_world_simps) (simp_all add: daemon_world_def calm_world_def calm_calls_def)
  from daemon_sample_restart [OF this(2-7), of v1] obtain y where y: "daemon_restart daemon_sample daemon_key (v1, x) = (Ok True, v1, y)"
    by blast
  have "daemon_apply 0 daemon_sample daemon_key p' (v1, x) = Some (Ok True, v1, y)" by (simp add: daemon_apply_def y)
  then show ?thesis
    by (simp add: daemon_iteration_start [OF i] daemon_sample_fields c pend daemon_refresh_def g wr daemon_finish_def)
qed


text \<open>With the pending registration of the sample of \<open>PfDaemon\<close>, the first iteration takes up its port.\<close>

lemma daemon_sample_resumes:
  assumes "dv_lastPort v = []"
  shows "\<exists>v' w'. daemon_iteration 0 daemon_sample (v, pf_world) = Some (Ok (Until hour), v', w') \<and>
    ls_enabled (dv_lease v') \<and> ls_port (dv_lease v') = ''51820''"
proof -
  have now: "time_Now pf_world = (hour, pf_world)" by (simp add: time_Now_def pf_world_def calm_world_def)
  have like: "pf_like pf_world" using pf_like_pf_world [of hour] by (simp add: pf_world_def calm_world_def)
  obtain v1 where i: "iteration_start daemon_sample v pf_world = (hour, v1, pf_world)"
    by (simp add: iteration_start_def Let_def now applyJitter_def daemon_sample_fields time_Add_def)
  obtain p w2 where c: "NewPIAClient ''u'' ''p'' ''nl'' False True pf_world = (Ok p, w2)" "pf_like w2"
    using pf_client [OF like] by blast
  have "gatewayFromKeyMeta (pp_Key pf_pending) = Ok ''10.0.0.1''" by code_simp
  with pf_acquire [OF c(2), of p] obtain w3 where a: "acquirePortForwardAfterGatewayWait 0 (pp_Key pf_pending) False
      (do_gatewayTimeout daemon_sample) (do_gatewayInterval daemon_sample) False (p, w2) = Some (Ok (''51820'', pf_signature, ''10.0.0.1''), p, w3)"
    and like3: "pf_like w3"
    by (auto simp: acquirePortForwardAfterGatewayWait_def)
  have wait: "do_waitForGateway daemon_sample = False" "do_forwardedPortPath daemon_sample = ''/s/forwarded_port''" by code_simp+
  have "calm_calls w3" "no_temps w3"
    using like3 by (auto simp: pf_like_def pf_world_def calm_world_def calm_calls_def no_temps_def temp_path_def path_base_def)
  moreover have "\<not> temp_path ''/s/forwarded_port''" by (simp add: temp_path_def path_base_def)
  ultimately obtain w4 where w4: "atomicWriteFile ''/s/forwarded_port'' (Text ''51820'') 420 w3 = (Ok (), w4)"
    using atomicWriteFile_calm by blast
  show ?thesis
    by (simp add: daemon_iteration_start [OF i] daemon_sample_fields c pf_like_pending [OF c(2)] daemon_resume_def a wait w4
        take_port_def Let_def split_beta)
qed


end
