(* ===== verification/Healthcheck.thy ===== *)
theory Healthcheck
  imports Refresh_Safety
begin

text \<open>
  healthcheck.go, the container health probe: it judges the refresh daemon by the files it
  leaves, the configuration and \<^verbatim>\<open>status.json\<close>. The theory also has the decoder of
  \<^verbatim>\<open>status.json\<close>, which no other command needs in full.
\<close>

section \<open>Reading the status\<close>

definition dec_daemonStatus :: "json \<Rightarrow> daemonStatus option" where
  "dec_daemonStatus j = do {
     region \<leftarrow> field dec_string [] ''region'' j;
     mode \<leftarrow> field dec_string [] ''mode'' j;
     lastGenerate \<leftarrow> field dec_time 0 ''last_generate_utc'' j;
     lastForwardPort \<leftarrow> field dec_string [] ''last_forward_port'' j;
     lastError \<leftarrow> field dec_string [] ''last_error'' j;
     nextRefresh \<leftarrow> field dec_time 0 ''next_refresh_utc'' j;
     portForwarding \<leftarrow> field dec_bool False ''port_forwarding'' j;
     serverName \<leftarrow> field dec_bool False ''server_name_enabled'' j;
     ipv6Mode \<leftarrow> field dec_string [] ''ipv6_mode'' j;
     registration \<leftarrow> field dec_time 0 ''registration_utc'' j;
     age \<leftarrow> field dec_int 0 ''registration_age_seconds'' j;
     expectedExpiry \<leftarrow> field dec_time 0 ''expected_expiry_utc'' j;
     lifetimeSource \<leftarrow> field dec_string [] ''lifetime_source'' j;
     measuredLifetime \<leftarrow> field dec_int 0 ''measured_lifetime_seconds'' j;
     tunnelHealthy \<leftarrow> field dec_bool False ''tunnel_healthy'' j;
     controlStatus \<leftarrow> field dec_string [] ''control_status'' j;
     publicIPPresent \<leftarrow> field (\<lambda>v. map_option Some (dec_bool v)) None ''public_ip_present'' j;
     lastHealthCheck \<leftarrow> field dec_time 0 ''last_health_check_utc'' j;
     lastHealthy \<leftarrow> field dec_time 0 ''last_healthy_utc'' j;
     unhealthySince \<leftarrow> field dec_time 0 ''unhealthy_since_utc'' j;
     lastRecovery \<leftarrow> field dec_time 0 ''last_recovery_utc'' j;
     recoveryCount \<leftarrow> field dec_int 0 ''recovery_count'' j;
     failedAttempts \<leftarrow> field dec_int 0 ''consecutive_failed_attempts'' j;
     Some \<lparr>ds_Region = region, ds_Mode = mode, ds_LastGenerateUTC = lastGenerate,
       ds_LastForwardPort = lastForwardPort, ds_LastError = lastError, ds_NextRefreshUTC = nextRefresh,
       ds_PortForwarding = portForwarding, ds_ServerNameEnabled = serverName, ds_IPv6Mode = ipv6Mode,
       ds_RegistrationUTC = registration, ds_RegistrationAgeSecs = age, ds_ExpectedExpiryUTC = expectedExpiry,
       ds_LifetimeSource = lifetimeSource, ds_MeasuredLifetimeSecs = measuredLifetime,
       ds_TunnelHealthy = tunnelHealthy, ds_ControlStatus = controlStatus, ds_PublicIPPresent = publicIPPresent,
       ds_LastHealthCheckUTC = lastHealthCheck, ds_LastHealthyUTC = lastHealthy,
       ds_UnhealthySinceUTC = unhealthySince, ds_LastRecoveryUTC = lastRecovery,
       ds_RecoveryCount = recoveryCount, ds_FailedAttempts = failedAttempts\<rparr>
   }"

section \<open>The command\<close>

definition defaultHealthMaxStatusAge :: duration where "defaultHealthMaxStatusAge = 10 * minute"
definition defaultHealthMaxUnhealthy :: duration where "defaultHealthMaxUnhealthy = 10 * minute"
definition defaultHealthExpiryGrace :: duration where "defaultHealthExpiryGrace = hour"

record healthOptions =
  ho_configPath :: string
  ho_statusPath :: string
  ho_maxStatusAge :: duration
  ho_maxUnhealthy :: duration
  ho_expiryGrace :: duration
  ho_now :: time

definition file_Size :: "os_file \<Rightarrow> nat" where
  "file_Size f = (case f_content f of Text s \<Rightarrow> length s | Doc _ \<Rightarrow> 2)"

text \<open>
  The two judgements on the contents of the status. (The size of a document is at least that of
  its braces; only whether it is zero matters.)
\<close>

definition judge_outage :: "healthOptions \<Rightarrow> daemonStatus \<Rightarrow> unit res" where
  "judge_outage opts st =
     (if ds_TunnelHealthy st then Ok ()
      else if time_IsZero (ds_UnhealthySinceUTC st)
      then Err (errors_New ''tunnel is not healthy and no outage start is recorded'')
      else let down = time_Sub (ho_now opts) (ds_UnhealthySinceUTC st) in
           if ho_maxUnhealthy opts > 0 \<and> down > ho_maxUnhealthy opts
           then Err (errors_New (''tunnel has been unhealthy for '' @ duration_String (round_second down) @
                  '' (limit '' @ duration_String (ho_maxUnhealthy opts) @ '')''))
           else Ok ())"

definition judge_expiry :: "healthOptions \<Rightarrow> daemonStatus \<Rightarrow> unit res" where
  "judge_expiry opts st =
     (if time_IsZero (ds_ExpectedExpiryUTC st) then Ok ()
      else let over = time_Sub (ho_now opts) (ds_ExpectedExpiryUTC st) in
           if over > ho_expiryGrace opts
           then Err (errors_New (''registration is '' @ duration_String (round_second over) @
                  '' past its expected expiry ('' @ rfc3339 (ds_ExpectedExpiryUTC st - ds_ExpectedExpiryUTC st mod second) @
                  '', grace '' @ duration_String (ho_expiryGrace opts) @ ''): the proactive refresh is not happening''))
           else Ok ())"

definition evaluateHealth :: "healthOptions \<Rightarrow> world \<Rightarrow> unit res \<times> world" where
  "evaluateHealth opts w =
     io_try (io_wrap (errors_Wrap ''wg0.conf is missing'') (Stat (ho_configPath opts) w)) (\<lambda>cfg w.
     if file_Size cfg = 0 then (Err (errors_New ''wg0.conf is empty''), w)
     else
     io_try (io_wrap (errors_Wrap ''status.json is missing'') (Stat (ho_statusPath opts) w)) (\<lambda>info w.
     let age = time_Sub (ho_now opts) (f_mtime info) in
     if ho_maxStatusAge opts > 0 \<and> age > ho_maxStatusAge opts
     then (Err (errors_New (''status.json was last written '' @ duration_String (round_second age) @ '' ago (limit '' @
             duration_String (ho_maxStatusAge opts) @ ''): the daemon loop looks stuck'')), w)
     else
     io_try (io_wrap (errors_Wrap ''status.json is unreadable'') (ReadFile (ho_statusPath opts) w)) (\<lambda>data w.
     case Option.bind (json_of data w) dec_daemonStatus of
       None \<Rightarrow> (Err (errors_Wrap ''status.json is not valid JSON'' (errors_New ''invalid JSON'')), w)
     | Some st \<Rightarrow> io_try (judge_outage opts st, w) (\<lambda>_ w. (judge_expiry opts st, w)))))"

text \<open>The action of the command: exit code 0 and a line, or an error that exits with 1.\<close>

definition health_options_of :: "cli_context \<Rightarrow> time \<Rightarrow> healthOptions" where
  "health_options_of c now =
     (let stateDir = c_String c ''state-dir'' in
      \<lparr>ho_configPath = mustStatePath stateDir defaultConfigFileName,
       ho_statusPath = mustStatePath stateDir defaultStatusFileName,
       ho_maxStatusAge = c_Duration c ''max-status-age'', ho_maxUnhealthy = c_Duration c ''max-unhealthy'',
       ho_expiryGrace = c_Duration c ''expiry-grace'', ho_now = now\<rparr>)"

definition runHealthcheck :: "cli_context \<Rightarrow> world \<Rightarrow> unit res \<times> world" where
  "runHealthcheck c w =
     (let (now, w) = time_Now w; (verdict, w) = evaluateHealth (health_options_of c now) w in
      case verdict of
        Err e \<Rightarrow> (Err (errors_New (''UNHEALTHY: '' @ emsg e)), w)
      | Panic m \<Rightarrow> (Panic m, w)
      | Ok _ \<Rightarrow> (Ok (), snd (stdout_Write (Text (''OK'' @ [CHR 0x0A])) w)))"

section \<open>The status is read back\<close>

text \<open>The members of the first pass, by key.\<close>

lemma alias_map:
  "map_of (alias_members s) ''region'' = Some (JStr (ds_Region s))"
  "map_of (alias_members s) ''mode'' = (if ds_Mode s = [] then None else Some (JStr (ds_Mode s)))"
  "map_of (alias_members s) ''last_generate_utc'' = Some (JTime (ds_LastGenerateUTC s))"
  "map_of (alias_members s) ''last_forward_port'' = (if ds_LastForwardPort s = [] then None else Some (JStr (ds_LastForwardPort s)))"
  "map_of (alias_members s) ''last_error'' = (if ds_LastError s = [] then None else Some (JStr (ds_LastError s)))"
  "map_of (alias_members s) ''next_refresh_utc'' = Some (JTime (ds_NextRefreshUTC s))"
  "map_of (alias_members s) ''port_forwarding'' = Some (JBool (ds_PortForwarding s))"
  "map_of (alias_members s) ''server_name_enabled'' = Some (JBool (ds_ServerNameEnabled s))"
  "map_of (alias_members s) ''ipv6_mode'' = Some (JStr (ds_IPv6Mode s))"
  "map_of (alias_members s) ''registration_utc'' = Some (JTime (ds_RegistrationUTC s))"
  "map_of (alias_members s) ''registration_age_seconds'' = Some (JNum (ds_RegistrationAgeSecs s))"
  "map_of (alias_members s) ''expected_expiry_utc'' = Some (JTime (ds_ExpectedExpiryUTC s))"
  "map_of (alias_members s) ''lifetime_source'' = (if ds_LifetimeSource s = [] then None else Some (JStr (ds_LifetimeSource s)))"
  "map_of (alias_members s) ''measured_lifetime_seconds'' = (if ds_MeasuredLifetimeSecs s = 0 then None else Some (JNum (ds_MeasuredLifetimeSecs s)))"
  "map_of (alias_members s) ''tunnel_healthy'' = Some (JBool (ds_TunnelHealthy s))"
  "map_of (alias_members s) ''control_status'' = (if ds_ControlStatus s = [] then None else Some (JStr (ds_ControlStatus s)))"
  "map_of (alias_members s) ''last_health_check_utc'' = Some (JTime (ds_LastHealthCheckUTC s))"
  "map_of (alias_members s) ''last_healthy_utc'' = Some (JTime (ds_LastHealthyUTC s))"
  "map_of (alias_members s) ''unhealthy_since_utc'' = Some (JTime (ds_UnhealthySinceUTC s))"
  "map_of (alias_members s) ''last_recovery_utc'' = Some (JTime (ds_LastRecoveryUTC s))"
  "map_of (alias_members s) ''recovery_count'' = (if ds_RecoveryCount s = 0 then None else Some (JNum (ds_RecoveryCount s)))"
  "map_of (alias_members s) ''consecutive_failed_attempts'' = (if ds_FailedAttempts s = 0 then None else Some (JNum (ds_FailedAttempts s)))"
  "map_of (alias_members s) ''public_ip_present'' = map_option JBool (ds_PublicIPPresent s)"
  unfolding alias_members_def by (simp_all add: omit_if_def split: option.split)

text \<open>A field of the written document: what was written, or the zero value if it was left out.\<close>

lemma status_field:
  assumes "kvs = sort_key fst (filter (\<lambda>(k, v). \<not> dropped s k v) (alias_members s))" and "lower_text k"
  shows "field dec z k (JObj kvs) =
    (case map_of (alias_members s) k of
       None \<Rightarrow> Some z
     | Some v \<Rightarrow> if dropped s k v \<or> v = JNull then Some z else dec v)"
  using obj_get_map_of [OF lower_keys_marshalled(1) [OF assms(1)] assms(2), of dec z]
  by (simp add: field_def lower_keys_marshalled(2) [OF assms(1)] split: option.splits)

definition ok_daemonStatus :: "daemonStatus \<Rightarrow> bool" where
  "ok_daemonStatus s \<longleftrightarrow> list_all (json_time_ok \<circ> snd) (status_times s) \<and> in64 (ds_RegistrationAgeSecs s) \<and>
     in64 (ds_MeasuredLifetimeSecs s) \<and> in64 (ds_RecoveryCount s) \<and> in64 (ds_FailedAttempts s) \<and>
     (ds_RegistrationUTC s = 0 \<longrightarrow> ds_RegistrationAgeSecs s = 0)"

lemma key_lower: "k \<in> set status_keys \<Longrightarrow> lower_text k"
  using status_keys_lower(2) by (simp only: list_all_iff)

lemma time_field:
  assumes "kvs = sort_key fst (filter (\<lambda>(k, v). \<not> dropped s k v) (alias_members s))" and "k \<in> set status_keys"
    and "map_of (alias_members s) k = Some (JTime t)" and "k \<noteq> ''registration_age_seconds''"
  shows "field dec_time 0 k (JObj kvs) = Some t"
  using assms(3,4) status_field [OF assms(1) key_lower [OF assms(2)], of dec_time 0] by (auto simp: dropped_def)

lemma plain_field:
  assumes "kvs = sort_key fst (filter (\<lambda>(k, v). \<not> dropped s k v) (alias_members s))" and "k \<in> set status_keys"
    and "map_of (alias_members s) k = x" and "k \<noteq> ''registration_age_seconds''" and "x \<noteq> Some (JTime 0)" and "x \<noteq> Some JNull"
  shows "field dec z k (JObj kvs) = (case x of None \<Rightarrow> Some z | Some v \<Rightarrow> dec v)"
  using assms(3-6) status_field [OF assms(1) key_lower [OF assms(2)], of dec z] by (auto simp: dropped_def split: option.splits)

lemma age_field:
  assumes "kvs = sort_key fst (filter (\<lambda>(k, v). \<not> dropped s k v) (alias_members s))" and "ok_daemonStatus s"
  shows "field dec_int 0 ''registration_age_seconds'' (JObj kvs) = Some (ds_RegistrationAgeSecs s)"
proof -
  have "lower_text ''registration_age_seconds''" by code_simp
  from status_field [OF assms(1) this, of dec_int 0] assms(2) show ?thesis
    by (simp add: alias_map dropped_def omittable_def ok_daemonStatus_def)
qed

lemma dec_MarshalJSON:
  assumes "ok_daemonStatus s" and "MarshalJSON s = Some j"
  shows "dec_daemonStatus j = Some s"
proof -
  define kvs where kvs: "kvs = sort_key fst (filter (\<lambda>(k, v). \<not> dropped s k v) (alias_members s))"
  have j: "j = JObj kvs" using assms(2) by (simp add: MarshalJSON_members kvs split: if_splits)
  note tf = time_field [OF kvs] and pf = plain_field [OF kvs]
  have times: "field dec_time 0 ''last_generate_utc'' (JObj kvs) = Some (ds_LastGenerateUTC s)"
    "field dec_time 0 ''next_refresh_utc'' (JObj kvs) = Some (ds_NextRefreshUTC s)"
    "field dec_time 0 ''registration_utc'' (JObj kvs) = Some (ds_RegistrationUTC s)"
    "field dec_time 0 ''expected_expiry_utc'' (JObj kvs) = Some (ds_ExpectedExpiryUTC s)"
    "field dec_time 0 ''last_health_check_utc'' (JObj kvs) = Some (ds_LastHealthCheckUTC s)"
    "field dec_time 0 ''last_healthy_utc'' (JObj kvs) = Some (ds_LastHealthyUTC s)"
    "field dec_time 0 ''unhealthy_since_utc'' (JObj kvs) = Some (ds_UnhealthySinceUTC s)"
    "field dec_time 0 ''last_recovery_utc'' (JObj kvs) = Some (ds_LastRecoveryUTC s)"
    by ((rule tf, simp add: status_keys_def, simp add: alias_map, simp)+)
  have strings: "field dec_string [] ''region'' (JObj kvs) = Some (ds_Region s)"
    "field dec_string [] ''mode'' (JObj kvs) = Some (ds_Mode s)"
    "field dec_string [] ''last_forward_port'' (JObj kvs) = Some (ds_LastForwardPort s)"
    "field dec_string [] ''last_error'' (JObj kvs) = Some (ds_LastError s)"
    "field dec_string [] ''ipv6_mode'' (JObj kvs) = Some (ds_IPv6Mode s)"
    "field dec_string [] ''lifetime_source'' (JObj kvs) = Some (ds_LifetimeSource s)"
    "field dec_string [] ''control_status'' (JObj kvs) = Some (ds_ControlStatus s)"
    by (simp_all add: pf [OF _ refl] status_keys_def alias_map)
  have bools: "field dec_bool False ''port_forwarding'' (JObj kvs) = Some (ds_PortForwarding s)"
    "field dec_bool False ''server_name_enabled'' (JObj kvs) = Some (ds_ServerNameEnabled s)"
    "field dec_bool False ''tunnel_healthy'' (JObj kvs) = Some (ds_TunnelHealthy s)"
    by (simp_all add: pf [OF _ refl] status_keys_def alias_map)
  have numbers: "field dec_int 0 ''measured_lifetime_seconds'' (JObj kvs) = Some (ds_MeasuredLifetimeSecs s)"
    "field dec_int 0 ''recovery_count'' (JObj kvs) = Some (ds_RecoveryCount s)"
    "field dec_int 0 ''consecutive_failed_attempts'' (JObj kvs) = Some (ds_FailedAttempts s)"
    by (simp_all add: pf [OF _ refl] status_keys_def alias_map assms(1) [unfolded ok_daemonStatus_def])
  have ip: "field (\<lambda>v. map_option Some (dec_bool v)) None ''public_ip_present'' (JObj kvs) = Some (ds_PublicIPPresent s)"
    by (simp add: pf [OF _ refl] status_keys_def alias_map split: option.split)
  show ?thesis
    unfolding dec_daemonStatus_def j by (simp only: times strings bools numbers ip age_field [OF kvs assms(1)] Option.bind.bind_lunit) simp
qed


interpretation status_json: json_type MarshalJSON dec_daemonStatus ok_daemonStatus
  by unfold_locales (auto simp: MarshalJSON_members ok_daemonStatus_def intro: dec_MarshalJSON)

lemma status_file_decodes:
  assumes "\<not> temp_path path" and "fst (writeStatus path s w) = Ok ()" and "ok_daemonStatus s"
    and "w_files v path = w_files (snd (writeStatus path s w)) path"
  shows "\<exists>f. w_files v path = Some f \<and> Option.bind (json_of (f_content f) v) dec_daemonStatus = Some s"
proof -
  obtain j where j: "MarshalJSON s = Some j" using status_json.enc_total [OF assms(3)] by blast
  then have ws: "writeStatus path s w = atomicWriteFile path (Doc j) 420 w" by (simp add: writeStatus_def)
  obtain f where "w_files v path = Some f" "f_content f = Doc j"
    using aw.target_Ok [OF assms(1,2) [unfolded ws]] assms(4) [unfolded ws] by auto
  then show ?thesis using status_json.dec_enc [OF assms(3) j] by (simp add: json_of_def)
qed

section \<open>The verdict\<close>

lemma judge_outage_Ok:
  "judge_outage opts st = Ok () \<longleftrightarrow> ds_TunnelHealthy st \<or>
     (ds_UnhealthySinceUTC st \<noteq> 0 \<and>
      (0 < ho_maxUnhealthy opts \<longrightarrow> time_Sub (ho_now opts) (ds_UnhealthySinceUTC st) \<le> ho_maxUnhealthy opts))"
  by (auto simp: judge_outage_def time_IsZero_def Let_def)

lemma judge_expiry_Ok:
  "judge_expiry opts st = Ok () \<longleftrightarrow>
     (ds_ExpectedExpiryUTC st \<noteq> 0 \<longrightarrow> time_Sub (ho_now opts) (ds_ExpectedExpiryUTC st) \<le> ho_expiryGrace opts)"
  by (auto simp: judge_expiry_def time_IsZero_def Let_def)

lemma calm_calls_stl: "calm_calls w \<Longrightarrow> w\<lparr>w_calls := stl (w_calls w)\<rparr> = w"
  by (simp add: calm_calls_def)

lemma calm_Stat: "calm_calls w \<Longrightarrow> Stat p w = ((case w_files w p of None \<Rightarrow> Err (not_exist p) | Some f \<Rightarrow> Ok f), w)"
  by (simp add: Stat_eq calm_calls_shd calm_calls_stl)

lemma calm_ReadFile:
  "calm_calls w \<Longrightarrow> ReadFile p w = ((case w_files w p of None \<Rightarrow> Err (not_exist p) | Some f \<Rightarrow> Ok (f_content f)), w)"
  by (simp add: ReadFile_eq calm_calls_shd calm_calls_stl)

lemma evaluateHealth_Ok:
  assumes "calm_calls w"
  shows "fst (evaluateHealth opts w) = Ok () \<longleftrightarrow>
    (\<exists>cfg info st. w_files w (ho_configPath opts) = Some cfg \<and> file_Size cfg \<noteq> 0 \<and>
       w_files w (ho_statusPath opts) = Some info \<and>
       (0 < ho_maxStatusAge opts \<longrightarrow> time_Sub (ho_now opts) (f_mtime info) \<le> ho_maxStatusAge opts) \<and>
       Option.bind (json_of (f_content info) w) dec_daemonStatus = Some st \<and>
       judge_outage opts st = Ok () \<and> judge_expiry opts st = Ok ())"
proof (cases "w_files w (ho_configPath opts)")
  case (Some cfg)
  show ?thesis
  proof (cases "w_files w (ho_statusPath opts)")
    case status: (Some info)
    show ?thesis
    proof (cases "Option.bind (json_of (f_content info) w) dec_daemonStatus")
      case st: (Some st)
      show ?thesis
        by (cases "judge_outage opts st")
          (auto simp: evaluateHealth_def calm_Stat [OF assms] calm_ReadFile [OF assms] Some status st Let_def)
    qed (auto simp: evaluateHealth_def calm_Stat [OF assms] calm_ReadFile [OF assms] Some status Let_def)
  qed (auto simp: evaluateHealth_def calm_Stat [OF assms] Some)
qed (simp add: evaluateHealth_def calm_Stat [OF assms])

lemma judge_no_panic: "judge_outage opts st \<noteq> Panic m" "judge_expiry opts st \<noteq> Panic m"
  by (simp_all add: judge_outage_def judge_expiry_def Let_def)

lemma evaluateHealth_quiet: "quiet w (snd (evaluateHealth opts w))"
proof -
  have "runs (\<lambda>_. False) w (snd (evaluateHealth opts w))"
    unfolding evaluateHealth_def Let_def
    by (intro runs_io_try) (auto simp: quiet_runs [OF Stat_quiet] quiet_runs [OF ReadFile_quiet] split: option.splits
        intro!: runs_io_try)
  then show ?thesis by (auto simp: runs_def list_all_iff dest: last_in_set)
qed


section \<open>The daemon under its health probe\<close>

lemma in64_go_div: "in64 d \<Longrightarrow> in64 (whole_seconds d)"
proof -
  assume d: "in64 d"
  have "\<bar>d\<bar> div second \<le> \<bar>d\<bar>" by linarith
  moreover have "0 \<le> \<bar>d\<bar> div second" by (simp add: pos_imp_zdiv_nonneg_iff)
  ultimately show ?thesis
    using d by (cases "d = 0"; cases "0 < d") (auto simp: whole_seconds_def go_div_def in64_def)
qed

text \<open>The status the refresh daemon writes is one that can be read back.\<close>

lemma buildStatus_ok:
  assumes "buildStatus rt w = (st, w')" and "in64 (rt_recoveryCount rt)" and "in64 (fst (policy_snapshot (rt_policy rt)))"
    and "list_all (json_time_ok \<circ> snd) (status_times st)"
  shows "ok_daemonStatus st" and "ds_TunnelHealthy st = rt_tunnelHealthy rt" and "ds_UnhealthySinceUTC st = rt_unhealthySinceUTC rt"
    and "ds_ExpectedExpiryUTC st = fst (ExpectedExpiry (case fst (Load (rt_lifetime rt) w) of Ok rec \<Rightarrow> rec | _ \<Rightarrow> zero_LifetimeRecord)
      (rt_fallbackInterval rt) (rt_maxRegistrationAge rt))"
proof -
  obtain r w1 where l: "Load (rt_lifetime rt) w = (r, w1)" by fastforce
  define rec where "rec = (case r of Ok rec \<Rightarrow> rec | _ \<Rightarrow> zero_LifetimeRecord)"
  obtain now w2 where n: "time_Now w1 = (now, w2)" by fastforce
  obtain e src where e: "ExpectedExpiry rec (rt_fallbackInterval rt) (rt_maxRegistrationAge rt) = (e, src)" by fastforce
  obtain fa al where f: "policy_snapshot (rt_policy rt) = (fa, al)" by fastforce
  have age: "in64 (whole_seconds (time_Sub now t))" for t by (rule in64_go_div) (simp add: time_Sub_def)
  have life: "in64 (whole_seconds a)" if "MeasuredLifetime rec = Some a" for a
    using that by (auto simp: MeasuredLifetime_def intro!: in64_go_div split: if_splits)
  have zero: "in64 0" by (simp add: in64_def)
  have st: "st = fst (buildStatus rt w)" using assms(1) by simp
  note build = st buildStatus_def Let_def l rec_def [symmetric] n e f zero_daemonStatus_def
  have "ds_RegistrationAgeSecs st = (case RegistrationAge (lr_CurrentRegistrationUTC rec) now of Some a \<Rightarrow> whole_seconds a | None \<Rightarrow> 0)"
    by (simp add: build split: option.split)
  moreover have "ds_RegistrationUTC st = lr_CurrentRegistrationUTC rec" by (simp add: build split: option.split)
  ultimately have a: "in64 (ds_RegistrationAgeSecs st)" "ds_RegistrationUTC st = 0 \<longrightarrow> ds_RegistrationAgeSecs st = 0"
    using age zero by (simp_all add: RegistrationAge_def time_IsZero_def split: option.split)
  have "ds_MeasuredLifetimeSecs st = (case MeasuredLifetime rec of Some a \<Rightarrow> whole_seconds a | None \<Rightarrow> 0)"
    by (simp add: build split: option.split)
  then have m: "in64 (ds_MeasuredLifetimeSecs st)" using life zero by (simp split: option.split)
  have "ds_RecoveryCount st = rt_recoveryCount rt" "ds_FailedAttempts st = fa" by (simp_all add: build split: option.split)
  with a m show "ok_daemonStatus st" using assms(2-4) f by (simp add: ok_daemonStatus_def)
  show "ds_TunnelHealthy st = rt_tunnelHealthy rt" by (simp add: build split: option.split)
  show "ds_UnhealthySinceUTC st = rt_unhealthySinceUTC rt" by (simp add: build split: option.split)
  have "ds_ExpectedExpiryUTC st = e" by (simp add: build split: option.split)
  then show "ds_ExpectedExpiryUTC st = fst (ExpectedExpiry (case fst (Load (rt_lifetime rt) w) of Ok rec \<Rightarrow> rec | _ \<Rightarrow> zero_LifetimeRecord)
      (rt_fallbackInterval rt) (rt_maxRegistrationAge rt))"
    by (simp add: l rec_def [symmetric] e)
qed


text \<open>
  C9: The health probe judges the daemon. After the refresh daemon wrote its status with success,
  and as long as no file call of the probe fails, the verdict is healthy exactly when the
  configuration is there and not empty, the status is not older than the limit, the tunnel is up
  or has a recorded outage within the limit, and the registration is not past its expected expiry
  by more than the grace; limits of zero or less on age and outage do not apply. The probe never
  changes anything.
\<close>

theorem healthcheck_judges_daemon:
  assumes build: "buildStatus rt w = (st, w1)" and written: "writeStatus (rt_statusPath rt) st w1 = (Ok (), w2)"
    and path: "\<not> temp_path (rt_statusPath rt)" "ho_statusPath opts = rt_statusPath rt" "ho_configPath opts = rt_configPath rt"
    and counters: "in64 (rt_recoveryCount rt)" "in64 (fst (policy_snapshot (rt_policy rt)))"
    and kept: "w_files v (rt_statusPath rt) = w_files w2 (rt_statusPath rt)" and calm: "calm_calls v"
  shows "(fst (evaluateHealth opts v) = Ok () \<longleftrightarrow>
      (\<exists>cfg info. w_files v (rt_configPath rt) = Some cfg \<and> file_Size cfg \<noteq> 0 \<and>
         w_files v (rt_statusPath rt) = Some info \<and>
         (0 < ho_maxStatusAge opts \<longrightarrow> time_Sub (ho_now opts) (f_mtime info) \<le> ho_maxStatusAge opts)) \<and>
      (rt_tunnelHealthy rt \<or> rt_unhealthySinceUTC rt \<noteq> 0 \<and>
         (0 < ho_maxUnhealthy opts \<longrightarrow> time_Sub (ho_now opts) (rt_unhealthySinceUTC rt) \<le> ho_maxUnhealthy opts)) \<and>
      (let rec = (case fst (Load (rt_lifetime rt) w) of Ok rec \<Rightarrow> rec | _ \<Rightarrow> zero_LifetimeRecord);
           expiry = fst (ExpectedExpiry rec (rt_fallbackInterval rt) (rt_maxRegistrationAge rt)) in
       expiry \<noteq> 0 \<longrightarrow> time_Sub (ho_now opts) expiry \<le> ho_expiryGrace opts)) \<and>
    w_trace (snd (evaluateHealth opts v)) = w_trace v \<and> w_files (snd (evaluateHealth opts v)) = w_files v"
proof -
  have times: "list_all (json_time_ok \<circ> snd) (status_times st)"
    using written by (auto simp: writeStatus_def MarshalJSON_members split: if_splits)
  note st = buildStatus_ok [OF build counters times]
  obtain f where f: "w_files v (rt_statusPath rt) = Some f" "Option.bind (json_of (f_content f) v) dec_daemonStatus = Some st"
    using status_file_decodes [OF path(1) _ st(1), of w1 v] written kept by auto
  have "fst (evaluateHealth opts v) = Ok () \<longleftrightarrow>
      (\<exists>cfg. w_files v (rt_configPath rt) = Some cfg \<and> file_Size cfg \<noteq> 0) \<and>
      (0 < ho_maxStatusAge opts \<longrightarrow> time_Sub (ho_now opts) (f_mtime f) \<le> ho_maxStatusAge opts) \<and>
      judge_outage opts st = Ok () \<and> judge_expiry opts st = Ok ()"
    unfolding evaluateHealth_Ok [OF calm] path(2,3) f(1) using f(2) by auto
  then show ?thesis
    using evaluateHealth_quiet [of v opts] f(1)
    unfolding judge_outage_Ok judge_expiry_Ok st(2-4) Let_def emits_def by auto
qed



definition healthy_rt :: refreshRuntime where
  "healthy_rt = sample_rt\<lparr>rt_tunnelHealthy := True\<rparr>"

definition health_sample :: healthOptions where
  "health_sample = \<lparr>ho_configPath = rt_configPath sample_rt, ho_statusPath = rt_statusPath sample_rt,
     ho_maxStatusAge = defaultHealthMaxStatusAge, ho_maxUnhealthy = defaultHealthMaxUnhealthy,
     ho_expiryGrace = defaultHealthExpiryGrace, ho_now = hour + minute\<rparr>"

lemma healthy_rt_fields:
  "\<not> temp_path (rt_statusPath healthy_rt)" "rt_statusPath healthy_rt = rt_statusPath sample_rt"
  "rt_configPath healthy_rt = rt_configPath sample_rt" "rt_statusPath sample_rt \<noteq> rt_configPath sample_rt"
  "rt_recoveryCount healthy_rt = 0" "fst (policy_snapshot (rt_policy healthy_rt)) = 0" "rt_tunnelHealthy healthy_rt"
proof -
  show "\<not> temp_path (rt_statusPath healthy_rt)" "rt_statusPath sample_rt \<noteq> rt_configPath sample_rt"
    by (simp_all add: healthy_rt_def sample_rt_def new_refreshRuntime_def Let_def mustStatePath_def temp_path_Join path_Join_inject
        file_names plain_name_def)
qed (simp_all add: healthy_rt_def sample_rt_def new_refreshRuntime_def sample_cli_def Let_def policy_snapshot_def newOutagePolicy_def)


lemma healthy_rt_status:
  "\<exists>st. buildStatus healthy_rt offline_world = (st, offline_world) \<and> list_all (json_time_ok \<circ> snd) (status_times st)"
  "fst (Load (rt_lifetime healthy_rt) offline_world) = Ok fresh_LifetimeRecord"
proof -
  have l: "Load (rt_lifetime healthy_rt) offline_world = (Ok fresh_LifetimeRecord, offline_world)"
    by (simp add: Load_def ReadFile_eq offline_world_def calm_world_def)
  then show "fst (Load (rt_lifetime healthy_rt) offline_world) = Ok fresh_LifetimeRecord" by simp
  have n: "time_Now offline_world = (hour, offline_world)" by (simp add: time_Now_def offline_world_def calm_world_def)
  have r: "lr_CurrentRegistrationUTC fresh_LifetimeRecord = 0" "MeasuredLifetime fresh_LifetimeRecord = None"
    by (simp_all add: fresh_LifetimeRecord_def zero_LifetimeRecord_def MeasuredLifetime_def)
  have times: "rt_lastGenerateUTC healthy_rt = 0" "rt_nextRefreshUTC healthy_rt = 0" "rt_lastHealthCheckUTC healthy_rt = 0"
    "rt_lastHealthyUTC healthy_rt = 0" "rt_unhealthySinceUTC healthy_rt = 0" "rt_lastRecoveryUTC healthy_rt = 0"
    by (simp_all add: healthy_rt_def sample_rt_def new_refreshRuntime_def Let_def)
  obtain fa al where f: "policy_snapshot (rt_policy healthy_rt) = (fa, al)" by fastforce
  show "\<exists>st. buildStatus healthy_rt offline_world = (st, offline_world) \<and> list_all (json_time_ok \<circ> snd) (status_times st)"
    by (simp add: buildStatus_def l n r f Let_def ExpectedExpiry_def RegistrationAge_def status_times_def times zero_daemonStatus_def)
qed

theorem healthcheck_judges_daemon_witness:
  "\<exists>v. fst (evaluateHealth health_sample v) = Ok () \<and> w_trace (snd (evaluateHealth health_sample v)) = w_trace v"
proof -
  obtain st where b: "buildStatus healthy_rt offline_world = (st, offline_world)"
    and t: "list_all (json_time_ok \<circ> snd) (status_times st)" using healthy_rt_status(1) by blast
  note rt = healthy_rt_fields
  have calm: "calm_calls offline_world" "no_temps offline_world"
    by (simp_all add: offline_world_def calm_world_def calm_calls_def no_temps_def)
  obtain j where "MarshalJSON st = Some j" using t by (simp add: MarshalJSON_members)
  then have "writeStatus (rt_statusPath healthy_rt) st offline_world = atomicWriteFile (rt_statusPath healthy_rt) (Doc j) 420 offline_world"
    by (simp add: writeStatus_def)
  then obtain w2 where w: "writeStatus (rt_statusPath healthy_rt) st offline_world = (Ok (), w2)"
    and w2: "calm_calls w2" "w_files w2 (rt_statusPath healthy_rt) = Some \<lparr>f_content = Doc j, f_perm = 420, f_mtime = hour\<rparr>"
    using calm rt(1) by (simp add: atomicWriteFile_calm) (simp add: offline_world_def calm_world_def)
  let ?v = "w2\<lparr>w_files := (w_files w2)(rt_configPath healthy_rt \<mapsto> \<lparr>f_content = Text ''x'', f_perm = 420, f_mtime = hour\<rparr>)\<rparr>"
  have v: "w_files ?v (rt_statusPath healthy_rt) = w_files w2 (rt_statusPath healthy_rt)" "calm_calls ?v"
    using rt(2-4) w2(1) by simp_all
  have e: "fst (ExpectedExpiry fresh_LifetimeRecord a b) = 0" for a b
    by (simp add: ExpectedExpiry_def fresh_LifetimeRecord_def zero_LifetimeRecord_def)
  have "fst (evaluateHealth health_sample ?v) = Ok () \<and> w_trace (snd (evaluateHealth health_sample ?v)) = w_trace ?v"
    using healthcheck_judges_daemon [OF b w rt(1), of health_sample ?v] rt v w2(2)
    by (simp add: health_sample_def in64_def healthy_rt_status(2) e file_Size_def defaultHealthMaxStatusAge_def time_Sub_def)
  then show ?thesis by blast
qed

end
