(* ===== verification/Flags.thy ===== *)
theory Flags
  imports Daemon Healthcheck
begin

text \<open>
  The tables of the command line: the flags and commands main.go, refresh.go, pf_daemon.go and
  healthcheck.go declare, the version string of version.go, and which function each command
  runs. A flag is its name, its aliases, its environment variables and its default value (usage
  texts are left out). What urfave/cli makes of a table and the arguments is the record
  \<open>cli_context\<close>.
\<close>

section \<open>Constants\<close>

definition defaultAppName :: string where "defaultAppName = ''pia-wg-config''"
definition defaultDaemonInterval :: duration where "defaultDaemonInterval = 12 * hour"
definition defaultDaemonJitterMax :: duration where "defaultDaemonJitterMax = 30 * minute"
definition defaultDaemonRetryDelay :: duration where "defaultDaemonRetryDelay = 5 * minute"
definition defaultGatewayTimeout :: duration where "defaultGatewayTimeout = 2 * minute"
definition defaultHealthCheckInterval :: duration where "defaultHealthCheckInterval = 1 * minute"
definition defaultRecoveryBackoffMin :: duration where "defaultRecoveryBackoffMin = 30 * second"
definition defaultRecoveryBackoffMax :: duration where "defaultRecoveryBackoffMax = 10 * minute"
definition defaultControlServerURL :: string where "defaultControlServerURL = ''http://127.0.0.1:8000''"
definition defaultControlTimeout :: duration where "defaultControlTimeout = 5 * second"
definition defaultUnhealthyThreshold :: int where "defaultUnhealthyThreshold = 2"
definition defaultAlertAfter :: int where "defaultAlertAfter = 3"
definition defaultHookTimeout :: duration where "defaultHookTimeout = 15 * second"

section \<open>--version\<close>

text \<open>
  The variables of version.go, which the linker may replace, are a record; what the runtime
  tells about the module, the version Go embedded if there is any, is the argument.
\<close>

record link_vars =
  lv_version :: string
  lv_commit :: string
  lv_date :: string

definition default_link_vars :: link_vars where
  "default_link_vars = \<lparr>lv_version = ''dev'', lv_commit = ''none'', lv_date = ''unknown''\<rparr>"

definition buildVersionString :: "link_vars \<Rightarrow> string option \<Rightarrow> string" where
  "buildVersionString vars ReadBuildInfo =
     (let resolved = lv_version vars;
          resolved = (if resolved = ''dev'' then
             (case ReadBuildInfo of
                Some v \<Rightarrow> if v \<noteq> [] \<and> v \<noteq> ''(devel)'' then v else resolved
              | None \<Rightarrow> resolved) else resolved)
      in resolved @ '' (commit '' @ lv_commit vars @ '', built '' @ lv_date vars @ '')'')"

section \<open>Flags\<close>

datatype flag_value = VString string | VBool bool | VDuration duration | VInt int

record cli_flag =
  fl_Name :: string
  fl_Aliases :: "string list"
  fl_EnvVars :: "string list"
  fl_Value :: flag_value

definition plain_flag :: "string \<Rightarrow> string list \<Rightarrow> flag_value \<Rightarrow> cli_flag" where
  "plain_flag name aliases v = \<lparr>fl_Name = name, fl_Aliases = aliases, fl_EnvVars = [], fl_Value = v\<rparr>"

definition env_flag :: "string \<Rightarrow> string list \<Rightarrow> string \<Rightarrow> cli_flag" where
  "env_flag name aliases env = \<lparr>fl_Name = name, fl_Aliases = aliases, fl_EnvVars = [env], fl_Value = VString []\<rparr>"

definition buildAuthFlags :: "cli_flag list" where
  "buildAuthFlags =
     [env_flag ''username'' [''u''] ''PIA_USERNAME'', env_flag ''password'' [''w''] ''PIA_PASSWORD'',
      plain_flag ''verbose'' [''v''] (VBool False)]"

definition buildIPv6Flag :: cli_flag where
  "buildIPv6Flag = plain_flag ''ipv6-mode'' [] (VString ''on'')"

definition buildGenerateFlags :: "cli_flag list" where
  "buildGenerateFlags = buildAuthFlags @
     [buildIPv6Flag, plain_flag ''outfile'' [''o''] (VString []), plain_flag ''region'' [''r''] (VString defaultRegion),
      plain_flag ''server'' [''s''] (VBool False), plain_flag ''port-forwarding'' [''p''] (VBool False)]"

section \<open>Commands\<close>

datatype action = RunGenerate | RunRegions | RunDaemon | RunRefresh | RunPF | RunHealthcheck

record cli_command =
  cm_Name :: string
  cm_Aliases :: "string list"
  cm_Flags :: "cli_flag list"
  cm_Action :: action

definition buildGenerateCommand :: cli_command where
  "buildGenerateCommand =
     \<lparr>cm_Name = ''generate'', cm_Aliases = [''gen''], cm_Flags = buildGenerateFlags, cm_Action = RunGenerate\<rparr>"

definition buildRegionsCommand :: cli_command where
  "buildRegionsCommand =
     \<lparr>cm_Name = ''regions'', cm_Aliases = [],
      cm_Flags = buildAuthFlags @ [plain_flag ''pf-only'' [] (VBool False), plain_flag ''json'' [] (VBool False)],
      cm_Action = RunRegions\<rparr>"

definition buildDaemonCommand :: cli_command where
  "buildDaemonCommand =
     \<lparr>cm_Name = ''daemon'', cm_Aliases = [],
      cm_Flags = buildAuthFlags @
        [buildIPv6Flag,
         plain_flag ''state-dir'' [] (VString ''/state''),
         plain_flag ''region'' [''r''] (VString defaultRegion),
         plain_flag ''server'' [''s''] (VBool False),
         plain_flag ''port-forwarding'' [''p''] (VBool False),
         plain_flag ''refresh-interval'' [] (VDuration defaultDaemonInterval),
         plain_flag ''refresh-jitter'' [] (VDuration defaultDaemonJitterMax),
         plain_flag ''retry-delay'' [] (VDuration defaultDaemonRetryDelay),
         plain_flag ''wait-for-gateway'' [] (VBool True),
         plain_flag ''gateway-timeout'' [] (VDuration defaultGatewayTimeout),
         plain_flag ''gateway-check-interval'' [] (VDuration defaultGatewayInterval),
         plain_flag ''on-port-change'' [] (VString []),
         plain_flag ''on-config-change'' [] (VString []),
         plain_flag ''restart-container'' [] (VString []),
         plain_flag ''docker-socket'' [] (VString defaultDockerSocket)],
      cm_Action = RunDaemon\<rparr>"

definition buildRefreshCommand :: cli_command where
  "buildRefreshCommand =
     \<lparr>cm_Name = ''refresh'', cm_Aliases = [],
      cm_Flags = buildAuthFlags @
        [buildIPv6Flag,
         plain_flag ''state-dir'' [] (VString ''/state''),
         plain_flag ''region'' [''r''] (VString defaultRegion),
         plain_flag ''server'' [''s''] (VBool False),
         plain_flag ''port-forwarding'' [''p''] (VBool False),
         plain_flag ''refresh-interval'' [] (VDuration defaultDaemonInterval),
         plain_flag ''refresh-jitter'' [] (VDuration defaultDaemonJitterMax),
         plain_flag ''max-registration-age'' [] (VDuration 0),
         plain_flag ''adopt-healthy-registration'' [] (VBool True),
         plain_flag ''health-check-interval'' [] (VDuration defaultHealthCheckInterval),
         plain_flag ''unhealthy-threshold'' [] (VInt defaultUnhealthyThreshold),
         plain_flag ''control-server-url'' [] (VString defaultControlServerURL),
         plain_flag ''control-timeout'' [] (VDuration defaultControlTimeout),
         plain_flag ''recovery-backoff-min'' [] (VDuration defaultRecoveryBackoffMin),
         plain_flag ''recovery-backoff-max'' [] (VDuration defaultRecoveryBackoffMax),
         plain_flag ''recovery-cooldown'' [] (VDuration defaultRecoveryCooldown),
         plain_flag ''restart-container'' [] (VString []),
         plain_flag ''docker-socket'' [] (VString defaultDockerSocket),
         env_flag ''docker-host'' [] ''DOCKER_HOST'',
         plain_flag ''on-config-change'' [] (VString []),
         plain_flag ''on-failure'' [] (VString []),
         plain_flag ''on-recovered'' [] (VString []),
         plain_flag ''alert-after'' [] (VInt defaultAlertAfter),
         plain_flag ''hook-timeout'' [] (VDuration defaultHookTimeout)],
      cm_Action = RunRefresh\<rparr>"

definition buildPFCommand :: cli_command where
  "buildPFCommand =
     \<lparr>cm_Name = ''pf'', cm_Aliases = [],
      cm_Flags = buildAuthFlags @
        [plain_flag ''state-dir'' [] (VString ''/state''),
         plain_flag ''region'' [''r''] (VString defaultRegion),
         plain_flag ''wait-for-gateway'' [] (VBool True),
         plain_flag ''gateway-timeout'' [] (VDuration defaultGatewayTimeout),
         plain_flag ''gateway-check-interval'' [] (VDuration defaultGatewayInterval),
         plain_flag ''poll-interval'' [] (VDuration (15 * second)),
         plain_flag ''on-port-change'' [] (VString [])],
      cm_Action = RunPF\<rparr>"

definition buildHealthcheckCommand :: cli_command where
  "buildHealthcheckCommand =
     \<lparr>cm_Name = ''healthcheck'', cm_Aliases = [],
      cm_Flags =
        [plain_flag ''state-dir'' [] (VString ''/state''),
         plain_flag ''max-status-age'' [] (VDuration defaultHealthMaxStatusAge),
         plain_flag ''max-unhealthy'' [] (VDuration defaultHealthMaxUnhealthy),
         plain_flag ''expiry-grace'' [] (VDuration defaultHealthExpiryGrace)],
      cm_Action = RunHealthcheck\<rparr>"

record cli_app =
  ap_Name :: string
  ap_VersionFlag :: "string list"
  ap_Version :: string
  ap_Flags :: "cli_flag list"
  ap_Commands :: "cli_command list"
  ap_Action :: action

definition buildApp :: "link_vars \<Rightarrow> string option \<Rightarrow> cli_app" where
  "buildApp vars ReadBuildInfo =
     \<lparr>ap_Name = defaultAppName, ap_VersionFlag = [''version''], ap_Version = buildVersionString vars ReadBuildInfo,
      ap_Flags = buildGenerateFlags,
      ap_Commands = [buildGenerateCommand, buildRegionsCommand, buildDaemonCommand, buildRefreshCommand, buildPFCommand,
        buildHealthcheckCommand],
      ap_Action = RunGenerate\<rparr>"

text \<open>What a command does: it ends, or it has entered its loop.\<close>

datatype outcome =
    Returned "unit res \<times> world"
  | Daemon_loop "(daemon_options \<times> daemon_loop) res \<times> world"
  | Refresh_loop "refresh_loop res \<times> world"
  | Pf_loop "(pf_options \<times> pf_loop) res \<times> world"

fun perform :: "action \<Rightarrow> cli_context \<Rightarrow> world \<Rightarrow> outcome" where
  "perform RunGenerate c w = Returned (runGenerate c w)"
| "perform RunRegions c w = Returned (runRegions c w)"
| "perform RunDaemon c w = Daemon_loop (runDaemon c w)"
| "perform RunRefresh c w = Refresh_loop (runRefresh c w)"
| "perform RunPF c w = Pf_loop (runPF c w)"
| "perform RunHealthcheck c w = Returned (runHealthcheck c w)"

section \<open>Commands read the options they declare\<close>

text \<open>
  Two command lines that a table cannot tell apart: every declared flag reads the same, at the
  type it is declared with, and so do the arguments.
\<close>

fun same_flag :: "cli_context \<Rightarrow> cli_context \<Rightarrow> string \<Rightarrow> flag_value \<Rightarrow> bool" where
  "same_flag c c' n (VString _) = (c_String c n = c_String c' n)"
| "same_flag c c' n (VBool _) = (c_Bool c n = c_Bool c' n)"
| "same_flag c c' n (VDuration _) = (c_Duration c n = c_Duration c' n)"
| "same_flag c c' n (VInt _) = (c_Int c n = c_Int c' n)"

definition same_options :: "cli_flag list \<Rightarrow> cli_context \<Rightarrow> cli_context \<Rightarrow> bool" where
  "same_options flags c c' \<longleftrightarrow>
     c_args c = c_args c' \<and> list_all (\<lambda>f. same_flag c c' (fl_Name f) (fl_Value f)) flags"

definition all_names :: "cli_flag list \<Rightarrow> string list" where
  "all_names flags = concat (map (\<lambda>f. fl_Name f # fl_Aliases f) flags)"

lemmas flag_defs = plain_flag_def env_flag_def buildAuthFlags_def buildIPv6Flag_def buildGenerateFlags_def
  buildGenerateCommand_def buildRegionsCommand_def buildDaemonCommand_def buildRefreshCommand_def buildPFCommand_def
  buildHealthcheckCommand_def

lemma same_optionsD:
  assumes "same_options flags c c'" and "set flags' \<subseteq> set flags"
  shows "same_options flags' c c'"
  using assms by (auto simp: same_options_def list_all_iff)

lemma same_auth:
  assumes "same_options buildAuthFlags c c'"
  shows "resolveCredentials c = resolveCredentials c'" and "c_Bool c ''verbose'' = c_Bool c' ''verbose''"
proof -
  have eqs: "c_args c = c_args c'" "c_String c ''username'' = c_String c' ''username''"
    "c_String c ''password'' = c_String c' ''password''" and v: "c_Bool c ''verbose'' = c_Bool c' ''verbose''"
    using assms by (simp_all add: same_options_def buildAuthFlags_def env_flag_def plain_flag_def)
  show "resolveCredentials c = resolveCredentials c'" unfolding resolveCredentials_def c_Arg_def eqs ..
  show "c_Bool c ''verbose'' = c_Bool c' ''verbose''" by (rule v)
qed

lemma same_auth_part:
  assumes "same_options (buildAuthFlags @ flags) c c'"
  shows "resolveCredentials c = resolveCredentials c'" and "c_Bool c ''verbose'' = c_Bool c' ''verbose''"
    and "same_options flags c c'"
  using same_auth [OF same_optionsD [OF assms]] same_optionsD [OF assms, of flags] by simp_all

lemma generate_reads_declared:
  assumes "same_options buildGenerateFlags c c'"
  shows "runGenerate c w = runGenerate c' w"
proof -
  note auth = same_auth_part [OF assms [unfolded buildGenerateFlags_def]]
  have eqs: "c_String c ''region'' = c_String c' ''region''" "c_Bool c ''server'' = c_Bool c' ''server''"
    "c_Bool c ''port-forwarding'' = c_Bool c' ''port-forwarding''" "c_String c ''ipv6-mode'' = c_String c' ''ipv6-mode''"
    "c_String c ''outfile'' = c_String c' ''outfile''"
    using auth(3) by (simp_all add: same_options_def buildIPv6Flag_def plain_flag_def)
  show ?thesis unfolding runGenerate_def region_option_def auth(1,2) eqs ..
qed

lemma regions_reads_declared:
  assumes "same_options (cm_Flags buildRegionsCommand) c c'"
  shows "runRegions c w = runRegions c' w"
proof -
  note auth = same_auth_part [OF assms [unfolded buildRegionsCommand_def cli_command.simps]]
  have eqs: "c_Bool c ''pf-only'' = c_Bool c' ''pf-only''" "c_Bool c ''json'' = c_Bool c' ''json''"
    using auth(3) by (simp_all add: same_options_def plain_flag_def)
  show ?thesis unfolding runRegions_def auth(1,2) eqs ..
qed

lemma daemon_reads_declared:
  assumes "same_options (cm_Flags buildDaemonCommand) c c'"
  shows "runDaemon c w = runDaemon c' w"
proof -
  note auth = same_auth_part [OF assms [unfolded buildDaemonCommand_def cli_command.simps]]
  have eqs: "c_String c n = c_String c' n"
    if "n \<in> {''ipv6-mode'', ''state-dir'', ''region'', ''on-port-change'', ''on-config-change'', ''restart-container'', ''docker-socket''}" for n
    using auth(3) that by (auto simp: same_options_def buildIPv6Flag_def plain_flag_def)
  have eqb: "c_Bool c n = c_Bool c' n" if "n \<in> {''server'', ''port-forwarding'', ''wait-for-gateway''}" for n
    using auth(3) that by (auto simp: same_options_def plain_flag_def)
  have eqd: "c_Duration c n = c_Duration c' n"
    if "n \<in> {''refresh-interval'', ''refresh-jitter'', ''retry-delay'', ''gateway-timeout'', ''gateway-check-interval''}" for n
    using auth(3) that by (auto simp: same_options_def plain_flag_def)
  have "daemon_options_of c = daemon_options_of c'"
    by (intro ext) (simp add: daemon_options_of_def region_option_def eqs eqb eqd auth(2))
  moreover have "c_String c ''ipv6-mode'' = c_String c' ''ipv6-mode''" by (rule eqs) simp
  ultimately show ?thesis unfolding runDaemon_def auth(1) by simp
qed

lemma refresh_reads_declared:
  assumes "same_options (cm_Flags buildRefreshCommand) c c'"
  shows "runRefresh c w = runRefresh c' w"
proof -
  note auth = same_auth_part [OF assms [unfolded buildRefreshCommand_def cli_command.simps]]
  have eqs: "c_String c n = c_String c' n"
    if "n \<in> {''ipv6-mode'', ''state-dir'', ''region'', ''control-server-url'', ''restart-container'', ''docker-socket'',
        ''docker-host'', ''on-config-change'', ''on-failure'', ''on-recovered''}" for n
    using auth(3) that by (auto simp: same_options_def buildIPv6Flag_def plain_flag_def env_flag_def)
  have eqb: "c_Bool c n = c_Bool c' n" if "n \<in> {''server'', ''port-forwarding'', ''adopt-healthy-registration''}" for n
    using auth(3) that by (auto simp: same_options_def plain_flag_def)
  have eqd: "c_Duration c n = c_Duration c' n"
    if "n \<in> {''refresh-interval'', ''refresh-jitter'', ''max-registration-age'', ''health-check-interval'', ''control-timeout'',
        ''recovery-backoff-min'', ''recovery-backoff-max'', ''recovery-cooldown'', ''hook-timeout''}" for n
    using auth(3) that by (auto simp: same_options_def plain_flag_def)
  have eqi: "c_Int c n = c_Int c' n" if "n \<in> {''unhealthy-threshold'', ''alert-after''}" for n
    using auth(3) that by (auto simp: same_options_def plain_flag_def)
  have rt: "new_refreshRuntime c = new_refreshRuntime c'"
    by (intro ext) (simp add: new_refreshRuntime_def region_option_def eqs eqb eqd eqi auth(2))
  have "c_String c ''ipv6-mode'' = c_String c' ''ipv6-mode''" "c_String c ''docker-host'' = c_String c' ''docker-host''"
    by (rule eqs, simp)+
  then show ?thesis unfolding runRefresh_def auth(1) rt by simp
qed

lemma pf_reads_declared:
  assumes "same_options (cm_Flags buildPFCommand) c c'"
  shows "runPF c w = runPF c' w"
proof -
  note auth = same_auth_part [OF assms [unfolded buildPFCommand_def cli_command.simps]]
  have eqs: "c_String c n = c_String c' n" if "n \<in> {''state-dir'', ''region'', ''on-port-change''}" for n
    using auth(3) that by (auto simp: same_options_def plain_flag_def)
  have eqd: "c_Bool c ''wait-for-gateway'' = c_Bool c' ''wait-for-gateway''"
    "c_Duration c ''gateway-timeout'' = c_Duration c' ''gateway-timeout''"
    "c_Duration c ''gateway-check-interval'' = c_Duration c' ''gateway-check-interval''"
    "c_Duration c ''poll-interval'' = c_Duration c' ''poll-interval''"
    using auth(3) by (simp_all add: same_options_def plain_flag_def)
  have "pf_options_of c = pf_options_of c'"
    by (intro ext) (simp add: pf_options_of_def region_option_def eqs eqd auth(2))
  then show ?thesis unfolding runPF_def auth(1) by simp
qed

lemma healthcheck_reads_declared:
  assumes "same_options (cm_Flags buildHealthcheckCommand) c c'"
  shows "runHealthcheck c w = runHealthcheck c' w"
proof -
  have "health_options_of c = health_options_of c'"
    using assms by (intro ext) (simp add: health_options_of_def same_options_def buildHealthcheckCommand_def plain_flag_def)
  then show ?thesis unfolding runHealthcheck_def by simp
qed

lemma flag_names_distinct:
  "list_all (\<lambda>cmd. distinct (''help'' # ''h'' # [''version''] @ all_names (cm_Flags cmd)))
     [buildGenerateCommand, buildRegionsCommand, buildDaemonCommand, buildRefreshCommand, buildPFCommand, buildHealthcheckCommand]"
  by code_simp

text \<open>
  C33: The tables and the code agree. In the table of the program and of each command no two flags
  share a name or an alias, none takes a name of the flags urfave/cli adds (help and version),
  and the commands have distinct names. And a command, like the program without one, reads only
  options its table declares, each at the type it is declared with: command lines that agree on
  the declared flags and the arguments have the same effect.
\<close>

theorem options_are_declared:
  assumes app: "app = buildApp vars info"
    and table: "(flags, act) \<in> set ((ap_Flags app, ap_Action app) # map (\<lambda>cmd. (cm_Flags cmd, cm_Action cmd)) (ap_Commands app))"
  shows "distinct (''help'' # ''h'' # ap_VersionFlag app @ all_names flags) \<and>
    distinct (concat (map (\<lambda>cmd. cm_Name cmd # cm_Aliases cmd) (ap_Commands app))) \<and>
    (\<forall>c c' w. same_options flags c c' \<longrightarrow> perform act c w = perform act c' w)"
proof -
  have names: "distinct (''help'' # ''h'' # [''version''] @ all_names (cm_Flags cmd))" if "cmd \<in> set (ap_Commands app)" for cmd
    using that flag_names_distinct unfolding app buildApp_def list_all_iff cli_app.simps by blast
  have cmds: "distinct (concat (map (\<lambda>cmd. cm_Name cmd # cm_Aliases cmd) (ap_Commands app)))"
    by (simp add: app buildApp_def flag_defs)
  have reads: "perform (cm_Action cmd) c w = perform (cm_Action cmd) c' w"
    if "cmd \<in> set (ap_Commands app)" "same_options (cm_Flags cmd) c c'" for cmd c c' w
  proof -
    have "cmd \<in> {buildGenerateCommand, buildRegionsCommand, buildDaemonCommand, buildRefreshCommand, buildPFCommand,
        buildHealthcheckCommand}" using that(1) by (simp add: app buildApp_def)
    then show ?thesis
      using that(2) generate_reads_declared regions_reads_declared daemon_reads_declared refresh_reads_declared
        pf_reads_declared healthcheck_reads_declared
      by (elim insertE) (simp_all add: buildGenerateCommand_def buildRegionsCommand_def buildDaemonCommand_def
          buildRefreshCommand_def buildPFCommand_def buildHealthcheckCommand_def)
  qed
  have "\<exists>cmd \<in> set (ap_Commands app). flags = cm_Flags cmd \<and> act = cm_Action cmd"
    using table by (auto simp: app buildApp_def buildGenerateCommand_def)
  moreover have "ap_VersionFlag app = [''version'']" by (simp add: app buildApp_def)
  ultimately show ?thesis using names cmds reads by auto
qed

theorem options_are_declared_witness:
  "perform RunRefresh (sample_cli\<lparr>c_String := (c_String sample_cli)(''outfile'' := ''/tmp/x'')\<rparr>) offline_world =
   perform RunRefresh sample_cli offline_world"
proof -
  let ?app = "buildApp default_link_vars None"
  have "(cm_Flags buildRefreshCommand, RunRefresh) \<in>
      set ((ap_Flags ?app, ap_Action ?app) # map (\<lambda>cmd. (cm_Flags cmd, cm_Action cmd)) (ap_Commands ?app))"
    by (simp add: buildApp_def buildRefreshCommand_def)
  from options_are_declared [OF refl this, THEN conjunct2, THEN conjunct2] show ?thesis
    by (elim allE impE) (simp_all add: same_options_def flag_defs)
qed

end
