(* ===== verification/Spec2Isabelle.thy ===== *)
theory Spec2Isabelle
  imports Refresh_Runs Refresh_Apply PfDaemon Daemon Healthcheck Flags
begin

text \<open>
  A verification development for pia-wg-config, a Go program that registers WireGuard keys
  with PIA (Private Internet Access), writes a WireGuard configuration, keeps the VPN container
  gluetun connected and forwards a port.

  \<^bold>\<open>The program.\<close> Package \<^verbatim>\<open>pia\<close> (src/pia) is the client: the server list, tokens, key
  registration, configuration files, the tunnel check, the record of registration lifetimes,
  redaction, and the port-forwarding gateway. Package \<^verbatim>\<open>main\<close> (src) has the commands:
  \<^verbatim>\<open>generate\<close> and \<^verbatim>\<open>regions\<close> run once; \<^verbatim>\<open>refresh\<close> is the daemon outside the tunnel's network
  namespace, \<^verbatim>\<open>pf\<close> the one inside it, and \<^verbatim>\<open>daemon\<close> does both jobs in one process;
  \<^verbatim>\<open>healthcheck\<close> judges the refresh daemon. They interact through the files of the state
  directory: wg0.conf (read by gluetun), status.json (written by refresh and daemon, read by
  healthcheck and by the next start of refresh), the pending port forward (written by refresh and
  daemon, read by pf and by the next start of daemon), the lifetime record, and forwarded_port.

  \<^bold>\<open>Theories.\<close>

    \<^item> Go, without the program. \<open>Go_Prelude\<close>: durations and instants with the wrap-around and
      saturation of 64 bits, results \<open>Ok\<close> / \<open>Err\<close> / \<open>Panic\<close>, early return (\<open>io_try\<close>), the locale
      \<open>step_invariant\<close>. \<open>Go_Strings\<close>: the functions of package strings, URL escaping.
      \<open>Go_Json\<close>: documents, decoding rules, the locale \<open>json_type\<close> (what is written is read back).
      \<open>World\<close>: the environment of the process as one record, with the files, the clock, the
      environment variables, streams of outcomes of system calls, HTTP requests, programs, key
      generation and randomness, and the trace of effects.
    \<^item> \<open>Atomic_Write\<close>: atomicWriteFile (main.go), atomicWriteState (pia/lifetime.go), and their
      contract, the locale \<open>atomic_writer\<close>.
    \<^item> \<open>Redact\<close>: pia/redact.go; the locale \<open>redactor\<close> is the contract of its five matchers.
    \<^item> \<open>Lifetime\<close>: pia/lifetime.go, and RegistrationAge of pia/health.go.
    \<^item> \<open>Health\<close>: CheckTunnelViaControlServer and ParseEndpointFromConfig of pia/health.go.
    \<^item> \<open>Alert\<close>: alert.go, the policy, the queue with its worker, and the hook's environment.
    \<^item> \<open>Pia_Api\<close>, \<open>WgConfig\<close>, \<open>TokenCache\<close>, \<open>TokenFetcher\<close>, \<open>PiaClient\<close>: the data of the API,
      pia/wg.go, pia/token_cacher.go, pia/token_fetcher.go with pia/helpers.go, pia/pia.go. The
      locale \<open>wg_client\<close> is what the generator relies on of its client; pia.go's client satisfies it.
    \<^item> \<open>Hooks\<close>, \<open>Status\<close>, \<open>Timing\<close>, \<open>Cli\<close>: the helpers of main.go (hooks and the Docker restart;
      status.json and the pending port forward; jitter, sleeps and the gateway wait; credentials,
      options, generate and regions).
    \<^item> \<open>Refresh\<close>: refresh.go. \<open>refreshRuntime\<close> is the struct, runRefresh the command up to its
      loop, \<open>refresh_step\<close> one iteration of the loop. \<open>Refresh_Safety\<close>, \<open>Refresh_Apply\<close> and
      \<open>Refresh_Runs\<close> prove its properties; the locale \<open>loop_invariant\<close> says what a property has to
      survive to hold in every run.
    \<^item> \<open>Pf\<close>: pia/pf.go. \<open>Lease\<close>: the lease of main.go (pfLeaseState, acquireAndBindPort,
      startPFRenewLoop). \<open>PfDaemon\<close>: pf_daemon.go. \<open>Daemon\<close>: runDaemon of main.go.
    \<^item> \<open>Healthcheck\<close>: healthcheck.go, and the decoder of status.json.
    \<^item> \<open>Flags\<close>: buildApp, the command and flag tables, version.go.

  \<^bold>\<open>What is shown.\<close>

    \<^item> The refresh daemon: a health tick recovers exactly when the tunnel was down often enough
      and the cooldown is over, and otherwise only replaces the status file; recoveries are
      spaced by the base cooldown in every run; the cooldown loop computes the doubling up to
      its cap; the configuration and the pending port forward are complete on disk when the
      restart request goes out; adopting a registration sends no registration and no restart;
      the counters and times of its state are consistent in every run; the error text of the
      status never has the user name or the password; the proactive refresh is on time; the
      options it rejects, and the panic of a non-positive interval.
    \<^item> Port forwarding: requests and answers of the gateway survive base64, JSON and URL escaping;
      both lease holders only renew a port that was signed and announced, in every interleaving
      with the renewing goroutine; pf acquires once per registration and takes up a new one in
      one poll; daemon exits only with its registration on disk, and its successor resumes it.
    \<^item> Files: crash safety of the atomic writers; round trips of status.json, the pending port
      forward, the lifetime record and the token cache; the endpoint of a generated configuration.
    \<^item> The client: region resolution, where the password is sent, curl's footer, and two defects (a
      panic without a server, a truncated certificate that is kept).
    \<^item> Policies: one alert per outage, alerts in order, no credentials in a hook's environment,
      redaction of known secrets, the refresh interval, the probe's verdict, the tunnel's verdict,
      hooks and the Docker restart; and every command reads only options its table declares.

  \<^bold>\<open>How effects are modelled.\<close> An operation takes the world and returns it. What the outside
  decides is read from the streams of the world, so a statement for all worlds is one for all
  outcomes; every call of the system, the network or a program can fail. Effects are appended to
  the trace, and the files of a world are what the trace makes of its initial ones. Texts a
  program parses as JSON are read by \<open>w_json\<close>, which is arbitrary; documents it wrote itself are
  trees. Log lines have no effect in the model.

  \<^bold>\<open>Concurrency.\<close> The alert worker acts between operations of the refresh daemon, and shares
  only the queue with it. The renewing goroutine copies the lease in one step and sends its
  request in another; a poll of pf and an iteration of daemon are one step each. The single-flight
  lock of the refresh daemon is never contended, since only its loop regenerates. A ticker keeps one
  missed tick, as Go's does. Shell hooks and other processes change none of the program's
  files, but the writes of the refresh daemon to the pending file are a step of pf.

  \<^bold>\<open>Bounds.\<close> Loops are recursions on what bounds them: a regeneration makes
  \<open>maxRegenAttempts\<close> = 6 attempts, os.CreateTemp tries 10000 names, the cooldown loop is bounded by the
  recoveries. The wait for the gateway has fuel; on a clock that does not run backwards
  timeout / interval + 1 rounds (\<open>enough_rounds\<close>) are shown to suffice, so a poll and an iteration
  end. The daemons' loops are endless and are step relations.

  \<^bold>\<open>Not modelled.\<close> The vendored packages (urfave/cli, pkg/errors, wgctrl and their
  dependencies): the parsed command line is the parameter \<open>cli_context\<close>, key generation a stream
  of the world. Usage texts, log lines, and the Windows branches of the token cache.
\<close>

end
